(* ===== verification/Tetris_Prelude.thy ===== *)
theory Tetris_Prelude
  imports Complex_Main
begin

text \<open>
  Shared vocabulary of the development: Python exceptions as values, Python list and
  dictionary access with the exceptions it raises, loops over lists whose body may raise,
  and the two interfaces (locales) that several components implement: a machine whose
  operations keep an invariant, and a simulation between two machines.
\<close>

subsection \<open>Exceptions as values\<close>

datatype py_error =
    IndexError | KeyError | TypeError | AttributeError | ValueError | NameError | ZeroDivisionError
  | StructError | UnicodeError

type_synonym 'a py = "py_error + 'a"

definition py_bind :: "'a py \<Rightarrow> ('a \<Rightarrow> 'b py) \<Rightarrow> 'b py" where
  "py_bind r f = (case r of Inl e \<Rightarrow> Inl e | Inr x \<Rightarrow> f x)"

named_theorems py_simps \<open>evaluation of Python operations that may raise\<close>

lemma py_bind_Inl [simp, py_simps]: "py_bind (Inl e) f = Inl e"
  by (simp add: py_bind_def)

lemma py_bind_Inr [simp, py_simps]: "py_bind (Inr x) f = f x"
  by (simp add: py_bind_def)

lemma py_bind_eq_Inr: "py_bind r f = Inr y \<longleftrightarrow> (\<exists>x. r = Inr x \<and> f x = Inr y)"
  by (cases r) auto

lemma py_bind_eq_Inl:
  "py_bind r f = Inl e \<longleftrightarrow> r = Inl e \<or> (\<exists>x. r = Inr x \<and> f x = Inl e)"
  by (cases r) auto

lemma py_bind_InrE:
  assumes "py_bind r f = Inr y"
  obtains x where "r = Inr x" "f x = Inr y"
  using assms by (auto simp: py_bind_eq_Inr)

lemma py_bind_cong [fundef_cong]:
  "r = r' \<Longrightarrow> (\<And>x. r' = Inr x \<Longrightarrow> f x = f' x) \<Longrightarrow> py_bind r f = py_bind r' f'"
  by (cases r') auto

lemma py_bind_assoc: "py_bind (py_bind r f) g = py_bind r (\<lambda>x. py_bind (f x) g)"
  by (cases r) auto

abbreviation raises :: "'a py \<Rightarrow> bool" where
  "raises r \<equiv> \<exists>e. r = Inl e"

text \<open>A \<open>for\<close> loop over a list whose body updates the state and may raise.\<close>

fun py_for :: "('a \<Rightarrow> 's \<Rightarrow> 's py) \<Rightarrow> 'a list \<Rightarrow> 's \<Rightarrow> 's py" where
  "py_for f [] s = Inr s"
| "py_for f (x # xs) s = py_bind (f x s) (py_for f xs)"

lemma py_for_append: "py_for f (xs @ ys) s = py_bind (py_for f xs s) (py_for f ys)"
  by (induction xs arbitrary: s) (auto simp: py_bind_assoc intro: py_bind_cong)

lemma py_for_invariant:
  assumes "py_for f xs s = Inr s'" and "P s"
    and "\<And>x s s'. x \<in> set xs \<Longrightarrow> P s \<Longrightarrow> f x s = Inr s' \<Longrightarrow> P s'"
  shows "P s'"
  using assms by (induction xs arbitrary: s) (auto simp: py_bind_eq_Inr)

lemma py_for_defined:
  assumes "P s"
    and "\<And>x s. x \<in> set xs \<Longrightarrow> P s \<Longrightarrow> \<exists>s'. f x s = Inr s' \<and> P s'"
  shows "\<exists>s'. py_for f xs s = Inr s' \<and> P s'"
  using assms by (induction xs arbitrary: s) fastforce+

lemma py_for_pure: "py_for (\<lambda>x s. Inr (f x s)) xs s = Inr (fold f xs s)"
  by (induction xs arbitrary: s) simp_all

text \<open>The rule for \<open>for i in range(n)\<close>: an assertion that each round takes from \<open>i\<close> to \<open>i + 1\<close>.\<close>

lemma py_for_range_from:
  assumes "k \<le> n" and "P k s"
    and "\<And>i s. k \<le> i \<Longrightarrow> i < n \<Longrightarrow> P i s \<Longrightarrow> \<exists>s'. f i s = Inr s' \<and> P (i + 1) s'"
  shows "\<exists>s'. py_for f [k..n - 1] s = Inr s' \<and> P (n :: int) s'"
  using assms
proof (induction "nat (n - k)" arbitrary: k s)
  case 0
  then show ?case by (simp add: upto.simps)
next
  case (Suc m)
  then have less: "k < n" by simp
  with Suc.prems obtain s1 where s1: "f k s = Inr s1" "P (k + 1) s1" by blast
  have "\<exists>s'. py_for f [k + 1..n - 1] s1 = Inr s' \<and> P n s'"
    using Suc.hyps less s1(2) Suc.prems(3) by (intro Suc.hyps(1)) auto
  moreover have "[k..n - 1] = k # [k + 1..n - 1]" using less by (simp add: upto.simps)
  ultimately show ?case using s1(1) by simp
qed

lemmas py_for_range = py_for_range_from [where k = 0]

subsection \<open>Python lists and dictionaries\<close>

text \<open>
  \<open>xs[i]\<close> with a negative index counts from the end; an index outside
  \<open>-len(xs) .. len(xs) - 1\<close> raises \<open>IndexError\<close>.
\<close>

definition py_index :: "nat \<Rightarrow> int \<Rightarrow> nat option" where
  "py_index n i =
     (if 0 \<le> i \<and> i < int n then Some (nat i)
      else if - int n \<le> i \<and> i < 0 then Some (nat (int n + i))
      else None)"

definition py_get :: "'a list \<Rightarrow> int \<Rightarrow> 'a py" where
  "py_get xs i = (case py_index (length xs) i of
     None \<Rightarrow> Inl IndexError | Some k \<Rightarrow> Inr (xs ! k))"

definition py_set :: "'a list \<Rightarrow> int \<Rightarrow> 'a \<Rightarrow> 'a list py" where
  "py_set xs i v = (case py_index (length xs) i of
     None \<Rightarrow> Inl IndexError | Some k \<Rightarrow> Inr (xs[k := v]))"

definition py_del :: "'a list \<Rightarrow> int \<Rightarrow> 'a list py" where
  "py_del xs i = (case py_index (length xs) i of
     None \<Rightarrow> Inl IndexError | Some k \<Rightarrow> Inr (take k xs @ drop (Suc k) xs))"

definition dict_get :: "('k \<times> 'v) list \<Rightarrow> 'k \<Rightarrow> 'v py" where
  "dict_get d k = (case map_of d k of None \<Rightarrow> Inl KeyError | Some v \<Rightarrow> Inr v)"

lemma py_index_nonneg: "0 \<le> i \<Longrightarrow> i < int n \<Longrightarrow> py_index n i = Some (nat i)"
  by (simp add: py_index_def)

lemma py_index_SomeD: "py_index n i = Some k \<Longrightarrow> k < n"
  by (auto simp: py_index_def split: if_splits)

lemma py_index_None_iff: "py_index n i = None \<longleftrightarrow> i < - int n \<or> int n \<le> i"
  by (auto simp: py_index_def)

lemma py_get_nonneg: "0 \<le> i \<Longrightarrow> i < int (length xs) \<Longrightarrow> py_get xs i = Inr (xs ! nat i)"
  by (simp add: py_get_def py_index_nonneg)

lemma py_set_nonneg: "0 \<le> i \<Longrightarrow> i < int (length xs) \<Longrightarrow> py_set xs i v = Inr (xs[nat i := v])"
  by (simp add: py_set_def py_index_nonneg)

lemma py_del_nonneg:
  "0 \<le> i \<Longrightarrow> i < int (length xs) \<Longrightarrow> py_del xs i = Inr (take (nat i) xs @ drop (Suc (nat i)) xs)"
  by (simp add: py_del_def py_index_nonneg)

lemma py_get_InrD: "py_get xs i = Inr v \<Longrightarrow> v \<in> set xs"
  by (auto simp: py_get_def dest: py_index_SomeD split: option.splits)

lemma py_set_length: "py_set xs i v = Inr ys \<Longrightarrow> length ys = length xs"
  by (auto simp: py_set_def split: option.splits)

lemma py_del_length: "py_del xs i = Inr ys \<Longrightarrow> Suc (length ys) = length xs"
  by (auto simp: py_del_def dest: py_index_SomeD split: option.splits)

lemma py_del_subset: "py_del xs i = Inr ys \<Longrightarrow> set ys \<subseteq> set xs"
  by (auto simp: py_del_def dest: in_set_takeD in_set_dropD split: option.splits)

lemma py_set_subset: "py_set xs i v = Inr ys \<Longrightarrow> set ys \<subseteq> insert v (set xs)"
  by (auto simp: py_set_def dest: set_update_subset_insert [THEN subsetD] split: option.splits)

lemma py_get_defined: "- int (length xs) \<le> i \<Longrightarrow> i < int (length xs) \<Longrightarrow> \<exists>v \<in> set xs. py_get xs i = Inr v"
  by (auto simp: py_get_def py_index_def)

lemma py_set_defined: "- int (length xs) \<le> i \<Longrightarrow> i < int (length xs) \<Longrightarrow> \<exists>ys. py_set xs i v = Inr ys"
  by (auto simp: py_set_def py_index_def)

lemma py_del_defined: "- int (length xs) \<le> i \<Longrightarrow> i < int (length xs) \<Longrightarrow> \<exists>ys. py_del xs i = Inr ys"
  by (auto simp: py_del_def py_index_def)

text \<open>\<open>int(x)\<close> of a Python number truncates towards zero.\<close>

definition py_trunc :: "rat \<Rightarrow> int" where
  "py_trunc x = (if 0 \<le> x then \<lfloor>x\<rfloor> else \<lceil>x\<rceil>)"

text \<open>A \<open>pygame.Rect\<close> is used as four integers; its library operations are not modelled.\<close>

record rect =
  rect_x :: int
  rect_y :: int
  rect_w :: int
  rect_h :: int

lemma nth_take_drop_Suc:
  "k < length xs \<Longrightarrow> i < length xs - 1 \<Longrightarrow>
   (take k xs @ drop (Suc k) xs) ! i = (if i < k then xs ! i else xs ! Suc i)"
  by (auto simp: nth_append min_def)

subsection \<open>Interfaces\<close>

text \<open>
  A machine: operations that may raise, run one after the other. The provider promises that
  every operation keeps the invariant; the client gets it for every run.
\<close>

locale machine =
  fixes step :: "'e \<Rightarrow> 's \<Rightarrow> 's py"
    and inv :: "'s \<Rightarrow> bool"
  assumes step_inv: "inv s \<Longrightarrow> step e s = Inr s' \<Longrightarrow> inv s'"
begin

lemma run_inv: "inv s \<Longrightarrow> py_for step es s = Inr s' \<Longrightarrow> inv s'"
  by (rule py_for_invariant) (auto intro: step_inv)

end

text \<open>
  A safe machine: the provider also names the operations that are acceptable and promises that
  they do not raise in a state that satisfies the invariant.
\<close>

locale safe_machine = machine step inv
  for step :: "'e \<Rightarrow> 's \<Rightarrow> 's py" and inv :: "'s \<Rightarrow> bool" +
  fixes acceptable :: "'e \<Rightarrow> bool"
  assumes step_defined: "inv s \<Longrightarrow> acceptable e \<Longrightarrow> \<exists>s'. step e s = Inr s'"
begin

lemma run_defined:
  assumes "inv s" and "\<And>e. e \<in> set es \<Longrightarrow> acceptable e"
  shows "\<exists>s'. py_for step es s = Inr s' \<and> inv s'"
  using assms by (intro py_for_defined) (blast dest: step_defined intro: step_inv)+

end

text \<open>
  A simulation: each abstract step is answered by a concrete run of operations, which does
  not raise and re-establishes the relation. The client gets it for every abstract run.
\<close>

locale simulation =
  fixes astep :: "'i \<Rightarrow> 'a \<Rightarrow> 'a \<times> 'm list"
    and cstep :: "'m \<Rightarrow> 'c \<Rightarrow> 'c py"
    and rel :: "'a \<Rightarrow> 'c \<Rightarrow> bool"
    and legal :: "'i \<Rightarrow> bool"
  assumes sim_step:
    "rel a c \<Longrightarrow> legal i \<Longrightarrow> astep i a = (a', ms) \<Longrightarrow> \<exists>c'. py_for cstep ms c = Inr c' \<and> rel a' c'"
begin

fun arun :: "'i list \<Rightarrow> 'a \<Rightarrow> 'a \<times> 'm list" where
  "arun [] a = (a, [])"
| "arun (i # es) a = (let (a', ms) = astep i a; (a'', ms') = arun es a' in (a'', ms @ ms'))"

lemma sim_run:
  assumes "rel a c" and "\<And>i. i \<in> set es \<Longrightarrow> legal i" and "arun es a = (a', ms)"
  shows "\<exists>c'. py_for cstep ms c = Inr c' \<and> rel a' c'"
  using assms
proof (induction es arbitrary: a c a' ms)
  case Nil
  then show ?case by simp
next
  case (Cons i es)
  obtain a1 ms1 where step: "astep i a = (a1, ms1)" by fastforce
  obtain a2 ms2 where run: "arun es a1 = (a2, ms2)" by fastforce
  from Cons.prems step run have res: "a' = a2" "ms = ms1 @ ms2" by auto
  from sim_step [OF Cons.prems(1) _ step] Cons.prems(2)
  obtain c1 where c1: "py_for cstep ms1 c = Inr c1" "rel a1 c1" by auto
  from Cons.IH [OF c1(2) _ run] Cons.prems(2)
  obtain c2 where "py_for cstep ms2 c1 = Inr c2" "rel a2 c2" by auto
  with c1 res show ?case by (simp add: py_for_append)
qed

end

end
