(* ===== verification/Tetromino.thy ===== *)
theory Tetromino
  imports Tetris_Prelude
begin

text \<open>
  The piece tables of \<^verbatim>\<open>client/tetris/config/define.py\<close> (\<open>SHAPES\<close>,
  \<open>SHAPES_INDEX\<close>), the constants and move codes of \<^verbatim>\<open>client/tetris/game/define.py\<close>,
  and the class \<open>Tetromino\<close> of \<^verbatim>\<open>client/tetris/game/tetromino.py\<close>.
\<close>

subsection \<open>Tables\<close>

text \<open>The keys \<open>'I' .. 'Z'\<close> of the seven pieces and \<open>'G'\<close> of a grey garbage cell.\<close>

datatype shape = KI | KJ | KL | KO | KS | KT | KZ | KG

type_synonym cells = "(int \<times> int) list"

definition SHAPES :: "(shape \<times> cells list) list" where
  "SHAPES =
    [(KI, [[(0,1), (1,1), (2,1), (3,1)],
           [(2,0), (2,1), (2,2), (2,3)]]),
     (KJ, [[(0,0), (0,1), (1,1), (2,1)],
           [(1,0), (2,0), (1,1), (1,2)],
           [(0,1), (1,1), (2,1), (2,2)],
           [(1,0), (1,1), (0,2), (1,2)]]),
     (KL, [[(2,0), (0,1), (1,1), (2,1)],
           [(1,0), (1,1), (1,2), (2,2)],
           [(0,1), (1,1), (2,1), (0,2)],
           [(0,0), (1,0), (1,1), (1,2)]]),
     (KO, [[(1,0), (2,0), (1,1), (2,1)]]),
     (KS, [[(1,1), (2,1), (0,2), (1,2)],
           [(1,0), (1,1), (2,1), (2,2)]]),
     (KT, [[(1,0), (0,1), (1,1), (2,1)],
           [(1,0), (1,1), (2,1), (1,2)],
           [(0,1), (1,1), (2,1), (1,2)],
           [(1,0), (0,1), (1,1), (1,2)]]),
     (KZ, [[(0,1), (1,1), (1,2), (2,2)],
           [(2,0), (1,1), (2,1), (1,2)]])]"

definition SHAPES_INDEX :: "(int \<times> shape) list" where
  "SHAPES_INDEX =
    [(0, KI), (1, KJ), (2, KL), (3, KO), (4, KS), (5, KT), (6, KZ), (7, KG)]"

definition BOARD_WIDTH :: int where "BOARD_WIDTH = 15"
definition BOARD_HEIGHT :: int where "BOARD_HEIGHT = 25"
definition BOARD_COLS :: int where "BOARD_COLS = 10"
definition HIDDEN_ROWS :: int where "HIDDEN_ROWS = 5"
definition VALID_ROWS :: int where "VALID_ROWS = 20"
definition BOARD_ROWS :: int where "BOARD_ROWS = VALID_ROWS + HIDDEN_ROWS"
definition PREVIEW_COLS :: int where "PREVIEW_COLS = 5"

lemmas board_consts = BOARD_WIDTH_def BOARD_HEIGHT_def BOARD_COLS_def HIDDEN_ROWS_def
  VALID_ROWS_def BOARD_ROWS_def PREVIEW_COLS_def

text \<open>\<open>MoveType\<close> is an \<open>IntEnum\<close>: its members compare equal to the integers of the wire.\<close>

datatype MoveType = RIGHT | LEFT | ROTATE | DOWN | DROP | UP

fun move_code :: "MoveType \<Rightarrow> int" where
  "move_code RIGHT = 0"
| "move_code LEFT = 1"
| "move_code ROTATE = 2"
| "move_code DOWN = 3"
| "move_code DROP = 4"
| "move_code UP = 5"

datatype TSessionState = WAIT | PLAY | GAMEOVER | GAMEOVER_ANIMATING | EMPTY

subsection \<open>The class\<close>

record tetromino =
  shape_key :: shape
  tet_x :: int
  tet_y :: int
  rotation :: int

definition Tetromino :: "shape \<Rightarrow> int \<Rightarrow> int \<Rightarrow> tetromino" where
  "Tetromino k x y = \<lparr>shape_key = k, tet_x = x, tet_y = y, rotation = 0\<rparr>"

definition blocks :: "tetromino \<Rightarrow> cells py" where
  "blocks t =
     py_bind (dict_get SHAPES (shape_key t)) (\<lambda>rots.
     py_bind (py_get rots (rotation t)) (\<lambda>cs.
       Inr (map (\<lambda>(cx, cy). (tet_x t + cx, tet_y t + cy)) cs)))"

definition rotated :: "int \<Rightarrow> tetromino \<Rightarrow> tetromino py" where
  "rotated delta t =
     py_bind (dict_get SHAPES (shape_key t)) (\<lambda>rots.
       let max_rot = int (length rots)
       in Inr (t\<lparr>rotation := (rotation t + delta) mod max_rot\<rparr>))"

text \<open>A well-formed piece: one of the seven shapes, at one of its rotations.\<close>

definition wf_tetromino :: "tetromino \<Rightarrow> bool" where
  "wf_tetromino t \<longleftrightarrow> (case map_of SHAPES (shape_key t) of
     None \<Rightarrow> False | Some rots \<Rightarrow> 0 \<le> rotation t \<and> rotation t < int (length rots))"

subsection \<open>Lemmas\<close>

definition good_cells :: "cells \<Rightarrow> bool" where
  "good_cells cs \<longleftrightarrow> length cs = 4 \<and> distinct cs \<and>
     list_all (\<lambda>(cx, cy). 0 \<le> cx \<and> cx \<le> 3 \<and> 0 \<le> cy \<and> cy \<le> 3) cs"

lemma SHAPES_good: "\<forall>(k, rots) \<in> set SHAPES. rots \<noteq> [] \<and> list_all good_cells rots"
  by (simp add: SHAPES_def good_cells_def)

lemma wf_tetrominoE:
  assumes "wf_tetromino t"
  obtains rots where "map_of SHAPES (shape_key t) = Some rots"
    "0 \<le> rotation t" "rotation t < int (length rots)" "rots \<noteq> []" "list_all good_cells rots"
proof -
  from assms obtain rots where r: "map_of SHAPES (shape_key t) = Some rots"
    "0 \<le> rotation t" "rotation t < int (length rots)"
    by (auto simp: wf_tetromino_def split: option.splits)
  from r(1) have "(shape_key t, rots) \<in> set SHAPES" by (rule map_of_SomeD)
  with SHAPES_good have "rots \<noteq> []" "list_all good_cells rots" by auto
  with r show thesis by (rule that)
qed

lemma wf_Tetromino_iff: "wf_tetromino (Tetromino k x y) \<longleftrightarrow> k \<noteq> KG"
  by (cases k) (simp_all add: wf_tetromino_def Tetromino_def SHAPES_def)

lemma wf_tetromino_move [simp]:
  "wf_tetromino (t\<lparr>tet_x := x\<rparr>) = wf_tetromino t"
  "wf_tetromino (t\<lparr>tet_y := y\<rparr>) = wf_tetromino t"
  by (simp_all add: wf_tetromino_def split: option.splits)

lemma blocks_wf:
  assumes "wf_tetromino t"
  obtains cs where "good_cells cs"
    and "\<And>x y. blocks (t\<lparr>tet_x := x, tet_y := y\<rparr>) = Inr (map (\<lambda>(cx, cy). (x + cx, y + cy)) cs)"
    and "blocks t = Inr (map (\<lambda>(cx, cy). (tet_x t + cx, tet_y t + cy)) cs)"
proof -
  from assms obtain rots where r: "map_of SHAPES (shape_key t) = Some rots"
    "0 \<le> rotation t" "rotation t < int (length rots)" "list_all good_cells rots"
    by (rule wf_tetrominoE)
  from r have "good_cells (rots ! nat (rotation t))"
    by (simp add: list_all_length nat_less_iff)
  with r that [of "rots ! nat (rotation t)"] show thesis
    by (simp add: blocks_def dict_get_def py_get_nonneg)
qed

lemma blocks_Inr: "wf_tetromino t \<Longrightarrow> \<exists>bs. blocks t = Inr bs"
  by (metis blocks_wf)

lemma blocks_not_above:
  assumes "blocks t = Inr bs"
  shows "\<exists>x y. (x, y) \<in> set bs \<and> tet_y t \<le> y"
proof -
  from assms obtain rots cs where r: "map_of SHAPES (shape_key t) = Some rots"
    "cs \<in> set rots" "bs = map (\<lambda>(cx, cy). (tet_x t + cx, tet_y t + cy)) cs"
    by (auto simp: blocks_def py_bind_eq_Inr dict_get_def split: option.splits dest: py_get_InrD)
  from map_of_SomeD [OF r(1)] r(2) SHAPES_good have "good_cells cs"
    by (auto simp: list_all_iff)
  then obtain cx cy where "(cx, cy) \<in> set cs" "0 \<le> cy"
    by (cases cs) (auto simp: good_cells_def)
  with r(3) show ?thesis by force
qed

lemma rotated_wf:
  assumes "wf_tetromino t"
  shows "\<exists>t'. rotated d t = Inr t' \<and> wf_tetromino t' \<and> shape_key t' = shape_key t
    \<and> tet_x t' = tet_x t \<and> tet_y t' = tet_y t"
  using assms
  by (elim wf_tetrominoE) (simp add: rotated_def dict_get_def wf_tetromino_def)

lemma rotated_InrD:
  "rotated d t = Inr t' \<Longrightarrow> wf_tetromino t' \<and> shape_key t' = shape_key t
    \<and> tet_x t' = tet_x t \<and> tet_y t' = tet_y t"
proof -
  assume r: "rotated d t = Inr t'"
  then obtain rots where m: "map_of SHAPES (shape_key t) = Some rots"
    and t': "t' = t\<lparr>rotation := (rotation t + d) mod int (length rots)\<rparr>"
    by (auto simp: rotated_def py_bind_eq_Inr dict_get_def Let_def split: option.splits)
  from map_of_SomeD [OF m] SHAPES_good have "rots \<noteq> []" by auto
  with m t' show ?thesis by (simp add: wf_tetromino_def)
qed

subsection \<open>Properties\<close>

text \<open>
  C1: a piece built from any index of \<open>SHAPES_INDEX\<close> below 7, wherever it stands and however
  it was rotated, has exactly four distinct cells, all inside the 4 x 4 box whose top left corner
  is its position.
\<close>

theorem blocks_four_cells:
  assumes "wf_tetromino t"
  shows "\<exists>bs. blocks t = Inr bs \<and> length bs = 4 \<and> distinct bs \<and>
    (\<forall>(x, y) \<in> set bs. tet_x t \<le> x \<and> x \<le> tet_x t + 3 \<and> tet_y t \<le> y \<and> y \<le> tet_y t + 3)"
proof -
  from assms obtain cs where g: "good_cells cs"
    and b: "blocks t = Inr (map (\<lambda>(cx, cy). (tet_x t + cx, tet_y t + cy)) cs)"
    by (rule blocks_wf)
  have "inj (\<lambda>(cx, cy). (tet_x t + cx, tet_y t + cy))" by (auto simp: inj_def)
  with g have "distinct (map (\<lambda>(cx, cy). (tet_x t + cx, tet_y t + cy)) cs)"
    by (auto simp: good_cells_def distinct_map intro: inj_on_subset)
  with g b show ?thesis by (auto simp: good_cells_def list_all_iff)
qed

theorem blocks_four_cells_witness:
  "\<exists>bs. blocks \<lparr>shape_key = KT, tet_x = -1, tet_y = 20, rotation = 3\<rparr> = Inr bs \<and> length bs = 4"
proof -
  let ?t = "\<lparr>shape_key = KT, tet_x = -1, tet_y = 20, rotation = 3\<rparr>"
  have "wf_tetromino ?t" by (simp add: wf_tetromino_def SHAPES_def)
  from blocks_four_cells [OF this] show ?thesis by blast
qed

text \<open>
  C2: rotation is a cyclic group action on well-formed pieces: \<open>rotated\<close> never raises on them,
  keeps shape and position, two rotations add up, and rotating as many steps as the shape has
  rotations (1, 2 or 4) gives the piece back.
\<close>

theorem rotated_cyclic:
  assumes "wf_tetromino t"
  shows "(\<exists>t'. rotated d t = Inr t' \<and> wf_tetromino t' \<and> shape_key t' = shape_key t
      \<and> tet_x t' = tet_x t \<and> tet_y t' = tet_y t)
    \<and> py_bind (rotated d t) (rotated d') = rotated (d + d') t
    \<and> (\<exists>rots. dict_get SHAPES (shape_key t) = Inr rots \<and> length rots \<in> {1, 2, 4}
        \<and> rotated (int (length rots)) t = Inr t)"
proof (intro conjI)
  show "\<exists>t'. rotated d t = Inr t' \<and> wf_tetromino t' \<and> shape_key t' = shape_key t
      \<and> tet_x t' = tet_x t \<and> tet_y t' = tet_y t"
    by (rule rotated_wf [OF assms])
  from assms obtain rots where r: "map_of SHAPES (shape_key t) = Some rots"
    "0 \<le> rotation t" "rotation t < int (length rots)" "rots \<noteq> []"
    by (rule wf_tetrominoE)
  then show "py_bind (rotated d t) (rotated d') = rotated (d + d') t"
    by (simp add: rotated_def dict_get_def mod_add_left_eq add.assoc)
  from map_of_SomeD [OF r(1)] have "length rots \<in> {1, 2, 4}" by (auto simp: SHAPES_def)
  with r show "\<exists>rots. dict_get SHAPES (shape_key t) = Inr rots \<and> length rots \<in> {1, 2, 4}
        \<and> rotated (int (length rots)) t = Inr t"
    by (auto simp: rotated_def dict_get_def)
qed

theorem rotated_cyclic_witness:
  "py_bind (rotated 3 (Tetromino KJ 4 0)) (rotated 2) = rotated (3 + 2) (Tetromino KJ 4 0)"
proof -
  have "wf_tetromino (Tetromino KJ 4 0)" by (simp add: wf_Tetromino_iff)
  from rotated_cyclic [OF this, of 3 2] show ?thesis by blast
qed

end
