(* ===== verification/Board.thy ===== *)
theory Board
  imports Tetromino
begin

text \<open>
  The board of \<^verbatim>\<open>client/tetris/game/tetris_board.py\<close> (\<open>TetrisBoard\<close>) and the combo
  animation of \<^verbatim>\<open>client/tetris/animation/combo_animation.py\<close>. Sounds are
  not modelled; textures and drawing are in \<open>BoardDraw\<close>. Times in milliseconds are rational numbers; the rounding of
  Python's floats is left out.
\<close>

subsection \<open>Combo animation\<close>

type_synonym colour = "int \<times> int \<times> int"

definition ORANGE :: colour where "ORANGE = (240, 160, 0)"
definition YELLOW :: colour where "YELLOW = (240, 240, 0)"
definition GREEN :: colour where "GREEN = (0, 240, 0)"
definition RED :: colour where "RED = (240, 0, 0)"

record combo_animation =
  draw_x :: int
  draw_y :: int
  elapsed_time :: rat
  animation_time :: rat
  active :: bool
  combo_no :: int
  combo_colour :: colour

text \<open>
  The chain of \<open>elif\<close> has no \<open>else\<close>: with no branch taken the local variable \<open>color\<close> would
  be unbound and its use would raise.
\<close>

definition combo_color :: "int \<Rightarrow> colour py" where
  "combo_color combo =
     (if combo mod 5 = 0 \<or> combo mod 5 = 1 then Inr RED
      else if combo mod 5 = 2 then Inr ORANGE
      else if combo mod 5 = 3 then Inr YELLOW
      else if combo mod 5 = 4 then Inr GREEN
      else Inl NameError)"

definition ComboAnimation :: "int \<Rightarrow> int \<Rightarrow> int \<Rightarrow> combo_animation py" where
  "ComboAnimation combo x y = py_bind (combo_color combo) (\<lambda>col. Inr
     \<lparr>draw_x = x, draw_y = y, elapsed_time = 0, animation_time = 1000, active = True,
      combo_no = combo, combo_colour = col\<rparr>)"

definition get_alpha :: "combo_animation \<Rightarrow> int" where
  "get_alpha a =
     (let alpha = py_trunc (255 * ((animation_time a - elapsed_time a) / animation_time a));
          alpha = (if 255 < alpha then 255 else alpha)
      in if alpha < 0 then 0 else alpha)"

definition combo_update :: "rat \<Rightarrow> combo_animation \<Rightarrow> combo_animation" where
  "combo_update dt_ms a =
     (if active a then
        let a = a\<lparr>elapsed_time := elapsed_time a + dt_ms\<rparr>
        in if animation_time a \<le> elapsed_time a then a\<lparr>active := False\<rparr> else a
      else a)"

lemma combo_color_Inr: "\<exists>col. combo_color combo = Inr col"
proof -
  have "0 \<le> combo mod 5" "combo mod 5 < 5" by simp_all
  then have "combo mod 5 = 0 \<or> combo mod 5 = 1 \<or> combo mod 5 = 2 \<or> combo mod 5 = 3 \<or> combo mod 5 = 4"
    by arith
  then show ?thesis unfolding combo_color_def by metis
qed

lemma ComboAnimation_Inr: "\<exists>a. ComboAnimation combo x y = Inr a"
  using combo_color_Inr [of combo] by (auto simp: ComboAnimation_def)

lemma get_alpha_range: "0 \<le> get_alpha a \<and> get_alpha a \<le> 255"
  by (auto simp: get_alpha_def Let_def)

subsection \<open>State\<close>

type_synonym cell = "shape option"
type_synonym grid = "cell list list"

record board =
  b_rect :: rect
  cell_length :: int
  full_grid_rect :: rect
  valid_grid_rect :: rect
  preview_rect :: rect
  grid :: grid
  current_tetromino :: "tetromino option"
  next_tetromino_shape :: "shape option"
  combo_effects :: "combo_animation list"
  anim_elapsed_ms :: rat
  anim_target_line :: int

definition blank_row :: "cell list" where
  "blank_row = replicate (nat BOARD_COLS) None"

definition blank_grid :: grid where
  "blank_grid = replicate (nat BOARD_ROWS) blank_row"

definition set_layout :: "board \<Rightarrow> board" where
  "set_layout b =
     (let r = b_rect b;
          cell_w1 = rect_w r div BOARD_WIDTH;
          cell_w2 = rect_h r div BOARD_HEIGHT;
          cl = min cell_w1 cell_w2;
          draw_y = rect_y r + HIDDEN_ROWS * cl;
          draw_w = cl * BOARD_COLS
      in b\<lparr>cell_length := cl,
           valid_grid_rect := \<lparr>rect_x = rect_x r, rect_y = draw_y, rect_w = draw_w,
             rect_h = cl * VALID_ROWS\<rparr>,
           full_grid_rect := \<lparr>rect_x = rect_x r, rect_y = rect_y r, rect_w = draw_w,
             rect_h = cl * BOARD_ROWS\<rparr>,
           preview_rect := \<lparr>rect_x = rect_x r + cl * BOARD_COLS, rect_y = draw_y,
             rect_w = cl * PREVIEW_COLS, rect_h = cl * PREVIEW_COLS\<rparr>\<rparr>)"

definition TetrisBoard :: "rect \<Rightarrow> board" where
  "TetrisBoard r = set_layout
     \<lparr>b_rect = r, cell_length = 0, full_grid_rect = r, valid_grid_rect = r, preview_rect = r,
      grid = blank_grid, current_tetromino = None, next_tetromino_shape = None,
      combo_effects = [], anim_elapsed_ms = 0, anim_target_line = BOARD_ROWS - 1\<rparr>"

subsection \<open>Cells\<close>

definition grid_get :: "grid \<Rightarrow> int \<Rightarrow> int \<Rightarrow> cell py" where
  "grid_get g r c = py_bind (py_get g r) (\<lambda>row. py_get row c)"

definition grid_set :: "int \<Rightarrow> int \<Rightarrow> cell \<Rightarrow> grid \<Rightarrow> grid py" where
  "grid_set r c v g =
     py_bind (py_get g r) (\<lambda>row. py_bind (py_set row c v) (\<lambda>row'. py_set g r row'))"

definition clear_board :: "board \<Rightarrow> board py" where
  "clear_board b =
     py_bind (py_for (\<lambda>r. py_for (\<lambda>c. grid_set r c None) [0..BOARD_COLS - 1])
               [0..BOARD_ROWS - 1] (grid b))
       (\<lambda>g. Inr (b\<lparr>grid := g\<rparr>))"

definition board_init :: "board \<Rightarrow> board py" where
  "board_init b = py_bind (clear_board b) (\<lambda>b.
     Inr (b\<lparr>current_tetromino := None, next_tetromino_shape := None\<rparr>))"

definition board_reset :: "board \<Rightarrow> board py" where
  "board_reset b = py_bind (clear_board b) (\<lambda>b.
     Inr (b\<lparr>current_tetromino := None, next_tetromino_shape := None, combo_effects := [],
            anim_elapsed_ms := 0, anim_target_line := BOARD_ROWS - 1\<rparr>))"

definition board_clear :: "board \<Rightarrow> board py" where
  "board_clear b = py_bind (clear_board b) (\<lambda>b.
     Inr (b\<lparr>current_tetromino := None, next_tetromino_shape := None, combo_effects := [],
            anim_elapsed_ms := 0, anim_target_line := BOARD_ROWS - 1\<rparr>))"

subsection \<open>Game-over animation\<close>

fun has_colour :: "cell list \<Rightarrow> int list \<Rightarrow> bool py" where
  "has_colour row [] = Inr False"
| "has_colour row (y # ys) =
     py_bind (py_get row y) (\<lambda>v. py_bind (has_colour row ys) (\<lambda>esc.
       Inr (if v = None \<or> v = Some KG then esc else True)))"

function find_line :: "grid \<Rightarrow> int \<Rightarrow> int py" where
  "find_line g line =
     py_bind (py_get g line) (\<lambda>row. py_bind (has_colour row [0..BOARD_COLS - 1]) (\<lambda>escape.
       if escape then Inr line
       else if 0 < line then find_line g (line - 1) else Inr line))"
  by pat_completeness auto
termination
  by (relation "measure (\<lambda>(g, line). nat line)") auto

definition find_anim_start_line :: "board \<Rightarrow> board py" where
  "find_anim_start_line b =
     py_bind (find_line (grid b) (BOARD_ROWS - 1)) (\<lambda>line. Inr (b\<lparr>anim_target_line := line\<rparr>))"

definition grey_cell :: "int \<Rightarrow> int \<Rightarrow> bool \<times> grid \<Rightarrow> (bool \<times> grid) py" where
  "grey_cell line y = (\<lambda>(done_flag, g).
     py_bind (grid_get g line y) (\<lambda>v.
       if v \<noteq> None then py_bind (grid_set line y (Some KG) g) (\<lambda>g. Inr (False, g))
       else Inr (done_flag, g)))"

definition animate_gameover :: "rat \<Rightarrow> board \<Rightarrow> (bool \<times> board) py" where
  "animate_gameover dt_ms b =
     (let b = b\<lparr>anim_elapsed_ms := anim_elapsed_ms b + dt_ms\<rparr>
      in if 100 < anim_elapsed_ms b then
           let b = b\<lparr>anim_elapsed_ms := anim_elapsed_ms b - 100\<rparr> in
           py_bind (py_for (grey_cell (anim_target_line b)) [0..BOARD_COLS - 1] (True, grid b))
             (\<lambda>(done_flag, g). Inr (done_flag,
                b\<lparr>grid := g, anim_target_line := anim_target_line b - 1\<rparr>))
         else Inr (False, b))"

subsection \<open>Fixing, clearing and adding lines\<close>

definition fix_piece :: "int \<Rightarrow> int \<Rightarrow> board \<Rightarrow> board py" where
  "fix_piece fix_x fix_y b = (case current_tetromino b of
     None \<Rightarrow> Inr b
   | Some t \<Rightarrow>
       let t = t\<lparr>tet_x := fix_x, tet_y := fix_y\<rparr> in
       py_bind (blocks t) (\<lambda>bs.
       py_bind (py_for (\<lambda>(x, y). grid_set y x (Some (shape_key t))) bs (grid b)) (\<lambda>g.
         Inr (b\<lparr>grid := g, current_tetromino := None\<rparr>))))"

definition clear_lines :: "int \<Rightarrow> board \<Rightarrow> board py" where
  "clear_lines row_index b =
     py_bind (py_del (grid b) row_index) (\<lambda>g. Inr (b\<lparr>grid := blank_row # g\<rparr>))"

definition animate_combo :: "int \<Rightarrow> int \<Rightarrow> board \<Rightarrow> board py" where
  "animate_combo row_index combo b =
     py_bind (ComboAnimation combo (rect_x (full_grid_rect b))
               (rect_y (full_grid_rect b) + cell_length b * row_index))
       (\<lambda>a. Inr (b\<lparr>combo_effects := combo_effects b @ [a]\<rparr>))"

definition add_line :: "int \<Rightarrow> board \<Rightarrow> board py" where
  "add_line hole_x b =
     py_bind (py_set (replicate (nat BOARD_COLS) (Some KG)) hole_x None) (\<lambda>new_line.
     py_bind (py_del (grid b @ [new_line]) 0) (\<lambda>g. Inr (b\<lparr>grid := g\<rparr>)))"

subsection \<open>Moving the current piece\<close>

definition move :: "int \<Rightarrow> int \<Rightarrow> board \<Rightarrow> board" where
  "move dx dy b = (case current_tetromino b of
     None \<Rightarrow> b
   | Some t \<Rightarrow> b\<lparr>current_tetromino := Some (t\<lparr>tet_x := tet_x t + dx, tet_y := tet_y t + dy\<rparr>)\<rparr>)"

definition rotate :: "int \<Rightarrow> board \<Rightarrow> board py" where
  "rotate delta b = (case current_tetromino b of
     None \<Rightarrow> Inr b
   | Some t \<Rightarrow> py_bind (rotated delta t) (\<lambda>t. Inr (b\<lparr>current_tetromino := Some t\<rparr>)))"

definition handle_move :: "int \<Rightarrow> board \<Rightarrow> board py" where
  "handle_move move_type b =
     (if current_tetromino b = None then Inr b
      else if move_type = move_code LEFT then Inr (move (-1) 0 b)
      else if move_type = move_code RIGHT then Inr (move 1 0 b)
      else if move_type = move_code DOWN then Inr (move 0 1 b)
      else if move_type = move_code ROTATE then rotate 1 b
      else if move_type = move_code UP then Inr (move 0 (-1) b)
      else Inr b)"

fun all_free :: "grid \<Rightarrow> cells \<Rightarrow> bool py" where
  "all_free g [] = Inr True"
| "all_free g ((x, y) # bs) =
     (if x < 0 \<or> BOARD_COLS \<le> x \<or> y < 0 \<or> BOARD_ROWS \<le> y then Inr False
      else py_bind (grid_get g y x) (\<lambda>v. if v \<noteq> None then Inr False else all_free g bs))"

lemma all_free_bound:
  "all_free g bs = Inr True \<Longrightarrow> (x, y) \<in> set bs \<Longrightarrow> 0 \<le> x \<and> x < BOARD_COLS \<and> 0 \<le> y \<and> y < BOARD_ROWS"
  by (induction g bs rule: all_free.induct) (auto simp: py_bind_eq_Inr split: if_splits)

function landing_from :: "grid \<Rightarrow> tetromino \<Rightarrow> tetromino py" where
  "landing_from g landing =
     (let moved = landing\<lparr>tet_y := tet_y landing + 1\<rparr> in
      py_bind (blocks moved) (\<lambda>bs. py_bind (all_free g bs) (\<lambda>free.
        if free then landing_from g moved else Inr landing)))"
  by pat_completeness auto
termination
proof (relation "measure (\<lambda>(g, t). nat (BOARD_ROWS - tet_y t))", goal_cases)
  case 1
  then show ?case by simp
next
  case (2 g t m bs free)
  from blocks_not_above [OF 2(2)] all_free_bound 2(3,4)
  have "tet_y m < BOARD_ROWS" by fastforce
  with 2(1) show ?case by simp
qed

definition make_landing_tetromino :: "board \<Rightarrow> tetromino option py" where
  "make_landing_tetromino b = (case current_tetromino b of
     None \<Rightarrow> Inr None
   | Some t \<Rightarrow> py_bind (landing_from (grid b) t) (\<lambda>l. Inr (Some l)))"

definition board_update :: "rat \<Rightarrow> board \<Rightarrow> board" where
  "board_update dt_ms b =
     b\<lparr>combo_effects := filter active (map (combo_update dt_ms) (combo_effects b))\<rparr>"


subsection \<open>Well-formed grids and cell access\<close>

definition wf_grid :: "grid \<Rightarrow> bool" where
  "wf_grid g \<longleftrightarrow> length g = 25 \<and> list_all (\<lambda>row. length row = 10) g"

abbreviation cell_at :: "grid \<Rightarrow> nat \<Rightarrow> nat \<Rightarrow> cell" where
  "cell_at g i j \<equiv> g ! i ! j"

named_theorems wf_intros \<open>operations keep well-formedness\<close>

lemma wf_grid_length [simp]: "wf_grid g \<Longrightarrow> length g = 25"
  unfolding wf_grid_def by blast

lemma wf_grid_row [simp]: "wf_grid g \<Longrightarrow> i < 25 \<Longrightarrow> length (g ! i) = 10"
  unfolding wf_grid_def list_all_iff by (metis nth_mem)

lemma wf_grid_mem: "wf_grid g \<Longrightarrow> row \<in> set g \<Longrightarrow> length row = 10"
  by (simp add: wf_grid_def list_all_iff)

lemma length_blank_row [simp]: "length blank_row = 10"
  by (simp add: blank_row_def board_consts)

lemma wf_blank_grid [simp]: "wf_grid blank_grid"
  by (simp add: wf_grid_def blank_grid_def board_consts list_all_iff)

lemma blank_grid_cell [simp]: "i < 25 \<Longrightarrow> j < 10 \<Longrightarrow> cell_at blank_grid i j = None"
  by (simp add: blank_grid_def blank_row_def board_consts)

lemma grid_eqI:
  assumes "wf_grid g" "wf_grid g'"
    and "\<And>i j. i < 25 \<Longrightarrow> j < 10 \<Longrightarrow> cell_at g i j = cell_at g' i j"
  shows "g = g'"
proof (rule nth_equalityI)
  show "length g = length g'" using assms(1,2) by simp
next
  fix i assume "i < length g"
  then show "g ! i = g' ! i" using assms by (intro nth_equalityI) simp_all
qed

lemma wf_grid_update: "wf_grid g \<Longrightarrow> length row = 10 \<Longrightarrow> wf_grid (g[i := row])"
  by (auto simp: wf_grid_def list_all_iff dest: set_update_subset_insert [THEN subsetD])

lemma grid_get_Inr:
  "wf_grid g \<Longrightarrow> py_index 25 r = Some i \<Longrightarrow> py_index 10 c = Some j \<Longrightarrow> grid_get g r c = Inr (cell_at g i j)"
  by (auto simp: grid_get_def py_get_def dest: py_index_SomeD)

lemma grid_set_Inr:
  assumes "wf_grid g" "py_index 25 r = Some i" "py_index 10 c = Some j"
  shows "grid_set r c v g = Inr (g[i := (g ! i)[j := v]])"
  using assms py_index_SomeD [OF assms(2)]
  by (auto simp: grid_set_def py_get_def py_set_def)

lemma grid_set_cell:
  "wf_grid g \<Longrightarrow> i < 25 \<Longrightarrow> j < 10 \<Longrightarrow> i' < 25 \<Longrightarrow> j' < 10 \<Longrightarrow>
   cell_at (g[i := (g ! i)[j := v]]) i' j' = (if i' = i \<and> j' = j then v else cell_at g i' j')"
  by (auto simp: nth_list_update)

lemma grid_set_spec:
  assumes "wf_grid g" "py_index 25 r = Some i" "py_index 10 c = Some j"
  shows "\<exists>g'. grid_set r c v g = Inr g' \<and> wf_grid g' \<and>
    (\<forall>i'<25. \<forall>j'<10. cell_at g' i' j' = (if i' = i \<and> j' = j then v else cell_at g i' j'))"
  using assms py_index_SomeD [OF assms(2)] py_index_SomeD [OF assms(3)]
  by (simp add: grid_set_Inr grid_set_cell wf_grid_update)

lemma grid_set_wf [wf_intros]:
  assumes "grid_set r c v g = Inr g'" "wf_grid g"
  shows "wf_grid g'"
proof -
  from assms(1) obtain row row' where *: "py_get g r = Inr row" "py_set row c v = Inr row'"
    "py_set g r row' = Inr g'" by (auto simp: grid_set_def py_bind_eq_Inr)
  then have "length row' = 10"
    using assms(2) by (auto dest!: py_get_InrD py_set_length wf_grid_mem)
  moreover have "set g' \<subseteq> insert row' (set g)" "length g' = length g"
    using *(3) by (simp_all add: py_set_subset py_set_length)
  ultimately show ?thesis
    using assms(2) by (auto simp: wf_grid_def list_all_iff)
qed

lemma clear_board_spec:
  assumes "wf_grid (grid b)"
  shows "clear_board b = Inr (b\<lparr>grid := blank_grid\<rparr>)"
proof -
  define P where "P r g \<longleftrightarrow> wf_grid g \<and> (\<forall>i<25. \<forall>j<10. int i < r \<longrightarrow> cell_at g i j = None)" for r g
  have row: "\<exists>g'. py_for (\<lambda>c. grid_set r c None) [0..10 - 1] g = Inr g' \<and>
      wf_grid g' \<and> (\<forall>i<25. \<forall>j<10. cell_at g' i j = (if i = nat r \<and> int j < 10 then None else cell_at g i j))"
    if r: "0 \<le> r" "r < 25" and "wf_grid g" for r g
  proof (rule py_for_range [where P = "\<lambda>c g'. wf_grid g' \<and>
      (\<forall>i<25. \<forall>j<10. cell_at g' i j = (if i = nat r \<and> int j < c then None else cell_at g i j))"])
    fix c g' assume c: "0 \<le> (c :: int)" "c < 10" and "wf_grid g' \<and>
      (\<forall>i<25. \<forall>j<10. cell_at g' i j = (if i = nat r \<and> int j < c then None else cell_at g i j))"
    moreover from this r have "\<exists>g''. grid_set r c None g' = Inr g'' \<and> wf_grid g'' \<and>
      (\<forall>i<25. \<forall>j<10. cell_at g'' i j = (if i = nat r \<and> j = nat c then None else cell_at g' i j))"
      by (intro grid_set_spec) (simp_all add: py_index_def)
    ultimately show "\<exists>g''. grid_set r c None g' = Inr g'' \<and> wf_grid g'' \<and>
      (\<forall>i<25. \<forall>j<10. cell_at g'' i j = (if i = nat r \<and> int j < c + 1 then None else cell_at g i j))"
      by (elim exE, intro exI) auto
  qed (use that in auto)
  have "\<exists>g. py_for (\<lambda>r. py_for (\<lambda>c. grid_set r c None) [0..10 - 1]) [0..25 - 1] (grid b) = Inr g \<and> P 25 g"
  proof (rule py_for_range [where P = P])
    fix r g assume r: "0 \<le> (r :: int)" "r < 25" "P r g"
    with row [of r g] obtain g' where g': "py_for (\<lambda>c. grid_set r c None) [0..10 - 1] g = Inr g'" "wf_grid g'"
      "\<And>i j. i < 25 \<Longrightarrow> j < 10 \<Longrightarrow> cell_at g' i j = (if i = nat r \<and> int j < 10 then None else cell_at g i j)"
      by (auto simp: P_def)
    have "P (r + 1) g'" unfolding P_def
      using g'(2,3) r by (auto simp: P_def)
    with g'(1) show "\<exists>g'. py_for (\<lambda>c. grid_set r c None) [0..10 - 1] g = Inr g' \<and> P (r + 1) g'" by blast
  qed (use assms in \<open>simp_all add: P_def\<close>)
  then obtain g where "py_for (\<lambda>r. py_for (\<lambda>c. grid_set r c None) [0..10 - 1]) [0..25 - 1] (grid b) = Inr g"
    and "P 25 g" by blast
  moreover from this(2) have "g = blank_grid" by (intro grid_eqI) (auto simp: P_def)
  ultimately show ?thesis by (simp add: clear_board_def board_consts)
qed

lemma board_reset_spec:
  "wf_grid (grid b) \<Longrightarrow> board_reset b = Inr (b\<lparr>grid := blank_grid, current_tetromino := None,
     next_tetromino_shape := None, combo_effects := [], anim_elapsed_ms := 0, anim_target_line := 24\<rparr>)"
  by (simp add: board_reset_def clear_board_spec board_consts)

lemma board_clear_eq_reset: "board_clear b = board_reset b"
  by (simp add: board_clear_def board_reset_def)

lemma board_init_spec:
  "wf_grid (grid b) \<Longrightarrow> board_init b = Inr (b\<lparr>grid := blank_grid, current_tetromino := None,
     next_tetromino_shape := None\<rparr>)"
  by (simp add: board_init_def clear_board_spec)

subsection \<open>Fixing a piece\<close>

definition in_board :: "int \<times> int \<Rightarrow> bool" where
  "in_board = (\<lambda>(x, y). 0 \<le> x \<and> x < 10 \<and> 0 \<le> y \<and> y < 25)"

lemma in_board_iff [simp]: "in_board (x, y) \<longleftrightarrow> 0 \<le> x \<and> x < 10 \<and> 0 \<le> y \<and> y < 25"
  by (simp add: in_board_def)

lemma put_cells_spec:
  assumes "wf_grid g" and "\<And>p. p \<in> set bs \<Longrightarrow> in_board p"
  shows "\<exists>g'. py_for (\<lambda>(x, y). grid_set y x v) bs g = Inr g' \<and> wf_grid g' \<and>
    (\<forall>i<25. \<forall>j<10. cell_at g' i j = (if (int j, int i) \<in> set bs then v else cell_at g i j))"
  using assms
proof (induction bs arbitrary: g)
  case Nil
  then show ?case by simp
next
  case (Cons p bs)
  obtain x y where p: "p = (x, y)" by fastforce
  with Cons.prems(2) have xy: "0 \<le> x" "x < 10" "0 \<le> y" "y < 25" by force+
  then have "py_index 25 y = Some (nat y)" "py_index 10 x = Some (nat x)"
    by (simp_all add: py_index_nonneg)
  from grid_set_spec [OF Cons.prems(1) this] obtain g1 where
    g1: "grid_set y x v g = Inr g1" "wf_grid g1"
      "\<And>i j. i < 25 \<Longrightarrow> j < 10 \<Longrightarrow> cell_at g1 i j = (if i = nat y \<and> j = nat x then v else cell_at g i j)"
    by blast
  from Cons.IH [OF g1(2)] Cons.prems(2) obtain g2 where
    g2: "py_for (\<lambda>(x, y). grid_set y x v) bs g1 = Inr g2" "wf_grid g2"
      "\<And>i j. i < 25 \<Longrightarrow> j < 10 \<Longrightarrow> cell_at g2 i j = (if (int j, int i) \<in> set bs then v else cell_at g1 i j)"
    by auto
  have "cell_at g2 i j = (if (int j, int i) \<in> set (p # bs) then v else cell_at g i j)"
    if "i < 25" "j < 10" for i j
    using g2(3) [OF that] g1(3) [OF that] xy by (auto simp: p)
  with g1(1) g2(1,2) show ?case by (intro exI [of _ g2]) (auto simp: p)
qed

lemma fix_piece_wf [wf_intros]:
  assumes "fix_piece x y b = Inr b'" "wf_grid (grid b)"
  shows "wf_grid (grid b')"
proof (cases "current_tetromino b")
  case None
  with assms show ?thesis by (simp add: fix_piece_def)
next
  case (Some t)
  with assms(1) obtain bs g where "py_for (\<lambda>(x, y). grid_set y x (Some (shape_key t))) bs (grid b) = Inr g"
    and "grid b' = g" by (auto simp: fix_piece_def Let_def py_bind_eq_Inr)
  with assms(2) show ?thesis
    by (auto elim!: py_for_invariant [where P = wf_grid] intro: grid_set_wf)
qed

lemma fix_piece_spec:
  assumes "wf_grid (grid b)" "current_tetromino b = Some t"
    and "blocks (t\<lparr>tet_x := x, tet_y := y\<rparr>) = Inr bs" "\<And>p. p \<in> set bs \<Longrightarrow> in_board p"
  shows "\<exists>g. fix_piece x y b = Inr (b\<lparr>grid := g, current_tetromino := None\<rparr>) \<and> wf_grid g \<and>
    (\<forall>i<25. \<forall>j<10. cell_at g i j =
       (if (int j, int i) \<in> set bs then Some (shape_key t) else cell_at (grid b) i j))"
  using put_cells_spec [OF assms(1), of bs "Some (shape_key t)"] assms
  by (auto simp: fix_piece_def Let_def)

subsection \<open>Clearing and adding lines\<close>

lemma wf_grid_del:
  assumes "py_del g i = Inr g'" "length g = Suc 24 + k" "list_all (\<lambda>row. length row = 10) g"
  shows "length g' = 24 + k \<and> list_all (\<lambda>row. length row = 10) g'"
  using py_del_length [OF assms(1)] py_del_subset [OF assms(1)] assms(2,3)
  by (auto simp: list_all_iff)

lemma clear_lines_wf [wf_intros]:
  assumes "clear_lines r b = Inr b'" "wf_grid (grid b)"
  shows "wf_grid (grid b')"
proof -
  from assms(1) obtain g where g: "py_del (grid b) r = Inr g" "b' = b\<lparr>grid := blank_row # g\<rparr>"
    by (auto simp: clear_lines_def py_bind_eq_Inr)
  from wf_grid_del [OF g(1), of 0] g(2) assms(2) show ?thesis by (simp add: wf_grid_def)
qed

lemma clear_lines_spec:
  assumes "wf_grid (grid b)" "0 \<le> r" "r < 25"
  shows "\<exists>g. clear_lines r b = Inr (b\<lparr>grid := g\<rparr>) \<and> wf_grid g \<and>
    (\<forall>i<25. g ! i = (if i = 0 then blank_row
       else if int i \<le> r then grid b ! (i - 1) else grid b ! i))"
proof -
  let ?g = "blank_row # take (nat r) (grid b) @ drop (Suc (nat r)) (grid b)"
  have c: "clear_lines r b = Inr (b\<lparr>grid := ?g\<rparr>)"
    using assms by (simp add: clear_lines_def py_del_nonneg)
  from clear_lines_wf [OF c] assms(1) have "wf_grid ?g" by simp
  moreover have "?g ! i = (if i = 0 then blank_row
       else if int i \<le> r then grid b ! (i - 1) else grid b ! i)" if "i < 25" for i
    using that assms nth_take_drop_Suc [of "nat r" "grid b" "i - 1"]
    by (cases i) (auto simp: nat_less_iff zless_nat_eq_int_zless)
  ultimately show ?thesis using c by blast
qed

lemma add_line_wf [wf_intros]:
  assumes "add_line h b = Inr b'" "wf_grid (grid b)"
  shows "wf_grid (grid b')"
proof -
  from assms(1) obtain line g where g: "py_set (replicate 10 (Some KG)) h None = Inr line"
    "py_del (grid b @ [line]) 0 = Inr g" "b' = b\<lparr>grid := g\<rparr>"
    by (auto simp: add_line_def py_bind_eq_Inr board_consts)
  from wf_grid_del [OF g(2), of 1] py_set_length [OF g(1)] g(3) assms(2) show ?thesis
    by (simp add: wf_grid_def)
qed

lemma add_line_spec:
  assumes "wf_grid (grid b)" "0 \<le> h" "h < 10"
  shows "\<exists>g. add_line h b = Inr (b\<lparr>grid := g\<rparr>) \<and> wf_grid g \<and>
    (\<forall>i<24. g ! i = grid b ! Suc i) \<and> (\<forall>j<10. cell_at g 24 j = (if int j = h then None else Some KG))"
proof -
  let ?line = "(replicate 10 (Some KG))[nat h := None]"
  let ?g = "drop 1 (grid b @ [?line])"
  have a: "add_line h b = Inr (b\<lparr>grid := ?g\<rparr>)"
    using assms by (simp add: add_line_def py_set_nonneg py_del_nonneg board_consts)
  from add_line_wf [OF a] assms(1) have "wf_grid ?g" by simp
  moreover have "?g ! i = grid b ! Suc i" if "i < 24" for i
    using that assms(1) by (simp add: nth_append)
  moreover have "?g ! 24 ! j = (if int j = h then None else Some KG)" if "j < 10" for j
    using that assms by (auto simp: nth_append nth_list_update)
  ultimately show ?thesis using a by blast
qed

subsection \<open>Landing position\<close>

definition fits :: "grid \<Rightarrow> tetromino \<Rightarrow> bool" where
  "fits g t \<longleftrightarrow> (case blocks t of Inl _ \<Rightarrow> False
     | Inr bs \<Rightarrow> list_all (\<lambda>(x, y). in_board (x, y) \<and> cell_at g (nat y) (nat x) = None) bs)"

lemma all_free_spec:
  "wf_grid g \<Longrightarrow> all_free g bs =
     Inr (list_all (\<lambda>(x, y). in_board (x, y) \<and> cell_at g (nat y) (nat x) = None) bs)"
  by (induction g bs rule: all_free.induct)
     (auto simp: board_consts grid_get_Inr py_index_nonneg)

declare landing_from.simps [simp del]

lemma landing_from_spec:
  assumes "wf_grid g" "wf_tetromino t"
  shows "\<exists>n. landing_from g t = Inr (t\<lparr>tet_y := tet_y t + int n\<rparr>) \<and>
    (\<forall>k. 0 < k \<and> k \<le> n \<longrightarrow> fits g (t\<lparr>tet_y := tet_y t + int k\<rparr>)) \<and>
    \<not> fits g (t\<lparr>tet_y := tet_y t + int n + 1\<rparr>)"
  using assms
proof (induction g t rule: landing_from.induct)
  case (1 g t)
  let ?m = "t\<lparr>tet_y := tet_y t + 1\<rparr>"
  obtain bs where bs: "blocks ?m = Inr bs"
    using blocks_Inr [of ?m] 1(3) by auto
  note free = all_free_spec [OF 1(2), of bs]
  show ?case
  proof (cases "fits g ?m")
    case True
    with bs free have "all_free g bs = Inr True" by (simp add: fits_def)
    with 1(1) [OF refl bs this] 1(2,3) obtain n where
      n: "landing_from g ?m = Inr (?m\<lparr>tet_y := tet_y ?m + int n\<rparr>)"
        "\<And>k. 0 < k \<and> k \<le> n \<Longrightarrow> fits g (?m\<lparr>tet_y := tet_y ?m + int k\<rparr>)"
        "\<not> fits g (?m\<lparr>tet_y := tet_y ?m + int n + 1\<rparr>)" by auto
    have "fits g (t\<lparr>tet_y := tet_y t + int k\<rparr>)" if k: "0 < k" "k \<le> Suc n" for k
    proof (cases "k = 1")
      case True
      with \<open>fits g ?m\<close> show ?thesis by simp
    next
      case False
      with k n(2) [of "k - 1"] show ?thesis by (simp add: of_nat_diff)
    qed
    moreover have "landing_from g t = landing_from g ?m"
      using bs \<open>all_free g bs = Inr True\<close> by (subst landing_from.simps) simp
    ultimately show ?thesis using n(1,3) by (intro exI [of _ "Suc n"]) (simp add: add.commute add.left_commute)
  next
    case False
    with bs free have "all_free g bs = Inr False" by (simp add: fits_def)
    then have "landing_from g t = Inr t"
      using bs by (subst landing_from.simps) simp
    with False show ?thesis by (intro exI [of _ 0]) simp
  qed
qed

subsection \<open>Game-over animation\<close>

declare find_line.simps [simp del]

definition colour_row :: "grid \<Rightarrow> nat \<Rightarrow> bool" where
  "colour_row g i \<longleftrightarrow> list_ex (\<lambda>v. v \<noteq> None \<and> v \<noteq> Some KG) (g ! i)"

definition blank_at :: "grid \<Rightarrow> nat \<Rightarrow> bool" where
  "blank_at g i \<longleftrightarrow> list_all (\<lambda>v. v = None) (g ! i)"

definition grey :: "cell \<Rightarrow> cell" where
  "grey v = (if v = None then None else Some KG)"

definition grey_row :: "nat \<Rightarrow> grid \<Rightarrow> grid" where
  "grey_row i g = g[i := map grey (g ! i)]"

lemma has_colour_spec:
  "length row = 10 \<Longrightarrow> (\<And>y. y \<in> set ys \<Longrightarrow> 0 \<le> y \<and> y < 10) \<Longrightarrow>
   has_colour row ys = Inr (\<exists>y \<in> set ys. row ! nat y \<noteq> None \<and> row ! nat y \<noteq> Some KG)"
  by (induction ys) (auto simp: py_get_nonneg)

lemma has_colour_row:
  assumes "wf_grid g" "i < 25"
  shows "has_colour (g ! i) [0..9] = Inr (colour_row g i)"
proof -
  have "(\<exists>y \<in> {0..9}. g ! i ! nat y \<noteq> None \<and> g ! i ! nat y \<noteq> Some KG) \<longleftrightarrow> colour_row g i"
    (is "?l \<longleftrightarrow> _")
  proof
    assume ?l
    then obtain y where "0 \<le> y" "y \<le> 9" "g ! i ! nat y \<noteq> None \<and> g ! i ! nat y \<noteq> Some KG" by auto
    then show "colour_row g i"
      using assms by (auto simp: colour_row_def list_ex_length intro!: exI [of _ "nat y"])
  next
    assume "colour_row g i"
    then obtain j where "j < 10" "g ! i ! j \<noteq> None \<and> g ! i ! j \<noteq> Some KG"
      using assms by (auto simp: colour_row_def list_ex_length)
    then show ?l by (intro bexI [of _ "int j"]) auto
  qed
  with assms show ?thesis by (subst has_colour_spec) auto
qed

lemma find_line_spec:
  assumes "wf_grid g" "0 \<le> l" "l < 25"
  shows "\<exists>l'. find_line g l = Inr l' \<and> 0 \<le> l' \<and> l' \<le> l \<and> (l' = 0 \<or> colour_row g (nat l')) \<and>
    (\<forall>k. l' < k \<and> k \<le> l \<longrightarrow> \<not> colour_row g (nat k))"
  using assms
proof (induction g l rule: find_line.induct)
  case (1 g l)
  from 1(2-4) have row: "py_get g l = Inr (g ! nat l)"
    "has_colour (g ! nat l) [0..BOARD_COLS - 1] = Inr (colour_row g (nat l))"
    by (simp_all add: py_get_nonneg has_colour_row board_consts)
  show ?case
  proof (cases "colour_row g (nat l) \<or> l = 0")
    case True
    with row 1(3) have "find_line g l = Inr l" by (subst find_line.simps) auto
    with True 1(3) show ?thesis by auto
  next
    case False
    with 1(3) have less: "0 < l" by simp
    with False row have f: "find_line g l = find_line g (l - 1)"
      by (subst find_line.simps) simp
    from 1(1) [OF row _ less] False less 1(2,4) obtain l' where
      "find_line g (l - 1) = Inr l'" "0 \<le> l'" "l' \<le> l - 1" "l' = 0 \<or> colour_row g (nat l')"
      "\<And>k. l' < k \<and> k \<le> l - 1 \<Longrightarrow> \<not> colour_row g (nat k)" by auto
    moreover from this(5) False have "\<not> colour_row g (nat k)" if "l' < k" "k \<le> l" for k
      using that by (cases "k = l") auto
    ultimately show ?thesis using f by auto
  qed
qed

lemma grey_row_cell:
  "wf_grid g \<Longrightarrow> i < 25 \<Longrightarrow> i' < 25 \<Longrightarrow> j < 10 \<Longrightarrow>
   cell_at (grey_row i g) i' j = (if i' = i then grey (cell_at g i j) else cell_at g i' j)"
  by (auto simp: grey_row_def nth_list_update)

lemma wf_grey_row [wf_intros]: "wf_grid g \<Longrightarrow> i < 25 \<Longrightarrow> wf_grid (grey_row i g)"
  by (simp add: grey_row_def wf_grid_update)

lemma grey_loop:
  assumes g: "wf_grid g" and i: "py_index 25 line = Some i"
  shows "py_for (grey_cell line) [0..9] (True, g) = Inr (blank_at g i, grey_row i g)"
proof -
  from py_index_SomeD [OF i] have i25: "i < 25" by simp
  define P where "P y = (\<lambda>(d, g'). wf_grid g' \<and>
    (d \<longleftrightarrow> (\<forall>j<10. int j < y \<longrightarrow> cell_at g i j = None)) \<and>
    (\<forall>i'<25. \<forall>j<10. cell_at g' i' j =
       (if i' = i \<and> int j < y then grey (cell_at g i j) else cell_at g i' j)))" for y :: int
  have "\<exists>s. py_for (grey_cell line) [0..10 - 1] (True, g) = Inr s \<and> P 10 s"
  proof (rule py_for_range [where P = P])
    fix y s assume y: "0 \<le> y" "y < (10::int)" and "P y s"
    obtain d g' where s: "s = (d, g')" by fastforce
    with \<open>P y s\<close> have wf: "wf_grid g'" and d: "d \<longleftrightarrow> (\<forall>j<10. int j < y \<longrightarrow> cell_at g i j = None)"
      and cells: "\<And>i' j. i' < 25 \<Longrightarrow> j < 10 \<Longrightarrow> cell_at g' i' j =
       (if i' = i \<and> int j < y then grey (cell_at g i j) else cell_at g i' j)"
      by (auto simp: P_def)
    from y have idx: "py_index 10 y = Some (nat y)" by (simp add: py_index_nonneg)
    have cur: "cell_at g' i (nat y) = cell_at g i (nat y)" using cells [of i "nat y"] i25 y by simp
    from y have y10: "nat y < 10" by simp
    have upto_y: "int j < y + 1 \<longleftrightarrow> int j < y \<or> j = nat y" for j using y by auto
    have next_d: "(\<forall>j<10. int j < y + 1 \<longrightarrow> cell_at g i j = None) \<longleftrightarrow> d \<and> cell_at g i (nat y) = None"
      unfolding d upto_y using y10 by auto
    note get = grid_get_Inr [OF wf i idx]
    show "\<exists>s'. grey_cell line y s = Inr s' \<and> P (y + 1) s'"
    proof (cases "cell_at g i (nat y) = None")
      case True
      have "P (y + 1) (d, g')" unfolding P_def prod.case next_d
        using wf cells True y by (auto simp: grey_def zless_add1_eq nat_eq_iff)
      with True get cur s show ?thesis by (simp add: grey_cell_def)
    next
      case False
      from grid_set_spec [OF wf i idx, of "Some KG"] obtain g'' where
        g'': "grid_set line y (Some KG) g' = Inr g''" "wf_grid g''"
        "\<And>i' j'. i' < 25 \<Longrightarrow> j' < 10 \<Longrightarrow> cell_at g'' i' j' =
          (if i' = i \<and> j' = nat y then Some KG else cell_at g' i' j')" by blast
      have "P (y + 1) (False, g'')" unfolding P_def prod.case next_d
        using g''(2,3) cells False y by (auto simp: grey_def zless_add1_eq nat_eq_iff)
      with False get cur s g''(1) show ?thesis by (simp add: grey_cell_def)
    qed
  qed (use g in \<open>simp_all add: P_def\<close>)
  then obtain d g' where r: "py_for (grey_cell line) [0..9] (True, g) = Inr (d, g')" and "P 10 (d, g')"
    by auto
  then have "wf_grid g'" "d \<longleftrightarrow> (\<forall>j<10. cell_at g i j = None)"
    and "\<And>i' j. i' < 25 \<Longrightarrow> j < 10 \<Longrightarrow> cell_at g' i' j =
       (if i' = i then grey (cell_at g i j) else cell_at g i' j)" by (auto simp: P_def)
  then have "g' = grey_row i g" "d = blank_at g i"
    using g i25 by (auto intro!: grid_eqI wf_grey_row simp: grey_row_cell blank_at_def list_all_length)
  with r show ?thesis by simp
qed

lemma animate_gameover_step:
  assumes "wf_grid (grid b)" "py_index 25 (anim_target_line b) = Some i" "100 < anim_elapsed_ms b + dt"
  shows "animate_gameover dt b = Inr (blank_at (grid b) i,
    b\<lparr>grid := grey_row i (grid b), anim_elapsed_ms := anim_elapsed_ms b + dt - 100,
      anim_target_line := anim_target_line b - 1\<rparr>)"
  using assms grey_loop [OF assms(1,2)]
  by (simp add: animate_gameover_def Let_def board_consts)

lemma animate_gameover_wait:
  "anim_elapsed_ms b + dt \<le> 100 \<Longrightarrow>
   animate_gameover dt b = Inr (False, b\<lparr>anim_elapsed_ms := anim_elapsed_ms b + dt\<rparr>)"
  by (simp add: animate_gameover_def Let_def)

lemma animate_gameover_raises:
  assumes "wf_grid (grid b)" "py_index 25 (anim_target_line b) = None" "100 < anim_elapsed_ms b + dt"
  shows "animate_gameover dt b = Inl IndexError"
proof -
  have "[0..9] = 0 # [1..9::int]" by (simp add: upto.simps)
  with assms show ?thesis
    by (simp add: animate_gameover_def Let_def board_consts grey_cell_def grid_get_def py_get_def)
qed

lemma animate_gameover_wf [wf_intros]:
  assumes "animate_gameover dt b = Inr (d, b')" "wf_grid (grid b)"
  shows "wf_grid (grid b')"
proof (cases "100 < anim_elapsed_ms b + dt")
  case True
  then obtain i where "py_index 25 (anim_target_line b) = Some i"
    using assms animate_gameover_raises [OF assms(2) _ True] by fastforce
  with animate_gameover_step [OF assms(2) this True] assms py_index_SomeD [OF this] show ?thesis
    by (auto intro: wf_grey_row)
next
  case False
  with assms show ?thesis by (auto simp: animate_gameover_wait)
qed

subsection \<open>Properties\<close>

lemma sum_list_nonneg_step: "(\<And>d. d \<in> set ds \<Longrightarrow> 0 \<le> d) \<Longrightarrow> 0 \<le> (sum_list ds :: rat)"
  by (induction ds) auto

lemma combo_update_inactive: "\<not> active a \<Longrightarrow> fold combo_update ds a = a"
  by (induction ds arbitrary: a) (auto simp: combo_update_def)

lemma combo_updates_active:
  assumes "active a" "elapsed_time a < animation_time a" "\<And>d. d \<in> set ds \<Longrightarrow> 0 \<le> d"
  shows "active (fold combo_update ds a) \<longleftrightarrow> elapsed_time a + sum_list ds < animation_time a"
  using assms
proof (induction ds arbitrary: a)
  case Nil
  then show ?case by simp
next
  case (Cons d ds)
  let ?a = "combo_update d a"
  have nn: "0 \<le> sum_list ds" using Cons.prems(3) by (intro sum_list_nonneg_step) auto
  show ?case
  proof (cases "elapsed_time a + d < animation_time a")
    case True
    with Cons.prems(1) have "active ?a" "elapsed_time ?a = elapsed_time a + d" "animation_time ?a = animation_time a"
      by (simp_all add: combo_update_def Let_def)
    with True Cons.IH [of ?a] Cons.prems(3) show ?thesis by (simp add: add.assoc)
  next
    case False
    with Cons.prems(1) have "\<not> active ?a" by (simp add: combo_update_def Let_def)
    with False nn show ?thesis by (simp add: combo_update_inactive)
  qed
qed

text \<open>
  A combo animation is always built (the colour chain covers every combo count, negative ones
  included), its transparency stays within 0 and 255, and under frames of non-negative length it
  is kept by \<open>update\<close> exactly as long as less than 1000 ms have passed.
\<close>

theorem combo_animation_lifetime:
  assumes "\<And>d. d \<in> set ds \<Longrightarrow> 0 \<le> d"
  shows "\<exists>a. ComboAnimation combo x y = Inr a \<and>
    (active (fold combo_update ds a) \<longleftrightarrow> sum_list ds < 1000) \<and>
    0 \<le> get_alpha (fold combo_update ds a) \<and> get_alpha (fold combo_update ds a) \<le> 255"
proof -
  obtain col where "combo_color combo = Inr col" using combo_color_Inr by blast
  then obtain a where a: "ComboAnimation combo x y = Inr a"
    "active a" "elapsed_time a = 0" "animation_time a = 1000"
    by (simp add: ComboAnimation_def)
  with combo_updates_active [of a ds] assms show ?thesis by (auto simp: get_alpha_range)
qed

theorem combo_animation_lifetime_witness:
  "\<exists>a. ComboAnimation 7 3 4 = Inr a \<and> \<not> active (fold combo_update [400, 600] a)"
proof -
  have "0 \<le> d" if "d \<in> set [400, 600 :: rat]" for d using that by auto
  from combo_animation_lifetime [OF this, of "[400, 600]" 7 3 4] show ?thesis by force
qed

text \<open>
  The layout puts the board and the preview inside the rectangle it is given: a cell has
  the largest side such that 15 columns and 25 rows fit, the preview starts where the grid ends,
  and the visible grid is the full grid without its five hidden rows.
\<close>

theorem set_layout_fits:
  assumes "0 \<le> rect_w r" "0 \<le> rect_h r"
  shows "let b = TetrisBoard r; f = full_grid_rect b; v = valid_grid_rect b; p = preview_rect b in
    rect_x f + rect_w f = rect_x p \<and> rect_x p + rect_w p \<le> rect_x r + rect_w r \<and>
    rect_y f + rect_h f \<le> rect_y r + rect_h r \<and>
    rect_y v = rect_y f + HIDDEN_ROWS * cell_length b \<and>
    rect_y v + rect_h v = rect_y f + rect_h f \<and>
    (15 * (cell_length b + 1) > rect_w r \<or> 25 * (cell_length b + 1) > rect_h r)"
proof -
  let ?c = "min (rect_w r div 15) (rect_h r div 25)"
  have "15 * ?c \<le> rect_w r" "25 * ?c \<le> rect_h r" by (simp_all add: min_def) linarith+
  moreover have "15 * (?c + 1) > rect_w r \<or> 25 * (?c + 1) > rect_h r"
    by (auto simp: min_def)
  ultimately show ?thesis
    by (simp add: TetrisBoard_def set_layout_def Let_def board_consts)
qed

theorem set_layout_fits_witness:
  "cell_length (TetrisBoard \<lparr>rect_x = 440, rect_y = 42, rect_w = 608, rect_h = 692\<rparr>) = 27"
proof -
  have "0 \<le> rect_w \<lparr>rect_x = 440, rect_y = 42, rect_w = 608, rect_h = 692\<rparr>"
    "0 \<le> rect_h \<lparr>rect_x = 440, rect_y = 42, rect_w = 608, rect_h = 692\<rparr>" by simp_all
  from set_layout_fits [OF this] show ?thesis
    by (simp add: TetrisBoard_def set_layout_def Let_def board_consts)
qed

text \<open>
  C6: the landing preview always terminates, and returns the current piece lowered by the
  largest number of rows it can fall: every position on the way fits in free cells of the board,
  the next one does not.
\<close>

theorem landing_is_lowest:
  assumes "wf_grid (grid b)" "current_tetromino b = Some t" "wf_tetromino t"
  shows "\<exists>n. make_landing_tetromino b = Inr (Some (t\<lparr>tet_y := tet_y t + int n\<rparr>)) \<and>
    (\<forall>k. 0 < k \<and> k \<le> n \<longrightarrow> fits (grid b) (t\<lparr>tet_y := tet_y t + int k\<rparr>)) \<and>
    \<not> fits (grid b) (t\<lparr>tet_y := tet_y t + int n + 1\<rparr>)"
  using landing_from_spec [OF assms(1,3)] assms(2)
  by (auto simp: make_landing_tetromino_def)

theorem landing_is_lowest_witness:
  "\<exists>n. make_landing_tetromino (TetrisBoard \<lparr>rect_x = 0, rect_y = 0, rect_w = 150, rect_h = 250\<rparr>
      \<lparr>current_tetromino := Some (Tetromino KT 3 0)\<rparr>) = Inr (Some (Tetromino KT 3 0\<lparr>tet_y := int n\<rparr>))"
proof -
  let ?b = "TetrisBoard \<lparr>rect_x = 0, rect_y = 0, rect_w = 150, rect_h = 250\<rparr>
      \<lparr>current_tetromino := Some (Tetromino KT 3 0)\<rparr>"
  have "wf_grid (grid ?b)" by (simp add: TetrisBoard_def set_layout_def Let_def)
  moreover have "current_tetromino ?b = Some (Tetromino KT 3 0)" by simp
  moreover have "wf_tetromino (Tetromino KT 3 0)" by (simp add: wf_Tetromino_iff)
  ultimately have "\<exists>n. make_landing_tetromino ?b =
      Inr (Some (Tetromino KT 3 0\<lparr>tet_y := tet_y (Tetromino KT 3 0) + int n\<rparr>))"
    using landing_is_lowest by blast
  then show ?thesis by (simp add: Tetromino_def)
qed

lemma grid_TetrisBoard [simp]: "grid (TetrisBoard r) = blank_grid"
  by (simp add: TetrisBoard_def set_layout_def Let_def)

text \<open>
  C4: fixing a piece where it fits writes its key into exactly its four cells, which were
  empty, leaves every other cell and field of the board alone, and takes the piece away.
\<close>

theorem fix_piece_places:
  assumes "wf_grid (grid b)" "current_tetromino b = Some t"
    and "fits (grid b) (t\<lparr>tet_x := x, tet_y := y\<rparr>)"
  shows "\<exists>bs g. blocks (t\<lparr>tet_x := x, tet_y := y\<rparr>) = Inr bs \<and>
    fix_piece x y b = Inr (b\<lparr>grid := g, current_tetromino := None\<rparr>) \<and> wf_grid g \<and>
    (\<forall>i<25. \<forall>j<10. cell_at g i j =
       (if (int j, int i) \<in> set bs then Some (shape_key t) else cell_at (grid b) i j)) \<and>
    (\<forall>i<25. \<forall>j<10. (int j, int i) \<in> set bs \<longrightarrow> cell_at (grid b) i j = None)"
proof -
  from assms(3) obtain bs where bs: "blocks (t\<lparr>tet_x := x, tet_y := y\<rparr>) = Inr bs"
    and free: "list_all (\<lambda>(x, y). in_board (x, y) \<and> cell_at (grid b) (nat y) (nat x) = None) bs"
    by (auto simp: fits_def split: sum.splits)
  have "in_board p" if "p \<in> set bs" for p using that free by (auto simp: list_all_iff)
  from fix_piece_spec [OF assms(1,2) bs this] obtain g where
    "fix_piece x y b = Inr (b\<lparr>grid := g, current_tetromino := None\<rparr>)" "wf_grid g"
    "\<And>i j. i < 25 \<Longrightarrow> j < 10 \<Longrightarrow> cell_at g i j =
       (if (int j, int i) \<in> set bs then Some (shape_key t) else cell_at (grid b) i j)" by blast
  moreover have "cell_at (grid b) i j = None" if "(int j, int i) \<in> set bs" for i j
    using that free by (fastforce simp: list_all_iff)
  ultimately show ?thesis using bs by blast
qed

theorem fix_piece_places_witness:
  "\<exists>b'. fix_piece 0 23 (TetrisBoard \<lparr>rect_x = 0, rect_y = 0, rect_w = 150, rect_h = 250\<rparr>
      \<lparr>current_tetromino := Some (Tetromino KO 3 0)\<rparr>) = Inr b' \<and> current_tetromino b' = None"
proof -
  let ?b = "TetrisBoard \<lparr>rect_x = 0, rect_y = 0, rect_w = 150, rect_h = 250\<rparr>
      \<lparr>current_tetromino := Some (Tetromino KO 3 0)\<rparr>"
  have "wf_grid (grid ?b)" by simp
  moreover have "current_tetromino ?b = Some (Tetromino KO 3 0)" by simp
  moreover have "fits (grid ?b) (Tetromino KO 3 0\<lparr>tet_x := 0, tet_y := 23\<rparr>)"
    by (simp add: fits_def blocks_def Tetromino_def dict_get_def SHAPES_def py_get_def py_index_def)
  ultimately show ?thesis using fix_piece_places by fastforce
qed

text \<open>
  C3: clearing row \<open>r\<close> removes that row only: the rows above move down by one, a blank row
  enters at the top, the rows below stay.
\<close>

theorem clear_lines_shifts:
  assumes "wf_grid (grid b)" "0 \<le> r" "r < 25"
  shows "\<exists>g. clear_lines r b = Inr (b\<lparr>grid := g\<rparr>) \<and> wf_grid g \<and> g ! 0 = blank_row \<and>
    (\<forall>i. 0 < i \<and> int i \<le> r \<longrightarrow> g ! i = grid b ! (i - 1)) \<and>
    (\<forall>i<25. r < int i \<longrightarrow> g ! i = grid b ! i)"
proof -
  from clear_lines_spec [OF assms] obtain g where g: "clear_lines r b = Inr (b\<lparr>grid := g\<rparr>)" "wf_grid g"
    and rows: "\<And>i. i < 25 \<Longrightarrow> g ! i = (if i = 0 then blank_row
       else if int i \<le> r then grid b ! (i - 1) else grid b ! i)" by blast
  have "g ! i = grid b ! (i - 1)" if "0 < i" "int i \<le> r" for i
    using that rows [of i] assms(3) by simp
  with g rows assms(2) show ?thesis by auto
qed

theorem clear_lines_shifts_witness:
  "\<exists>g. clear_lines 24 (TetrisBoard \<lparr>rect_x = 0, rect_y = 0, rect_w = 150, rect_h = 250\<rparr>)
     = Inr (TetrisBoard \<lparr>rect_x = 0, rect_y = 0, rect_w = 150, rect_h = 250\<rparr>\<lparr>grid := g\<rparr>)"
proof -
  have "wf_grid (grid (TetrisBoard \<lparr>rect_x = 0, rect_y = 0, rect_w = 150, rect_h = 250\<rparr>))"
    by (simp add: TetrisBoard_def set_layout_def Let_def)
  from clear_lines_shifts [OF this, of 24] show ?thesis by auto
qed

text \<open>
  C5: a garbage line pushes every row up by one and enters at the bottom as grey cells with
  one hole; clearing that bottom row again gives the board back whenever its top row was blank.
\<close>

theorem add_line_clear_roundtrip:
  assumes "wf_grid (grid b)" "0 \<le> h" "h < 10"
  shows "\<exists>g. add_line h b = Inr (b\<lparr>grid := g\<rparr>) \<and> wf_grid g \<and>
    (\<forall>i<24. g ! i = grid b ! Suc i) \<and>
    (\<forall>j<10. cell_at g 24 j = (if int j = h then None else Some KG)) \<and>
    (grid b ! 0 = blank_row \<longrightarrow> clear_lines 24 (b\<lparr>grid := g\<rparr>) = Inr b)"
proof -
  from add_line_spec [OF assms] obtain g where g: "add_line h b = Inr (b\<lparr>grid := g\<rparr>)" "wf_grid g"
    "\<And>i. i < 24 \<Longrightarrow> g ! i = grid b ! Suc i"
    "\<forall>j<10. cell_at g 24 j = (if int j = h then None else Some KG)" by blast
  from clear_lines_spec [of "b\<lparr>grid := g\<rparr>" 24] g(2) obtain g' where
    g': "clear_lines 24 (b\<lparr>grid := g\<rparr>) = Inr (b\<lparr>grid := g'\<rparr>)" "wf_grid g'"
    "\<And>i. i < 25 \<Longrightarrow> g' ! i = (if i = 0 then blank_row else if int i \<le> 24 then g ! (i - 1) else g ! i)"
    by auto
  have "g' = grid b" if top: "grid b ! 0 = blank_row"
  proof (rule nth_equalityI)
    show "length g' = length (grid b)" using g'(2) assms(1) by simp
  next
    fix i assume "i < length g'"
    then show "g' ! i = grid b ! i"
      using g'(2,3) g(3) top by (cases i) auto
  qed
  with g g'(1) show ?thesis by auto
qed

theorem add_line_clear_roundtrip_witness:
  "\<exists>b'. add_line 4 (TetrisBoard \<lparr>rect_x = 0, rect_y = 0, rect_w = 150, rect_h = 250\<rparr>) = Inr b' \<and>
     cell_at (grid b') 24 4 = None \<and> cell_at (grid b') 24 5 = Some KG"
proof -
  have "wf_grid (grid (TetrisBoard \<lparr>rect_x = 0, rect_y = 0, rect_w = 150, rect_h = 250\<rparr>))"
    by (simp add: TetrisBoard_def set_layout_def Let_def)
  from add_line_clear_roundtrip [OF this, of 4] show ?thesis by fastforce
qed

end
