(* ===== verification/Widgets.thy ===== *)
theory Widgets
  imports Tetris_Prelude
begin

text \<open>
  Events and the clickable widgets of \<^verbatim>\<open>client/tetris/ui\<close>: \<open>Button\<close> (button.py),
  \<open>ToggleButton\<close> (toggle_button.py), the text rectangle (rectangle.py) and the modal
  \<open>PopupBox\<close> (popupbox.py). Whether a point lies in a rectangle is pygame's
  \<open>Rect.collidepoint\<close>: the parameter \<open>collide\<close> of every operation that uses it.
  Sounds are not modelled; images, fonts, colours and drawing are in \<open>Visuals\<close>.
\<close>

subsection \<open>Events\<close>

type_synonym pos = "int \<times> int"

text \<open>A Python string is the list of its code points.\<close>

type_synonym pystr = "nat list"

datatype key = K_LEFT | K_RIGHT | K_DOWN | K_UP | K_SPACE | K_BACKSPACE | K_RETURN | K_OTHER nat

datatype event =
    MOUSEMOTION pos
  | MOUSEBUTTONDOWN int pos
  | MOUSEBUTTONUP int pos
  | MOUSEWHEEL int
  | KEYDOWN key
  | KEYUP key
  | TEXTINPUT pystr
  | TEXTEDITING pystr
  | OTHER_EVENT

type_synonym collide = "rect \<Rightarrow> pos \<Rightarrow> bool"

text \<open>\<open>ev.pos\<close> exists for the three mouse events that carry a position.\<close>

fun event_pos :: "event \<Rightarrow> pos option" where
  "event_pos (MOUSEMOTION p) = Some p"
| "event_pos (MOUSEBUTTONDOWN _ p) = Some p"
| "event_pos (MOUSEBUTTONUP _ p) = Some p"
| "event_pos _ = None"

fun left_down :: "event \<Rightarrow> pos option" where
  "left_down (MOUSEBUTTONDOWN n p) = (if n = 1 then Some p else None)"
| "left_down _ = None"

subsection \<open>Button\<close>

datatype ButtonState = IDLE | HOVER | PRESS

text \<open>
  \<open>btn_images\<close> is \<open>self.idle is not None\<close>; \<open>btn_face\<close> names which of the rectangles
  \<open>idle\<close>, \<open>hover\<close>, \<open>press\<close> the field \<open>button\<close> holds. The three share rectangle and text.
\<close>

record button =
  btn_state :: ButtonState
  btn_rect :: rect
  btn_text :: pystr
  btn_images :: bool
  btn_face :: ButtonState

definition Button :: "rect \<Rightarrow> bool \<Rightarrow> pystr \<Rightarrow> button" where
  "Button r use_image txt =
     \<lparr>btn_state = IDLE, btn_rect = r, btn_text = txt, btn_images = use_image, btn_face = IDLE\<rparr>"

definition button_set_text :: "pystr \<Rightarrow> button \<Rightarrow> button" where
  "button_set_text txt b = b\<lparr>btn_text := txt\<rparr>"

definition enter_state :: "ButtonState \<Rightarrow> button \<Rightarrow> button" where
  "enter_state s b = (let b = b\<lparr>btn_state := s\<rparr> in if btn_images b then b\<lparr>btn_face := s\<rparr> else b)"

definition button_handle_event :: "collide \<Rightarrow> event \<Rightarrow> button \<Rightarrow> bool \<times> button" where
  "button_handle_event collide ev b = (case event_pos ev of
     None \<Rightarrow> (False, b)
   | Some p \<Rightarrow>
       if collide (btn_rect b) p then
         (case ev of
            MOUSEMOTION _ \<Rightarrow> (False, if btn_state b = IDLE then enter_state HOVER b else b)
          | MOUSEBUTTONDOWN n _ \<Rightarrow>
              (False, if n = 1 \<and> btn_state b = HOVER then enter_state PRESS b else b)
          | MOUSEBUTTONUP n _ \<Rightarrow>
              if n = 1 \<and> btn_state b = PRESS then (True, enter_state IDLE b) else (False, b)
          | _ \<Rightarrow> (False, b))
       else (False, enter_state IDLE b))"

subsection \<open>Toggle button and rectangle\<close>

record toggle_button =
  tgl_rect :: rect
  tgl_reactable :: bool
  tgl_pressed :: bool
  tgl_visible :: bool

definition ToggleButton :: "rect \<Rightarrow> toggle_button" where
  "ToggleButton r = \<lparr>tgl_rect = r, tgl_reactable = True, tgl_pressed = False, tgl_visible = True\<rparr>"

text \<open>The early \<open>return\<close> of a button that does not react gives \<open>None\<close>, which callers test as false.\<close>

definition toggle_handle_event :: "collide \<Rightarrow> event \<Rightarrow> toggle_button \<Rightarrow> bool \<times> toggle_button" where
  "toggle_handle_event collide ev t =
     (if \<not> tgl_reactable t then (False, t)
      else case left_down ev of
        None \<Rightarrow> (False, t)
      | Some p \<Rightarrow> if collide (tgl_rect t) p then (True, t\<lparr>tgl_pressed := True\<rparr>) else (False, t))"

definition set_pressed :: "bool \<Rightarrow> toggle_button \<Rightarrow> toggle_button" where
  "set_pressed v t = t\<lparr>tgl_pressed := v\<rparr>"

definition set_reactable :: "bool \<Rightarrow> toggle_button \<Rightarrow> toggle_button" where
  "set_reactable v t = t\<lparr>tgl_reactable := v\<rparr>"

definition rectangle_handle_event :: "collide \<Rightarrow> rect \<Rightarrow> pystr \<Rightarrow> event \<Rightarrow> pystr option" where
  "rectangle_handle_event collide r txt ev = (case left_down ev of
     None \<Rightarrow> None | Some p \<Rightarrow> if collide r p then Some txt else None)"

subsection \<open>Popup\<close>

definition POPUP_WIDTH :: int where "POPUP_WIDTH = 750"
definition POPUP_HEIGHT :: int where "POPUP_HEIGHT = 500"
definition MESSAGE_HEIGHT :: int where "MESSAGE_HEIGHT = 300"
definition BUTTON_AREA_HEIGHT :: int where "BUTTON_AREA_HEIGHT = 250"
definition BUTTON_WIDTH :: int where "BUTTON_WIDTH = 150"
definition BUTTON_HEIGHT :: int where "BUTTON_HEIGHT = 75"

lemmas popup_consts = POPUP_WIDTH_def POPUP_HEIGHT_def MESSAGE_HEIGHT_def BUTTON_AREA_HEIGHT_def
  BUTTON_WIDTH_def BUTTON_HEIGHT_def

record popup =
  pop_message :: pystr
  pop_window :: rect
  pop_message_window :: rect
  pop_buttons :: "button list"

definition popup_button_rect :: "rect \<Rightarrow> int \<Rightarrow> int \<Rightarrow> int \<Rightarrow> int \<Rightarrow> rect" where
  "popup_button_rect win n btn_w btn_h i =
     (let remain_w = rect_w win - btn_w * n;
          btn_padding = remain_w div (n + 1);
          btn_y = rect_y win + (rect_h win - BUTTON_AREA_HEIGHT) + ((BUTTON_AREA_HEIGHT - btn_h) div 2);
          draw_x = rect_x win + btn_padding
      in \<lparr>rect_x = draw_x + i * (btn_w + btn_padding), rect_y = btn_y, rect_w = btn_w, rect_h = btn_h\<rparr>)"

definition popup_window_rect :: "int \<Rightarrow> int \<Rightarrow> int \<Rightarrow> int \<Rightarrow> rect" where
  "popup_window_rect sw sh win_w win_h =
     \<lparr>rect_x = (sw - win_w) div 2, rect_y = (sh - win_h) div 2, rect_w = win_w, rect_h = win_h\<rparr>"

text \<open>The window's size is the parameter \<open>(sw, sh)\<close>, what \<open>screen.get_size()\<close> returns.\<close>

definition PopupBox :: "int \<times> int \<Rightarrow> pystr \<Rightarrow> pystr list \<Rightarrow> int option \<Rightarrow> int option \<Rightarrow> int option
    \<Rightarrow> int option \<Rightarrow> popup py" where
  "PopupBox = (\<lambda>(sw, sh) message buttons_text popup_width popup_height button_width button_height.
     let win_w = (case popup_width of None \<Rightarrow> POPUP_WIDTH | Some w \<Rightarrow> w);
         win_h = (case popup_height of None \<Rightarrow> POPUP_HEIGHT | Some h \<Rightarrow> h);
         btn_w = (case button_width of None \<Rightarrow> BUTTON_WIDTH | Some w \<Rightarrow> w);
         btn_h = (case button_height of None \<Rightarrow> BUTTON_HEIGHT | Some h \<Rightarrow> h)
     in if length buttons_text < 1 then Inl ValueError
        else if length buttons_text > 3 then Inl ValueError
        else let win = popup_window_rect sw sh win_w win_h;
                 n = int (length buttons_text)
             in Inr \<lparr>pop_message = message, pop_window = win,
                     pop_message_window = win\<lparr>rect_h := MESSAGE_HEIGHT\<rparr>,
                     pop_buttons = map (\<lambda>i. Button (popup_button_rect win n btn_w btn_h (int i)) True
                       (buttons_text ! i)) [0..<length buttons_text]\<rparr>)"

fun buttons_handle_event :: "collide \<Rightarrow> event \<Rightarrow> button list \<Rightarrow> pystr option \<times> button list" where
  "buttons_handle_event collide ev [] = (None, [])"
| "buttons_handle_event collide ev (b # bs) =
     (let (clicked, b') = button_handle_event collide ev b in
      if clicked then (Some (btn_text b'), b' # bs)
      else let (r, bs') = buttons_handle_event collide ev bs in (r, b' # bs'))"

definition popup_handle_event :: "collide \<Rightarrow> event \<Rightarrow> popup \<Rightarrow> pystr option \<times> popup" where
  "popup_handle_event collide ev p =
     (let (r, bs) = buttons_handle_event collide ev (pop_buttons p) in (r, p\<lparr>pop_buttons := bs\<rparr>))"

subsection \<open>Lemmas on buttons\<close>

lemma enter_state_simps [simp]:
  "btn_state (enter_state s b) = s"
  "btn_rect (enter_state s b) = btn_rect b"
  "btn_text (enter_state s b) = btn_text b"
  "btn_images (enter_state s b) = btn_images b"
  "btn_face (enter_state s b) = (if btn_images b then s else btn_face b)"
  by (simp_all add: enter_state_def Let_def)

lemma button_handle_event_frame [simp]:
  "btn_rect (snd (button_handle_event collide ev b)) = btn_rect b"
  "btn_text (snd (button_handle_event collide ev b)) = btn_text b"
  "btn_images (snd (button_handle_event collide ev b)) = btn_images b"
  by (cases ev; simp add: button_handle_event_def)+

definition wf_button :: "button \<Rightarrow> bool" where
  "wf_button b \<longleftrightarrow> (btn_images b \<longrightarrow> btn_face b = btn_state b)"

lemma wf_Button [simp]: "wf_button (Button r i txt)"
  by (simp add: wf_button_def Button_def)

lemma wf_button_step: "wf_button b \<Longrightarrow> wf_button (snd (button_handle_event collide ev b))"
  by (cases ev) (simp_all add: button_handle_event_def wf_button_def)

text \<open>A button is a machine whose operations never raise: its face shows its state.\<close>

definition button_step :: "collide \<Rightarrow> event \<Rightarrow> button \<Rightarrow> button py" where
  "button_step collide ev b = Inr (snd (button_handle_event collide ev b))"

interpretation btn: safe_machine "button_step collide" wf_button "\<lambda>_. True" for collide
  by unfold_locales (auto simp: button_step_def wf_button_step)

definition button_run :: "collide \<Rightarrow> event list \<Rightarrow> button \<Rightarrow> button" where
  "button_run collide es b = fold (\<lambda>ev b. snd (button_handle_event collide ev b)) es b"

lemma button_run_simps [simp]:
  "button_run collide [] b = b"
  "button_run collide (es @ [ev]) b = snd (button_handle_event collide ev (button_run collide es b))"
  by (simp_all add: button_run_def)

lemma button_run_rect [simp]: "btn_rect (button_run collide es b) = btn_rect b"
  by (induction es rule: rev_induct) simp_all

lemma button_run_step: "py_for (button_step collide) es b = Inr (button_run collide es b)"
  unfolding button_step_def button_run_def by (rule py_for_pure)

text \<open>The pointer leaves the rectangle; the left button goes up inside it.\<close>

definition leaves :: "collide \<Rightarrow> rect \<Rightarrow> event \<Rightarrow> bool" where
  "leaves collide r ev = (case event_pos ev of None \<Rightarrow> False | Some p \<Rightarrow> \<not> collide r p)"

fun inside_motion inside_left_down inside_left_up :: "collide \<Rightarrow> rect \<Rightarrow> event \<Rightarrow> bool" where
  "inside_motion collide r (MOUSEMOTION p) = collide r p"
| "inside_motion collide r _ = False"
| "inside_left_down collide r (MOUSEBUTTONDOWN n p) = (n = 1 \<and> collide r p)"
| "inside_left_down collide r _ = False"
| "inside_left_up collide r (MOUSEBUTTONUP n p) = (n = 1 \<and> collide r p)"
| "inside_left_up collide r _ = False"

definition hovered :: "collide \<Rightarrow> rect \<Rightarrow> event list \<Rightarrow> bool" where
  "hovered collide r es \<longleftrightarrow> (\<exists>es1 m es2. es = es1 @ m # es2 \<and> inside_motion collide r m \<and>
     list_all (\<lambda>e. \<not> leaves collide r e) es2)"

definition pressed_after_hover :: "collide \<Rightarrow> rect \<Rightarrow> event list \<Rightarrow> bool" where
  "pressed_after_hover collide r es \<longleftrightarrow> (\<exists>es1 d es2. es = es1 @ d # es2 \<and> hovered collide r es1 \<and>
     inside_left_down collide r d \<and>
     list_all (\<lambda>e. \<not> leaves collide r e \<and> \<not> inside_left_up collide r e) es2)"

lemma hovered_snoc: "hovered collide r es \<Longrightarrow> \<not> leaves collide r ev \<Longrightarrow> hovered collide r (es @ [ev])"
  unfolding hovered_def by (elim exE, rule_tac x = es1 in exI, rule_tac x = m in exI,
    rule_tac x = "es2 @ [ev]" in exI) simp

lemma hovered_start: "inside_motion collide r ev \<Longrightarrow> hovered collide r (es @ [ev])"
  unfolding hovered_def by (rule exI [of _ es]) simp

lemma pressed_snoc:
  "pressed_after_hover collide r es \<Longrightarrow> \<not> leaves collide r ev \<Longrightarrow> \<not> inside_left_up collide r ev \<Longrightarrow>
   pressed_after_hover collide r (es @ [ev])"
  unfolding pressed_after_hover_def by (elim exE, rule_tac x = es1 in exI, rule_tac x = d in exI,
    rule_tac x = "es2 @ [ev]" in exI) simp

lemma pressed_start:
  "hovered collide r es \<Longrightarrow> inside_left_down collide r ev \<Longrightarrow> pressed_after_hover collide r (es @ [ev])"
  unfolding pressed_after_hover_def by (rule exI [of _ es]) simp

lemma button_step_cases:
  assumes "button_handle_event collide ev b = (c, b')"
  shows "leaves collide (btn_rect b) ev \<and> \<not> c \<and> btn_state b' = IDLE
    \<or> \<not> leaves collide (btn_rect b) ev \<and> inside_motion collide (btn_rect b) ev \<and> \<not> c \<and>
        btn_state b = IDLE \<and> btn_state b' = HOVER
    \<or> \<not> leaves collide (btn_rect b) ev \<and> inside_left_down collide (btn_rect b) ev \<and> \<not> c \<and>
        btn_state b = HOVER \<and> btn_state b' = PRESS
    \<or> \<not> leaves collide (btn_rect b) ev \<and> inside_left_up collide (btn_rect b) ev \<and> c \<and>
        btn_state b = PRESS \<and> btn_state b' = IDLE
    \<or> \<not> leaves collide (btn_rect b) ev \<and> \<not> c \<and> b' = b \<and>
        (btn_state b = PRESS \<longrightarrow> \<not> inside_left_up collide (btn_rect b) ev)"
  using assms
  by (cases ev) (auto simp: button_handle_event_def leaves_def split: if_splits)

lemma button_run_history:
  assumes "btn_state b = IDLE"
  shows "(btn_state (button_run collide es b) = HOVER \<longrightarrow> hovered collide (btn_rect b) es) \<and>
    (btn_state (button_run collide es b) = PRESS \<longrightarrow> pressed_after_hover collide (btn_rect b) es)"
proof (induction es rule: rev_induct)
  case Nil
  with assms show ?case by simp
next
  case (snoc ev es)
  obtain c b' where step: "button_handle_event collide ev (button_run collide es b) = (c, b')"
    by fastforce
  from button_step_cases [OF step] snoc step show ?case
    by (auto intro: hovered_snoc hovered_start pressed_snoc pressed_start)
qed

subsection \<open>Lemmas on popups\<close>

lemma button_handle_event_frameD:
  "button_handle_event collide ev b = (c, b') \<Longrightarrow> btn_text b' = btn_text b \<and> btn_rect b' = btn_rect b"
  by (metis button_handle_event_frame(1,2) snd_conv)

lemma buttons_handle_frame:
  "length (snd (buttons_handle_event collide ev bs)) = length bs \<and>
   map btn_text (snd (buttons_handle_event collide ev bs)) = map btn_text bs \<and>
   map btn_rect (snd (buttons_handle_event collide ev bs)) = map btn_rect bs"
  by (induction bs) (auto simp: Let_def split: prod.split dest: button_handle_event_frameD)

lemma clickedD:
  assumes "button_handle_event collide ev b = (True, b')"
  shows "btn_state b = PRESS \<and> inside_left_up collide (btn_rect b) ev \<and> b' = enter_state IDLE b"
  using assms by (cases ev) (auto simp: button_handle_event_def split: if_splits)

lemma buttons_handle_result:
  assumes "buttons_handle_event collide ev bs = (Some txt, bs')"
  shows "\<exists>i<length bs. txt = btn_text (bs ! i) \<and> btn_state (bs ! i) = PRESS \<and>
    inside_left_up collide (btn_rect (bs ! i)) ev \<and> drop (Suc i) bs' = drop (Suc i) bs"
  using assms
proof (induction bs arbitrary: bs')
  case Nil
  then show ?case by simp
next
  case (Cons b bs)
  obtain c b1 where step: "button_handle_event collide ev b = (c, b1)" by fastforce
  obtain r bs1 where rest: "buttons_handle_event collide ev bs = (r, bs1)" by fastforce
  show ?case
  proof (cases c)
    case True
    with step clickedD [of collide ev b b1] Cons.prems show ?thesis
      by (intro exI [of _ 0]) auto
  next
    case False
    with step rest Cons.prems have r: "r = Some txt" "bs' = b1 # bs1" by auto
    with Cons.IH rest obtain i where "i < length bs" "txt = btn_text (bs ! i)"
      "btn_state (bs ! i) = PRESS" "inside_left_up collide (btn_rect (bs ! i)) ev"
      "drop (Suc i) bs1 = drop (Suc i) bs" by blast
    with r show ?thesis by (intro exI [of _ "Suc i"]) simp
  qed
qed

subsection \<open>Properties\<close>

text \<open>
  C24: a button reports a click only for a left button released over it, after the pointer
  moved onto it, the left button was then pressed on it, and neither a leave nor a release came
  in between; the shortest such history (move, press, release) does click. The image shown is the
  one of its state all along.
\<close>

theorem button_click_protocol:
  fixes r :: rect and p :: pos
  shows "(fst (button_handle_event collide ev (button_run collide es (Button r imgs txt))) \<longrightarrow>
      inside_left_up collide r ev \<and> pressed_after_hover collide r es) \<and>
    wf_button (button_run collide es (Button r imgs txt)) \<and>
    (collide r p \<longrightarrow> fst (button_handle_event collide (MOUSEBUTTONUP 1 p)
      (button_run collide [MOUSEMOTION p, MOUSEBUTTONDOWN 1 p] (Button r imgs txt))))"
proof (intro conjI impI)
  let ?b = "Button r imgs txt"
  have r: "btn_rect ?b = r" "btn_state ?b = IDLE" "wf_button ?b" by (simp_all add: Button_def wf_button_def)
  {
    assume "fst (button_handle_event collide ev (button_run collide es (Button r imgs txt)))"
    then obtain b' where "button_handle_event collide ev (button_run collide es (Button r imgs txt)) = (True, b')"
      by (cases "button_handle_event collide ev (button_run collide es (Button r imgs txt))") auto
    from clickedD [OF this] button_run_history [OF r(2), of collide es] r(1)
    show "inside_left_up collide r ev" "pressed_after_hover collide r es" by auto
  }
  show "wf_button (button_run collide es (Button r imgs txt))"
    using btn.run_inv [OF r(3) button_run_step] .
  assume "collide r p"
  with r show "fst (button_handle_event collide (MOUSEBUTTONUP 1 p)
      (button_run collide [MOUSEMOTION p, MOUSEBUTTONDOWN 1 p] (Button r imgs txt)))"
    by (simp add: button_run_def button_handle_event_def)
qed

theorem button_click_protocol_witness:
  "fst (button_handle_event (\<lambda>r (x, y). rect_x r \<le> x \<and> x < rect_x r + rect_w r) (MOUSEBUTTONUP 1 (5, 5))
     (button_run (\<lambda>r (x, y). rect_x r \<le> x \<and> x < rect_x r + rect_w r)
        [MOUSEMOTION (5, 5), MOUSEBUTTONDOWN 1 (5, 5)]
        (Button \<lparr>rect_x = 0, rect_y = 0, rect_w = 10, rect_h = 10\<rparr> True [])))"
  using button_click_protocol [of "\<lambda>r (x, y). rect_x r \<le> x \<and> x < rect_x r + rect_w r"
      OTHER_EVENT "[]" "\<lparr>rect_x = 0, rect_y = 0, rect_w = 10, rect_h = 10\<rparr>" True "[]" "(5, 5)"]
  by simp

text \<open>
  A popup is built exactly for one to three captions. Its buttons then carry the captions in
  order, and when they fit in the width they lie inside the window, side by side without overlap.
\<close>

theorem popup_layout:
  assumes "0 \<le> bw" "bw * int (length texts) \<le> ww"
  shows "case PopupBox (sw, sh) msg texts (Some ww) (Some wh) (Some bw) (Some bh) of
      Inl e \<Rightarrow> e = ValueError \<and> (texts = [] \<or> 3 < length texts)
    | Inr p \<Rightarrow> texts \<noteq> [] \<and> length texts \<le> 3 \<and> map btn_text (pop_buttons p) = texts \<and>
        (\<forall>i<length texts. let r = btn_rect (pop_buttons p ! i) in
           rect_x (pop_window p) \<le> rect_x r \<and>
           rect_x r + rect_w r \<le> rect_x (pop_window p) + rect_w (pop_window p) \<and>
           (Suc i < length texts \<longrightarrow> rect_x r + rect_w r \<le> rect_x (btn_rect (pop_buttons p ! Suc i))))"
proof (cases "texts = [] \<or> 3 < length texts")
  case True
  then show ?thesis by (auto simp: PopupBox_def Let_def)
next
  case False
  let ?n = "int (length texts)" and ?win = "popup_window_rect sw sh ww wh"
  let ?pad = "(ww - bw * ?n) div (?n + 1)"
  have n: "1 \<le> length texts" "length texts \<le> 3" using False by (simp_all add: Suc_le_eq)
  have "0 \<le> (ww - bw * ?n) mod (?n + 1)" by (rule pos_mod_sign) simp
  then have pad: "0 \<le> ?pad" "?pad * (?n + 1) \<le> ww - bw * ?n"
    using assms(2) by (simp_all add: pos_imp_zdiv_nonneg_iff flip: minus_mod_eq_div_mult)
  have x: "rect_x (popup_button_rect ?win ?n bw bh i) = rect_x ?win + ?pad + i * (bw + ?pad)"
    and w: "rect_w (popup_button_rect ?win ?n bw bh i) = bw" for i
    by (simp_all add: popup_button_rect_def popup_window_rect_def Let_def)
  have "int i * (bw + ?pad) + ?pad + bw \<le> ww" if "i < length texts" for i
  proof -
    have "int i * (bw + ?pad) \<le> (?n - 1) * (bw + ?pad)"
      using that assms(1) pad(1) by (intro mult_right_mono) simp_all
    with pad show ?thesis by (simp add: algebra_simps)
  qed
  moreover have "rect_w ?win = ww" by (simp add: popup_window_rect_def)
  ultimately show ?thesis using False n pad(1) assms(1)
    by (simp add: PopupBox_def Let_def Button_def x w map_nth algebra_simps comp_def)
qed

theorem popup_layout_witness:
  "\<exists>p. PopupBox (1600, 900) [] [[79, 75], [78, 79]] (Some 750) (Some 500) (Some 150) (Some 75) = Inr p \<and>
     rect_x (btn_rect (pop_buttons p ! 0)) + 150 \<le> rect_x (btn_rect (pop_buttons p ! 1))"
proof -
  let ?p = "PopupBox (1600, 900) [] [[79, 75], [78, 79]] (Some 750) (Some 500) (Some 150) (Some 75)"
  have "\<exists>p. ?p = Inr p" by (simp add: PopupBox_def Let_def)
  then obtain p where p: "?p = Inr p" ..
  from popup_layout [of 150 "[[79, 75], [78, 79]]" 750 1600 900 "[]" 500 75]
  have "let r = btn_rect (pop_buttons p ! 0) in
     rect_x r + rect_w r \<le> rect_x (btn_rect (pop_buttons p ! Suc 0))"
    unfolding p by (auto simp: Let_def dest: spec [of _ 0])
  moreover have "rect_w (btn_rect (pop_buttons p ! 0)) = 150"
    using p by (auto simp: PopupBox_def Let_def Button_def popup_button_rect_def)
  ultimately show ?thesis using p by (auto simp: Let_def)
qed

text \<open>
  C25: a popup answers with the caption of one of its buttons, the one that was pressed and on
  which the left button is released; the event never reaches the buttons after it, and captions and
  rectangles of all buttons stay as they were.
\<close>

theorem popup_answers_pressed_button:
  assumes "popup_handle_event collide ev p = (res, p')"
  shows "map btn_text (pop_buttons p') = map btn_text (pop_buttons p) \<and>
    map btn_rect (pop_buttons p') = map btn_rect (pop_buttons p) \<and>
    (\<forall>txt. res = Some txt \<longrightarrow> (\<exists>i<length (pop_buttons p). txt = btn_text (pop_buttons p ! i) \<and>
       btn_state (pop_buttons p ! i) = PRESS \<and>
       inside_left_up collide (btn_rect (pop_buttons p ! i)) ev \<and>
       drop (Suc i) (pop_buttons p') = drop (Suc i) (pop_buttons p)))"
proof -
  obtain r bs where h: "buttons_handle_event collide ev (pop_buttons p) = (r, bs)" by fastforce
  with assms have "res = r" "pop_buttons p' = bs" by (auto simp: popup_handle_event_def)
  with h buttons_handle_frame [of collide ev "pop_buttons p"]
    buttons_handle_result [of collide ev "pop_buttons p" _ bs] show ?thesis by auto
qed

theorem popup_answers_pressed_button_witness:
  "\<exists>res p'. popup_handle_event (\<lambda>_ _. True) (MOUSEBUTTONUP 1 (0, 0))
      \<lparr>pop_message = [], pop_window = \<lparr>rect_x = 0, rect_y = 0, rect_w = 9, rect_h = 9\<rparr>, pop_message_window = \<lparr>rect_x = 0, rect_y = 0, rect_w = 9, rect_h = 9\<rparr>,
       pop_buttons = [Button \<lparr>rect_x = 0, rect_y = 0, rect_w = 9, rect_h = 9\<rparr> True [79]\<lparr>btn_state := PRESS\<rparr>]\<rparr> = (res, p') \<and>
     map btn_text (pop_buttons p') = [[79]]"
  using popup_answers_pressed_button [of "\<lambda>_ _. True" "MOUSEBUTTONUP 1 (0, 0)"
      "\<lparr>pop_message = [], pop_window = \<lparr>rect_x = 0, rect_y = 0, rect_w = 9, rect_h = 9\<rparr>, pop_message_window = \<lparr>rect_x = 0, rect_y = 0, rect_w = 9, rect_h = 9\<rparr>,
       pop_buttons = [Button \<lparr>rect_x = 0, rect_y = 0, rect_w = 9, rect_h = 9\<rparr> True [79]\<lparr>btn_state := PRESS\<rparr>]\<rparr>"]
  by (cases "popup_handle_event (\<lambda>_ _. True) (MOUSEBUTTONUP 1 (0, 0))
      \<lparr>pop_message = [], pop_window = \<lparr>rect_x = 0, rect_y = 0, rect_w = 9, rect_h = 9\<rparr>, pop_message_window = \<lparr>rect_x = 0, rect_y = 0, rect_w = 9, rect_h = 9\<rparr>,
       pop_buttons = [Button \<lparr>rect_x = 0, rect_y = 0, rect_w = 9, rect_h = 9\<rparr> True [79]\<lparr>btn_state := PRESS\<rparr>]\<rparr>") (auto simp: Button_def)

end
