(* ===== verification/Controller.thy ===== *)
theory Controller
  imports Widgets Tetromino
begin

text \<open>
  The keyboard controller of \<^verbatim>\<open>client/tetris/game/tetris_controller.py\<close>
  (\<open>TetrisController\<close>). Its five fields per repeating key (left, right, down) are one record
  \<open>key_repeat\<close> each. The packets it hands to the network worker are returned as the list of
  moves in the order of the calls of \<open>send_move\<close>.
\<close>

subsection \<open>State\<close>

record key_repeat =
  pressed :: bool
  elapsed :: rat
  first_over :: bool
  first_move :: bool

record controller =
  key_left :: key_repeat
  key_right :: key_repeat
  key_down :: key_repeat
  rotate_pressed :: bool
  drop_pressed :: bool

definition released :: key_repeat where
  "released = \<lparr>pressed = False, elapsed = 0, first_over = False, first_move = False\<rparr>"

definition TetrisController :: controller where
  "TetrisController = \<lparr>key_left = released, key_right = released, key_down = released,
     rotate_pressed = False, drop_pressed = False\<rparr>"

definition first_delay_ms :: rat where "first_delay_ms = 300"
definition delay_ms :: rat where "delay_ms = 50"

subsection \<open>Operations\<close>

text \<open>
  A key that goes down only sets \<open>pressed\<close>; a key that goes up resets its four fields.
\<close>

fun controller_handle_event :: "event \<Rightarrow> controller \<Rightarrow> controller" where
  "controller_handle_event (KEYDOWN k) c =
     (if k = K_LEFT then c\<lparr>key_left := (key_left c)\<lparr>pressed := True\<rparr>\<rparr>
      else if k = K_RIGHT then c\<lparr>key_right := (key_right c)\<lparr>pressed := True\<rparr>\<rparr>
      else if k = K_DOWN then c\<lparr>key_down := (key_down c)\<lparr>pressed := True\<rparr>\<rparr>
      else if k = K_SPACE then c\<lparr>drop_pressed := True\<rparr>
      else if k = K_UP then c\<lparr>rotate_pressed := True\<rparr>
      else c)"
| "controller_handle_event (KEYUP k) c =
     (if k = K_LEFT then c\<lparr>key_left := released\<rparr>
      else if k = K_RIGHT then c\<lparr>key_right := released\<rparr>
      else if k = K_DOWN then c\<lparr>key_down := released\<rparr>
      else if k = K_SPACE then c\<lparr>drop_pressed := False\<rparr>
      else if k = K_UP then c\<lparr>rotate_pressed := False\<rparr>
      else c)"
| "controller_handle_event _ c = c"

definition send_repeat :: "MoveType \<Rightarrow> key_repeat \<Rightarrow> key_repeat \<times> MoveType list" where
  "send_repeat m k =
     (if pressed k then
        if \<not> first_over k then
          let (k, sent) = (if \<not> first_move k then (k\<lparr>first_move := True\<rparr>, [m]) else (k, []))
          in if first_delay_ms \<le> elapsed k then (k\<lparr>first_over := True, elapsed := 0\<rparr>, sent @ [m])
             else (k, sent)
        else if delay_ms \<le> elapsed k then (k\<lparr>elapsed := 0\<rparr>, [m]) else (k, [])
      else (k, []))"

definition send_move_handler :: "controller \<Rightarrow> controller \<times> MoveType list" where
  "send_move_handler c =
     (let (l, ms1) = send_repeat LEFT (key_left c);
          (r, ms2) = send_repeat RIGHT (key_right c);
          (d, ms3) = send_repeat DOWN (key_down c);
          c = c\<lparr>key_left := l, key_right := r, key_down := d\<rparr>;
          (c, ms4) = (if rotate_pressed c then (c\<lparr>rotate_pressed := False\<rparr>, [ROTATE]) else (c, []));
          (c, ms5) = (if drop_pressed c then
             (c\<lparr>key_left := (key_left c)\<lparr>pressed := False\<rparr>, key_right := (key_right c)\<lparr>pressed := False\<rparr>,
                key_down := (key_down c)\<lparr>pressed := False\<rparr>, rotate_pressed := False,
                drop_pressed := False\<rparr>, [DROP]) else (c, []))
      in (c, ms1 @ ms2 @ ms3 @ ms4 @ ms5))"

definition controller_clear :: "controller \<Rightarrow> controller" where
  "controller_clear c = c\<lparr>key_left := released, key_right := released, key_down := released,
     rotate_pressed := False, drop_pressed := False\<rparr>"

definition add_time :: "rat \<Rightarrow> key_repeat \<Rightarrow> key_repeat" where
  "add_time dt_ms k = (if pressed k then k\<lparr>elapsed := elapsed k + dt_ms\<rparr> else k)"

definition controller_update :: "rat \<Rightarrow> controller \<Rightarrow> controller \<times> MoveType list" where
  "controller_update dt_ms c = send_move_handler
     (c\<lparr>key_left := add_time dt_ms (key_left c), key_right := add_time dt_ms (key_right c),
        key_down := add_time dt_ms (key_down c)\<rparr>)"

subsection \<open>Runs\<close>

datatype cinput = Ev event | Frame rat

fun controller_step :: "cinput \<Rightarrow> controller \<times> MoveType list \<Rightarrow> controller \<times> MoveType list" where
  "controller_step (Ev ev) (c, sent) = (controller_handle_event ev c, sent)"
| "controller_step (Frame dt) (c, sent) =
     (let (c', ms) = controller_update dt c in (c', sent @ ms))"

definition controller_run :: "cinput list \<Rightarrow> controller \<times> MoveType list" where
  "controller_run es = fold controller_step es (TetrisController, [])"

text \<open>A key that repeats at the short delay has sent its first move.\<close>

definition wf_key :: "key_repeat \<Rightarrow> bool" where
  "wf_key k \<longleftrightarrow> (first_over k \<longrightarrow> first_move k)"

definition wf_controller :: "controller \<Rightarrow> bool" where
  "wf_controller c \<longleftrightarrow> wf_key (key_left c) \<and> wf_key (key_right c) \<and> wf_key (key_down c)"

lemma wf_released [simp]: "wf_key released"
  by (simp add: wf_key_def released_def)

lemma wf_TetrisController [simp]: "wf_controller TetrisController"
  by (simp add: wf_controller_def TetrisController_def)

lemma wf_controller_clear [simp]: "wf_controller (controller_clear c)"
  by (simp add: wf_controller_def controller_clear_def)

lemma wf_key_update [simp]: "wf_key (k\<lparr>pressed := v\<rparr>) = wf_key k"
  by (simp add: wf_key_def)

lemma wf_send_repeat: "wf_key k \<Longrightarrow> wf_key (fst (send_repeat m k))"
  by (simp add: send_repeat_def wf_key_def Let_def)

lemma wf_add_time [simp]: "wf_key (add_time dt k) = wf_key k"
  by (simp add: add_time_def wf_key_def)

lemma send_repeat_moves: "set (snd (send_repeat m k)) \<subseteq> {m}"
  by (simp add: send_repeat_def Let_def)

lemma send_repeat_pressed: "snd (send_repeat m k) \<noteq> [] \<Longrightarrow> pressed k"
  by (simp add: send_repeat_def split: if_splits)

lemma send_repeat_keeps_pressed [simp]: "pressed (fst (send_repeat m k)) = pressed k"
  by (simp add: send_repeat_def Let_def)

lemma add_time_pressed [simp]: "pressed (add_time dt k) = pressed k"
  by (simp add: add_time_def)

lemma controller_update_fields:
  assumes "controller_update dt c = (c', ms)"
  defines "l \<equiv> send_repeat LEFT (add_time dt (key_left c))"
    and "r \<equiv> send_repeat RIGHT (add_time dt (key_right c))"
    and "d \<equiv> send_repeat DOWN (add_time dt (key_down c))"
  shows "ms = snd l @ snd r @ snd d @ (if rotate_pressed c then [ROTATE] else []) @
      (if drop_pressed c then [DROP] else [])"
    and "key_left c' = (if drop_pressed c then (fst l)\<lparr>pressed := False\<rparr> else fst l)"
    and "key_right c' = (if drop_pressed c then (fst r)\<lparr>pressed := False\<rparr> else fst r)"
    and "key_down c' = (if drop_pressed c then (fst d)\<lparr>pressed := False\<rparr> else fst d)"
    and "\<not> rotate_pressed c'" and "\<not> drop_pressed c'"
  using assms(1)
  by (auto simp: controller_update_def send_move_handler_def Let_def l_def r_def d_def
      split: prod.splits if_splits)

lemma wf_controller_update:
  assumes "controller_update dt c = (c', ms)" "wf_controller c"
  shows "wf_controller c'"
  using controller_update_fields(2-4) [OF assms(1)] assms(2)
  by (simp add: wf_controller_def wf_send_repeat)

lemma wf_controller_event: "wf_controller c \<Longrightarrow> wf_controller (controller_handle_event ev c)"
  by (cases ev) (auto simp: wf_controller_def)

lemma wf_controller_step: "wf_controller (fst s) \<Longrightarrow> wf_controller (fst (controller_step i s))"
  by (cases "(i, s)" rule: controller_step.cases)
    (auto simp: wf_controller_event wf_controller_update split: prod.splits)

interpretation ctl: safe_machine "\<lambda>i s. Inr (controller_step i s)" "\<lambda>(c, sent). wf_controller c" "\<lambda>_. True"
  by unfold_locales (auto simp: split_beta, metis fst_conv wf_controller_step)

text \<open>The field a move kind depends on, and the key that sets it.\<close>

fun key_of :: "MoveType \<Rightarrow> key option" where
  "key_of LEFT = Some K_LEFT"
| "key_of RIGHT = Some K_RIGHT"
| "key_of DOWN = Some K_DOWN"
| "key_of ROTATE = Some K_UP"
| "key_of DROP = Some K_SPACE"
| "key_of UP = None"

fun move_pressed :: "MoveType \<Rightarrow> controller \<Rightarrow> bool" where
  "move_pressed LEFT c = pressed (key_left c)"
| "move_pressed RIGHT c = pressed (key_right c)"
| "move_pressed DOWN c = pressed (key_down c)"
| "move_pressed ROTATE c = rotate_pressed c"
| "move_pressed DROP c = drop_pressed c"
| "move_pressed UP c = False"

lemma update_sends_pressed:
  assumes "controller_update dt c = (c', ms)" "m \<in> set ms"
  shows "move_pressed m c"
proof -
  have *: "m \<in> set (snd (send_repeat m' (add_time dt k))) \<Longrightarrow> m = m' \<and> pressed k" for m' k
    using send_repeat_moves [of m' "add_time dt k"] send_repeat_pressed [of m' "add_time dt k"]
    by (cases "snd (send_repeat m' (add_time dt k))") auto
  with assms(2) show ?thesis
    unfolding controller_update_fields(1) [OF assms(1)] by (auto split: if_splits dest!: *)
qed

lemma update_keeps_pressed:
  assumes "controller_update dt c = (c', ms)" "move_pressed m c'"
  shows "move_pressed m c"
  using controller_update_fields(2-6) [OF assms(1)] assms(2) by (cases m) (auto split: if_splits)

lemma event_presses:
  assumes "move_pressed m (controller_handle_event ev c)"
  shows "move_pressed m c \<or> (\<exists>k. key_of m = Some k \<and> ev = KEYDOWN k)"
  using assms by (cases ev; cases m) (auto simp: released_def split: if_splits)

lemma update_counts:
  assumes "controller_update dt c = (c', ms)"
  shows "count_list ms ROTATE = (if rotate_pressed c then 1 else 0)"
    and "count_list ms DROP = (if drop_pressed c then 1 else 0)"
proof -
  have "m' \<noteq> m \<Longrightarrow> count_list (snd (send_repeat m' k)) m = 0" for m m' k
    using send_repeat_moves [of m' k] by (auto simp: count_list_0_iff)
  then show "count_list ms ROTATE = (if rotate_pressed c then 1 else 0)"
    and "count_list ms DROP = (if drop_pressed c then 1 else 0)"
    unfolding controller_update_fields(1) [OF assms] by simp_all
qed

lemma run_snoc: "controller_run (es @ [i]) = controller_step i (controller_run es)"
  by (simp add: controller_run_def)

lemma run_history:
  assumes "controller_run es = (c, sent)"
  shows "(\<forall>m. m \<in> set sent \<or> move_pressed m c \<longrightarrow> (\<exists>k. key_of m = Some k \<and> Ev (KEYDOWN k) \<in> set es)) \<and>
    count_list sent ROTATE + (if rotate_pressed c then 1 else 0) \<le> count_list es (Ev (KEYDOWN K_UP)) \<and>
    count_list sent DROP + (if drop_pressed c then 1 else 0) \<le> count_list es (Ev (KEYDOWN K_SPACE))"
  using assms
proof (induction es arbitrary: c sent rule: rev_induct)
  case Nil
  then have "\<not> move_pressed m c" for m by (cases m) (auto simp: controller_run_def TetrisController_def released_def)
  with Nil show ?case by (auto simp: controller_run_def TetrisController_def)
next
  case (snoc i es)
  obtain c0 sent0 where run: "controller_run es = (c0, sent0)" by fastforce
  note IH = snoc.IH [OF run]
  show ?case
  proof (cases i)
    case (Ev ev)
    with snoc.prems run have c: "c = controller_handle_event ev c0" "sent = sent0"
      by (simp_all add: run_snoc)
    have "rotate_pressed c \<Longrightarrow> rotate_pressed c0 \<or> ev = KEYDOWN K_UP"
      "drop_pressed c \<Longrightarrow> drop_pressed c0 \<or> ev = KEYDOWN K_SPACE"
      unfolding c by (cases ev; auto split: if_splits)+
    then have "count_list sent ROTATE + (if rotate_pressed c then 1 else 0) \<le> count_list (es @ [i]) (Ev (KEYDOWN K_UP))"
      "count_list sent DROP + (if drop_pressed c then 1 else 0) \<le> count_list (es @ [i]) (Ev (KEYDOWN K_SPACE))"
      using IH c(2) Ev by (auto split: if_splits)
    moreover have "\<exists>k. key_of m = Some k \<and> Ev (KEYDOWN k) \<in> set (es @ [i])"
      if "m \<in> set sent \<or> move_pressed m c" for m
      using that IH event_presses [of m ev c0] unfolding c Ev by auto
    ultimately show ?thesis by blast
  next
    case (Frame dt)
    then obtain ms where u: "controller_update dt c0 = (c, ms)" "sent = sent0 @ ms"
      using snoc.prems run by (auto simp: run_snoc split: prod.splits)
    from controller_update_fields(5,6) [OF u(1)] IH update_counts [OF u(1)] u(2) Frame
    have "count_list sent ROTATE + (if rotate_pressed c then 1 else 0) \<le> count_list (es @ [i]) (Ev (KEYDOWN K_UP))"
      "count_list sent DROP + (if drop_pressed c then 1 else 0) \<le> count_list (es @ [i]) (Ev (KEYDOWN K_SPACE))"
      by (simp_all split: if_splits)
    moreover have "\<exists>k. key_of m = Some k \<and> Ev (KEYDOWN k) \<in> set (es @ [i])"
      if "m \<in> set sent \<or> move_pressed m c" for m
    proof -
      from that have "m \<in> set sent0 \<or> move_pressed m c0"
        using update_sends_pressed [OF u(1)] update_keeps_pressed [OF u(1)] u(2) by auto
      with IH show ?thesis by auto
    qed
    ultimately show ?thesis by blast
  qed
qed

subsection \<open>Auto-repeat\<close>

definition key_frame :: "MoveType \<Rightarrow> rat \<Rightarrow> key_repeat \<times> MoveType list \<Rightarrow> key_repeat \<times> MoveType list" where
  "key_frame m dt = (\<lambda>(k, sent). let (k', ms) = send_repeat m (add_time dt k) in (k', sent @ ms))"

definition held :: "MoveType \<Rightarrow> rat \<Rightarrow> rat \<Rightarrow> nat \<Rightarrow> key_repeat \<times> MoveType list \<Rightarrow> bool" where
  "held m D T n = (\<lambda>(k, sent). sent = replicate n m \<and> pressed k \<and>
     (if first_over k then first_move k \<and> 2 \<le> n \<and> 0 \<le> elapsed k \<and> elapsed k < 50 \<and>
        300 + 50 * (of_nat n - 2) + elapsed k \<le> T \<and>
        T \<le> 300 + D + (of_nat n - 2) * (50 + D) + elapsed k
      else elapsed k = T \<and> T < 300 \<and> n = (if first_move k then 1 else 0)))"

lemma held_step:
  assumes "held m D T n s" "0 \<le> dt" "dt \<le> D"
  shows "\<exists>n'. held m D (T + dt) n' (key_frame m dt s) \<and> first_move (fst (key_frame m dt s))"
proof -
  obtain k sent where s: "s = (k, sent)" by fastforce
  from assms(1) have k: "pressed k" "sent = replicate n m" by (simp_all add: held_def s)
  show ?thesis
  proof (cases "first_over k")
    case True
    with assms(1) have h: "first_move k" "2 \<le> n" "0 \<le> elapsed k" "elapsed k < 50"
      "300 + 50 * (of_nat n - 2) + elapsed k \<le> T"
      "T \<le> 300 + D + (of_nat n - 2) * (50 + D) + elapsed k" by (simp_all add: held_def s)
    show ?thesis
    proof (cases "50 \<le> elapsed k + dt")
      case fire: True
      with h assms(2,3) have "held m D (T + dt) (Suc n) (key_frame m dt s)"
        "first_move (fst (key_frame m dt s))"
        by (simp_all add: held_def key_frame_def s k True add_time_def send_repeat_def delay_ms_def
            replicate_append_same algebra_simps)
      then show ?thesis by blast
    next
      case False
      with h assms(2,3) have "held m D (T + dt) n (key_frame m dt s)" "first_move (fst (key_frame m dt s))"
        by (simp_all add: held_def key_frame_def s k True add_time_def send_repeat_def delay_ms_def)
      then show ?thesis by blast
    qed
  next
    case False
    with assms(1) have h: "elapsed k = T" "T < 300" "n = (if first_move k then 1 else 0)"
      by (simp_all add: held_def s)
    let ?n = "if 300 \<le> T + dt then 2 else 1 :: nat"
    from h False assms(2,3) have "held m D (T + dt) ?n (key_frame m dt s)" "first_move (fst (key_frame m dt s))"
      by (simp_all add: held_def key_frame_def s k add_time_def send_repeat_def first_delay_ms_def
          numeral_2_eq_2)
    then show ?thesis by blast
  qed
qed

lemma held_run:
  assumes "held m D T n s" "\<And>d. d \<in> set ds \<Longrightarrow> 0 \<le> d \<and> d \<le> D"
  shows "\<exists>n'. held m D (T + sum_list ds) n' (fold (key_frame m) ds s) \<and>
    (ds \<noteq> [] \<longrightarrow> first_move (fst (fold (key_frame m) ds s)))"
  using assms
proof (induction ds arbitrary: T n s rule: rev_induct)
  case Nil
  then show ?case by auto
next
  case (snoc d ds)
  from snoc.IH [OF snoc.prems(1)] snoc.prems(2) obtain n' where
    "held m D (T + sum_list ds) n' (fold (key_frame m) ds s)" by auto
  from held_step [OF this, of d] snoc.prems(2) show ?case by (auto simp: add.assoc)
qed

text \<open>A controller on which only the key of one move kind is in use.\<close>

fun only_key :: "MoveType \<Rightarrow> key_repeat \<Rightarrow> controller" where
  "only_key LEFT k = TetrisController\<lparr>key_left := k\<rparr>"
| "only_key RIGHT k = TetrisController\<lparr>key_right := k\<rparr>"
| "only_key DOWN k = TetrisController\<lparr>key_down := k\<rparr>"
| "only_key _ k = TetrisController"

lemma send_repeat_released [simp]: "send_repeat m released = (released, [])"
  by (simp add: send_repeat_def released_def)

lemma add_time_released [simp]: "add_time dt released = released"
  by (simp add: add_time_def released_def)

lemma only_key_step:
  assumes "m \<in> {LEFT, RIGHT, DOWN}"
  shows "controller_step (Frame dt) (only_key m k, sent) =
    (let (k', sent') = key_frame m dt (k, sent) in (only_key m k', sent'))"
  using assms
  by (auto simp: controller_update_def send_move_handler_def key_frame_def TetrisController_def Let_def
      split: prod.split)

lemma only_key_frames:
  assumes "m \<in> {LEFT, RIGHT, DOWN}"
  shows "fold controller_step (map Frame ds) (only_key m k, sent) =
    (let (k', sent') = fold (key_frame m) ds (k, sent) in (only_key m k', sent'))"
proof (induction ds arbitrary: k sent)
  case Nil
  then show ?case by simp
next
  case (Cons d ds)
  obtain k' sent' where "key_frame m d (k, sent) = (k', sent')" by fastforce
  with Cons only_key_step [OF assms, of d k sent] show ?case by simp
qed

subsection \<open>Properties\<close>

text \<open>
  C22: the controller never invents a move: every move it sends in a run from the fresh state
  has the key of that move pressed down earlier in the run, \<open>UP\<close> is never sent, and a rotation or a
  hard drop is sent at most once per press of its key.
\<close>

theorem no_phantom_moves:
  assumes "controller_run es = (c, sent)"
  shows "UP \<notin> set sent \<and>
    (\<forall>m \<in> set sent. \<exists>k. key_of m = Some k \<and> Ev (KEYDOWN k) \<in> set es) \<and>
    count_list sent ROTATE \<le> count_list es (Ev (KEYDOWN K_UP)) \<and>
    count_list sent DROP \<le> count_list es (Ev (KEYDOWN K_SPACE))"
  using run_history [OF assms] by (auto split: if_splits)

theorem no_phantom_moves_witness:
  "\<exists>c sent. controller_run [Ev (KEYDOWN K_UP), Frame 16, Frame 16] = (c, sent) \<and> count_list sent ROTATE \<le> 1"
proof -
  obtain c sent where "controller_run [Ev (KEYDOWN K_UP), Frame 16, Frame 16] = (c, sent)" by fastforce
  with no_phantom_moves [OF this] show ?thesis by auto
qed



text \<open>
  C23: a hard drop ends the input of the piece: the frame that sees the drop key sends \<open>DROP\<close>
  last and releases every key, so later frames send nothing until a key goes down again.
\<close>

theorem drop_releases_keys:
  assumes "controller_update dt c = (c', ms)" "drop_pressed c"
  shows "last ms = DROP \<and> count_list ms DROP = 1 \<and> controller_update dt' c' = (c', [])"
proof -
  note f = controller_update_fields [OF assms(1)]
  have "\<not> pressed (key_left c')" "\<not> pressed (key_right c')" "\<not> pressed (key_down c')"
    using assms(2) by (simp_all add: f(2-4))
  with f(5,6) have "controller_update dt' c' = (c', [])"
    by (simp add: controller_update_def send_move_handler_def add_time_def send_repeat_def)
  with assms(2) update_counts(2) [OF assms(1)] show ?thesis unfolding f(1) by simp
qed

theorem drop_releases_keys_witness:
  "\<exists>c' ms. controller_update 16 (TetrisController\<lparr>key_left := released\<lparr>pressed := True\<rparr>, drop_pressed := True\<rparr>)
      = (c', ms) \<and> last ms = DROP \<and> controller_update 16 c' = (c', [])"
proof -
  let ?c = "TetrisController\<lparr>key_left := released\<lparr>pressed := True\<rparr>, drop_pressed := True\<rparr>"
  obtain c' ms where u: "controller_update 16 ?c = (c', ms)" by fastforce
  from drop_releases_keys [OF u, of 16] u show ?thesis by simp
qed

end
