(* ===== verification/Utf8.thy ===== *)
theory Utf8
  imports Tetris_Prelude "HOL-Library.Word"
begin

text \<open>
  The two UTF-8 conversions of Python that the packet code uses: \<open>str.encode("utf-8")\<close>, which
  raises on surrogates, and \<open>bytes.decode("utf-8", errors="ignore")\<close>, which drops each
  maximal ill-formed subsequence. A string is the list of its code points.
\<close>

type_synonym byte = "8 word"
type_synonym bytes = "byte list"
type_synonym ustring = "nat list"

subsection \<open>Encoding and decoding over numbers\<close>

definition scalar :: "nat \<Rightarrow> bool" where
  "scalar c \<longleftrightarrow> c < 0x110000 \<and> \<not> (0xD800 \<le> c \<and> c < 0xE000)"

definition utf8_char :: "nat \<Rightarrow> nat list" where
  "utf8_char c =
     (if c < 0x80 then [c]
      else if c < 0x800 then [0xC0 + c div 64, 0x80 + c mod 64]
      else if c < 0x10000 then [0xE0 + c div 4096, 0x80 + c div 64 mod 64, 0x80 + c mod 64]
      else [0xF0 + c div 262144, 0x80 + c div 4096 mod 64, 0x80 + c div 64 mod 64, 0x80 + c mod 64])"

definition cont :: "nat \<Rightarrow> bool" where
  "cont b \<longleftrightarrow> 0x80 \<le> b \<and> b < 0xC0"

text \<open>The second bytes that may follow a lead byte of a three or four byte sequence.\<close>

definition second_ok :: "nat \<Rightarrow> nat \<Rightarrow> bool" where
  "second_ok lead b \<longleftrightarrow> cont b \<and> (lead = 0xE0 \<longrightarrow> 0xA0 \<le> b) \<and> (lead = 0xED \<longrightarrow> b < 0xA0) \<and>
     (lead = 0xF0 \<longrightarrow> 0x90 \<le> b) \<and> (lead = 0xF4 \<longrightarrow> b < 0x90)"

text \<open>
  One step of the decoder on a non-empty input: the decoded code points (none for an ill-formed
  subsequence) and the number of bytes used.
\<close>

definition utf8_step :: "nat list \<Rightarrow> nat list \<times> nat" where
  "utf8_step bs = (case bs of [] \<Rightarrow> ([], 1) | b0 # rest \<Rightarrow>
     if b0 < 0x80 then ([b0], 1)
     else if 0xC2 \<le> b0 \<and> b0 < 0xE0 then
       (case rest of b1 # _ \<Rightarrow> if cont b1 then ([(b0 - 0xC0) * 64 + (b1 - 0x80)], 2) else ([], 1)
        | [] \<Rightarrow> ([], 1))
     else if 0xE0 \<le> b0 \<and> b0 < 0xF0 then
       (case rest of b1 # rest' \<Rightarrow>
          if second_ok b0 b1 then
            (case rest' of b2 # _ \<Rightarrow>
               if cont b2 then ([(b0 - 0xE0) * 4096 + (b1 - 0x80) * 64 + (b2 - 0x80)], 3) else ([], 2)
             | [] \<Rightarrow> ([], 2))
          else ([], 1)
        | [] \<Rightarrow> ([], 1))
     else if 0xF0 \<le> b0 \<and> b0 < 0xF5 then
       (case rest of b1 # rest' \<Rightarrow>
          if second_ok b0 b1 then
            (case rest' of b2 # rest'' \<Rightarrow>
               if cont b2 then
                 (case rest'' of b3 # _ \<Rightarrow>
                    if cont b3 then ([(b0 - 0xF0) * 262144 + (b1 - 0x80) * 4096 + (b2 - 0x80) * 64 + (b3 - 0x80)], 4)
                    else ([], 3)
                  | [] \<Rightarrow> ([], 3))
               else ([], 2)
             | [] \<Rightarrow> ([], 2))
          else ([], 1)
        | [] \<Rightarrow> ([], 1))
     else ([], 1))"

lemma utf8_step_pos: "0 < snd (utf8_step bs)"
  by (auto simp: utf8_step_def split: list.split)

function utf8_dec :: "nat list \<Rightarrow> ustring" where
  "utf8_dec bs = (if bs = [] then [] else
     fst (utf8_step bs) @ utf8_dec (drop (snd (utf8_step bs)) bs))"
  by pat_completeness auto
termination
  by (relation "measure length") (auto simp: utf8_step_pos)

declare utf8_dec.simps [simp del]

subsection \<open>The Python operations\<close>

definition str_encode :: "ustring \<Rightarrow> bytes py" where
  "str_encode s = (if list_all scalar s then Inr (map of_nat (concat (map utf8_char s))) else Inl UnicodeError)"

definition decode_ignore :: "bytes \<Rightarrow> ustring" where
  "decode_ignore bs = utf8_dec (map unat bs)"

subsection \<open>Lemmas\<close>

lemma utf8_dec_Nil [simp]: "utf8_dec [] = []"
  by (simp add: utf8_dec.simps)

lemma utf8_char_length: "1 \<le> length (utf8_char c) \<and> length (utf8_char c) \<le> 4"
  by (simp add: utf8_char_def)

lemma utf8_char_length_bmp: "c < 0x10000 \<Longrightarrow> length (utf8_char c) \<le> 3"
  by (simp add: utf8_char_def)

lemma utf8_char_byte: "scalar c \<Longrightarrow> b \<in> set (utf8_char c) \<Longrightarrow> b < 256"
  by (auto simp: utf8_char_def scalar_def split: if_splits)

lemma utf8_char_zero: "0 \<in> set (utf8_char c) \<longleftrightarrow> c = 0"
  by (auto simp: utf8_char_def)

text \<open>The digits of a code point in base 64.\<close>

lemma base64_digits:
  fixes c :: nat
  obtains a b d where "c = a * 4096 + b * 64 + d" "b < 64" "d < 64"
    "c div 64 = a * 64 + b" "c div 64 mod 64 = b" "c mod 64 = d" "c div 4096 = a"
proof
  have hi: "c div 64 = c div 4096 * 64 + c div 64 mod 64"
  proof -
    have "c div 64 div 64 = c div 4096" by (simp add: div_mult2_eq [symmetric])
    with div_mult_mod_eq [of "c div 64" 64] show ?thesis by (simp only:)
  qed
  then show "c div 64 = c div 4096 * 64 + c div 64 mod 64" .
  have "c = x * 4096 + y * 64 + z" if "c = q * 64 + z" "q = x * 64 + y" for q x y z :: nat
    using that by simp
  from this [OF _ hi] show "c = c div 4096 * 4096 + c div 64 mod 64 * 64 + c mod 64" by simp
qed simp_all

lemma utf8_step_char:
  assumes "scalar c"
  shows "utf8_step (utf8_char c @ bs) = ([c], length (utf8_char c))"
proof -
  obtain a b d where abd: "c = a * 4096 + b * 64 + d" "b < 64" "d < 64"
    "c div 64 = a * 64 + b" "c div 64 mod 64 = b" "c mod 64 = d" "c div 4096 = a"
    by (rule base64_digits)
  consider "c < 0x80" | "0x80 \<le> c" "c < 0x800" | "0x800 \<le> c" "c < 0x10000" | "0x10000 \<le> c"
    by linarith
  then show ?thesis
  proof cases
    case 1
    then show ?thesis by (simp add: utf8_char_def utf8_step_def)
  next
    case 2
    with abd(1) have "a = 0" by simp
    with 2 abd show ?thesis by (simp add: utf8_char_def utf8_step_def cont_def)
  next
    case 3
    with abd(1) have "a < 16" by simp
    moreover have "a = 0 \<longrightarrow> 32 \<le> b" using 3(1) abd(1-3) by auto
    moreover have "a = 13 \<longrightarrow> b < 32" using assms abd(1-3) unfolding scalar_def by auto
    ultimately show ?thesis using 3 abd
      by (simp add: utf8_char_def utf8_step_def cont_def second_ok_def)
  next
    case 4
    obtain a' b' where ab: "a = a' * 64 + b'" "b' < 64" "a div 64 = a'" "a mod 64 = b'"
      by (metis div_mult_mod_eq mod_less_divisor zero_less_numeral)
    have "c div 262144 = a'" using abd(7) ab(3) by (simp add: div_mult2_eq [symmetric])
    moreover have "a' < 5" "a' = 0 \<longrightarrow> 16 \<le> b'" "a' = 4 \<longrightarrow> b' < 16"
      using assms 4 abd(1-3) ab(1,2) unfolding scalar_def by auto
    ultimately show ?thesis using 4 abd ab
      by (simp add: utf8_char_def utf8_step_def cont_def second_ok_def)
  qed
qed

lemma utf8_step_partial:
  assumes "scalar c" "0 < n" "n < length (utf8_char c)"
  shows "utf8_step (take n (utf8_char c)) = ([], n)"
proof -
  obtain a b d where abd: "c = a * 4096 + b * 64 + d" "b < 64" "d < 64"
    "c div 64 = a * 64 + b" "c div 64 mod 64 = b" "c mod 64 = d" "c div 4096 = a"
    by (rule base64_digits)
  consider "c < 0x80" | "0x80 \<le> c" "c < 0x800" | "0x800 \<le> c" "c < 0x10000" | "0x10000 \<le> c"
    by linarith
  then show ?thesis
  proof cases
    case 1
    with assms(2,3) show ?thesis by (simp add: utf8_char_def)
  next
    case 2
    with assms(2,3) have "n = 1" by (simp add: utf8_char_def)
    moreover from 2 abd(1) have "a = 0" by simp
    ultimately show ?thesis using 2 abd by (simp add: utf8_char_def utf8_step_def cont_def)
  next
    case 3
    with abd(1) have "a < 16" by simp
    moreover have "a = 0 \<longrightarrow> 32 \<le> b" using 3(1) abd(1-3) by auto
    moreover have "a = 13 \<longrightarrow> b < 32" using assms abd(1-3) unfolding scalar_def by auto
    moreover have "n = 1 \<or> n = 2" using 3 assms(2,3) by (simp add: utf8_char_def) arith
    ultimately show ?thesis using 3 abd
      by (auto simp: utf8_char_def utf8_step_def cont_def second_ok_def numeral_2_eq_2 numeral_3_eq_3)
  next
    case 4
    obtain a' b' where ab: "a = a' * 64 + b'" "b' < 64" "a div 64 = a'" "a mod 64 = b'"
      by (metis div_mult_mod_eq mod_less_divisor zero_less_numeral)
    have "c div 262144 = a'" using abd(7) ab(3) by (simp add: div_mult2_eq [symmetric])
    moreover have "a' < 5" "a' = 0 \<longrightarrow> 16 \<le> b'" "a' = 4 \<longrightarrow> b' < 16"
      using assms 4 abd(1-3) ab(1,2) unfolding scalar_def by auto
    ultimately have "n = 1 \<Longrightarrow> ?thesis" "n = 2 \<Longrightarrow> ?thesis" "n = 3 \<Longrightarrow> ?thesis" using 4 abd ab
      by (simp_all add: utf8_char_def utf8_step_def cont_def second_ok_def)
    moreover have "n = 1 \<or> n = 2 \<or> n = 3" using 4 assms(2,3) by (simp add: utf8_char_def) arith
    ultimately show ?thesis by blast
  qed
qed

lemma utf8_dec_char: "scalar c \<Longrightarrow> utf8_dec (utf8_char c @ bs) = c # utf8_dec bs"
  using utf8_char_length [of c]
  by (subst utf8_dec.simps) (auto simp: utf8_step_char)

lemma utf8_dec_partial:
  assumes "scalar c" "n < length (utf8_char c)"
  shows "utf8_dec (take n (utf8_char c)) = []"
proof (cases "n = 0")
  case False
  with assms utf8_step_partial [OF assms(1), of n] show ?thesis by (subst utf8_dec.simps) simp
qed simp

text \<open>Decoding the first \<open>n\<close> bytes of an encoded string gives the characters that fit whole.\<close>

fun fit :: "nat \<Rightarrow> ustring \<Rightarrow> ustring" where
  "fit n [] = []"
| "fit n (c # s) = (if length (utf8_char c) \<le> n then c # fit (n - length (utf8_char c)) s else [])"

lemma utf8_dec_take:
  "list_all scalar s \<Longrightarrow> utf8_dec (take n (concat (map utf8_char s))) = fit n s"
  by (induction s arbitrary: n) (auto simp: utf8_dec_char utf8_dec_partial not_le)

lemma utf8_dec_encode:
  assumes "list_all scalar s"
  shows "utf8_dec (concat (map utf8_char s)) = s"
  using assms by (induction s) (auto simp: utf8_dec_char)

lemma fit_prefix: "\<exists>k. fit n s = take k s"
proof (induction s arbitrary: n)
  case (Cons c s)
  from Cons.IH [of "n - length (utf8_char c)"] obtain k where "fit (n - length (utf8_char c)) s = take k s" ..
  then have "fit n (c # s) = take (if length (utf8_char c) \<le> n then Suc k else 0) (c # s)" by simp
  then show ?case by blast
qed simp

lemma fit_all: "length (concat (map utf8_char s)) \<le> n \<Longrightarrow> fit n s = s"
  by (induction s arbitrary: n) auto

lemma bmp_encode_length:
  "\<forall>c \<in> set s. c < 0x10000 \<Longrightarrow> length (concat (map utf8_char s)) \<le> 3 * length s"
proof (induction s)
  case (Cons c s)
  with utf8_char_length_bmp [of c] show ?case by simp
qed simp

lemma unat_of_nat_byte: "b < 256 \<Longrightarrow> unat (of_nat b :: byte) = b"
  by (simp add: unat_of_nat take_bit_eq_mod)

lemma encoded_bytes: "list_all scalar s \<Longrightarrow> b \<in> set (concat (map utf8_char s)) \<Longrightarrow> b < 256"
  using utf8_char_byte by (fastforce simp: list_all_iff)

lemma map_unat_encoded:
  "\<forall>b \<in> set bs. b < 256 \<Longrightarrow> map unat (map of_nat bs :: bytes) = bs"
  by (induction bs) (auto simp: unat_of_nat_byte)

lemma decode_ignore_encode:
  assumes "str_encode s = Inr bs"
  shows "decode_ignore bs = s"
proof -
  from assms have s: "list_all scalar s" "bs = map of_nat (concat (map utf8_char s))"
    by (auto simp: str_encode_def split: if_splits)
  have "map unat bs = concat (map utf8_char s)"
    unfolding s(2) by (rule map_unat_encoded) (use encoded_bytes [OF s(1)] in blast)
  with s(1) show ?thesis by (simp add: decode_ignore_def utf8_dec_encode)
qed

end
