(* ===== verification/Wire.thy ===== *)
theory Wire
  imports Utf8
begin

text \<open>
  The part of Python's \<open>struct\<close> module that \<^verbatim>\<open>client/tetris/net\<close> uses: little-endian
  formats without padding (prefix \<open><\<close>) over the codes \<open>b B H i Q ?\<close> and \<open>Ns\<close>.
  \<open>struct.error\<close> is \<open>StructError\<close>.
\<close>

subsection \<open>Values and codes\<close>

datatype pyval = VInt int | VBool bool | VStr ustring | VBytes bytes

datatype code = Cb | CB | CH | Ci | CQ | Cbool | Cs nat

type_synonym fmt = "code list"

fun code_size :: "code \<Rightarrow> nat" where
  "code_size Cb = 1"
| "code_size CB = 1"
| "code_size CH = 2"
| "code_size Ci = 4"
| "code_size CQ = 8"
| "code_size Cbool = 1"
| "code_size (Cs n) = n"

definition calcsize :: "fmt \<Rightarrow> nat" where
  "calcsize f = sum_list (map code_size f)"

subsection \<open>Integers\<close>

text \<open>
  \<open>k\<close> bytes, the least significant first. \<open>word_of_int\<close> reduces modulo 256 and \<open>div\<close> rounds
  down, so a negative number gets its two's complement.
\<close>

fun enc_le :: "nat \<Rightarrow> int \<Rightarrow> bytes" where
  "enc_le 0 n = []"
| "enc_le (Suc k) n = word_of_int n # enc_le k (n div 256)"

fun dec_le :: "bytes \<Rightarrow> int" where
  "dec_le [] = 0"
| "dec_le (b # bs) = uint b + 256 * dec_le bs"

definition dec_signed :: "bytes \<Rightarrow> int" where
  "dec_signed bs = (let v = dec_le bs; m = 256 ^ length bs in if 2 * v < m then v else v - m)"

text \<open>The range \<open>struct.pack\<close> accepts for an integer code.\<close>

fun int_range :: "code \<Rightarrow> int \<Rightarrow> bool" where
  "int_range Cb n = (- 128 \<le> n \<and> n \<le> 127)"
| "int_range CB n = (0 \<le> n \<and> n \<le> 255)"
| "int_range CH n = (0 \<le> n \<and> n \<le> 65535)"
| "int_range Ci n = (- 2147483648 \<le> n \<and> n \<le> 2147483647)"
| "int_range CQ n = (0 \<le> n \<and> n \<le> 18446744073709551615)"
| "int_range _ n = False"

subsection \<open>Fields\<close>

text \<open>
  \<open>True\<close> and \<open>False\<close> are integers in Python. \<open>Ns\<close> takes bytes only, cuts them to \<open>N\<close> and fills up
  with zero bytes; \<open>?\<close> packs the truth value of any object.
\<close>

fun pack_int :: "code \<Rightarrow> pyval \<Rightarrow> bytes py" where
  "pack_int c (VInt n) = (if int_range c n then Inr (enc_le (code_size c) n) else Inl StructError)"
| "pack_int c (VBool v) = Inr (enc_le (code_size c) (if v then 1 else 0))"
| "pack_int c _ = Inl StructError"

fun truth :: "pyval \<Rightarrow> bool" where
  "truth (VInt n) = (n \<noteq> 0)"
| "truth (VBool v) = v"
| "truth (VStr s) = (s \<noteq> [])"
| "truth (VBytes bs) = (bs \<noteq> [])"

fun pack_str :: "nat \<Rightarrow> pyval \<Rightarrow> bytes py" where
  "pack_str n (VBytes bs) = Inr (take n bs @ replicate (n - length bs) 0)"
| "pack_str n _ = Inl StructError"

fun pack_field :: "code \<Rightarrow> pyval \<Rightarrow> bytes py" where
  "pack_field (Cs n) v = pack_str n v"
| "pack_field Cbool v = Inr [if truth v then 1 else 0]"
| "pack_field c v = pack_int c v"

fun unpack_field :: "code \<Rightarrow> bytes \<Rightarrow> pyval" where
  "unpack_field Cb bs = VInt (dec_signed bs)"
| "unpack_field CB bs = VInt (dec_le bs)"
| "unpack_field CH bs = VInt (dec_le bs)"
| "unpack_field Ci bs = VInt (dec_signed bs)"
| "unpack_field CQ bs = VInt (dec_le bs)"
| "unpack_field Cbool bs = VBool (list_ex (\<lambda>b. b \<noteq> 0) bs)"
| "unpack_field (Cs n) bs = VBytes bs"

subsection \<open>Formats\<close>

fun struct_pack :: "fmt \<Rightarrow> pyval list \<Rightarrow> bytes py" where
  "struct_pack [] [] = Inr []"
| "struct_pack (c # cs) (v # vs) =
     py_bind (pack_field c v) (\<lambda>b. py_bind (struct_pack cs vs) (\<lambda>bs. Inr (b @ bs)))"
| "struct_pack _ _ = Inl StructError"

fun read_fields :: "fmt \<Rightarrow> bytes \<Rightarrow> pyval list" where
  "read_fields [] bs = []"
| "read_fields (c # cs) bs =
     unpack_field c (take (code_size c) bs) # read_fields cs (drop (code_size c) bs)"

definition struct_unpack :: "fmt \<Rightarrow> bytes \<Rightarrow> pyval list py" where
  "struct_unpack f bs = (if length bs = calcsize f then Inr (read_fields f bs) else Inl StructError)"

definition unpack_from :: "fmt \<Rightarrow> bytes \<Rightarrow> nat \<Rightarrow> pyval list py" where
  "unpack_from f bs off = (if off + calcsize f \<le> length bs then Inr (read_fields f (drop off bs))
     else Inl StructError)"

subsection \<open>Integer round trips\<close>

lemma length_enc_le [simp]: "length (enc_le k n) = k"
  by (induction k arbitrary: n) simp_all

lemma dec_enc_le: "dec_le (enc_le k n) = n mod 256 ^ k"
proof (induction k arbitrary: n)
  case (Suc k)
  have "n mod 256 ^ Suc k = 256 * (n div 256 mod 256 ^ k) + n mod 256"
    by (simp add: zmod_zmult2_eq)
  with Suc show ?case by (simp add: uint_word_of_int)
qed simp

lemma dec_le_range: "0 \<le> dec_le bs \<and> dec_le bs < 256 ^ length bs"
proof (induction bs)
  case (Cons b bs)
  have "0 \<le> uint b" "uint b < 256" using uint_lt2p [of b] by simp_all
  with Cons show ?case by simp
qed simp

lemma enc_dec_le: "enc_le (length bs) (dec_le bs) = bs"
proof (induction bs)
  case (Cons b bs)
  have "uint b div 256 = 0" "0 \<le> uint b" "uint b < 256" using uint_lt2p [of b] by simp_all
  then have "(uint b + 256 * dec_le bs) div 256 = dec_le bs" by simp
  moreover have "uint (word_of_int (uint b + 256 * dec_le bs) :: byte) = uint b"
    using \<open>0 \<le> uint b\<close> \<open>uint b < 256\<close> by (subst uint_word_of_int) simp
  then have "word_of_int (uint b + 256 * dec_le bs) = b" by (rule word_uint_eqI)
  ultimately show ?case using Cons by simp
qed simp

lemma dec_signed_enc:
  assumes "- (256 ^ k) \<le> 2 * n" "2 * n < 256 ^ k"
  shows "dec_signed (enc_le k n) = n"
proof (cases "0 \<le> n")
  case True
  with assms(2) have "n mod 256 ^ k = n" by simp
  with assms(2) show ?thesis by (simp add: dec_signed_def dec_enc_le)
next
  case False
  then have "(n + 256 ^ k) mod 256 ^ k = n + 256 ^ k"
    using assms(1) by (intro mod_pos_pos_trivial) linarith+
  then have "n mod 256 ^ k = n + 256 ^ k" by simp
  with assms(1) False show ?thesis by (simp add: dec_signed_def dec_enc_le)
qed

lemma dec_signed_range: "bs \<noteq> [] \<Longrightarrow> - (256 ^ length bs) \<le> 2 * dec_signed bs \<and> 2 * dec_signed bs < 256 ^ length bs"
  using dec_le_range [of bs] by (auto simp: dec_signed_def Let_def)

subsection \<open>Field and format round trips\<close>

text \<open>The values a code carries without loss.\<close>

fun exact_value :: "code \<Rightarrow> pyval \<Rightarrow> bool" where
  "exact_value Cbool (VBool v) = True"
| "exact_value (Cs n) (VBytes bs) = (length bs = n)"
| "exact_value c (VInt n) = int_range c n"
| "exact_value _ _ = False"

text \<open>
  A field codec: packing an admissible value gives exactly \<open>size\<close> bytes, from which unpacking
  gets the value back. The client proves the round trip of whole formats once.
\<close>

locale field_codec =
  fixes pack1 :: "'c \<Rightarrow> 'v \<Rightarrow> bytes py"
    and unpack1 :: "'c \<Rightarrow> bytes \<Rightarrow> 'v"
    and size1 :: "'c \<Rightarrow> nat"
    and exact :: "'c \<Rightarrow> 'v \<Rightarrow> bool"
  assumes pack1_size: "pack1 c v = Inr bs \<Longrightarrow> length bs = size1 c"
    and pack1_exact: "exact c v \<Longrightarrow> \<exists>bs. pack1 c v = Inr bs \<and> unpack1 c bs = v"
begin

lemma pack1_roundtrip:
  assumes "exact c v"
  obtains bs where "pack1 c v = Inr bs" "length bs = size1 c" "unpack1 c bs = v"
  using pack1_exact [OF assms] pack1_size by blast

end

lemma length_pack_int: "pack_int c v = Inr bs \<Longrightarrow> length bs = code_size c"
  by (cases v) (auto split: if_splits)

lemma length_pack_field: "pack_field c v = Inr bs \<Longrightarrow> length bs = code_size c"
  by (cases c; cases v) (auto split: if_splits)

lemma pack_field_exact:
  assumes "exact_value c v"
  shows "\<exists>bs. pack_field c v = Inr bs \<and> unpack_field c bs = v"
proof (cases v)
  case (VInt n)
  show ?thesis
  proof (cases c)
    case Cb
    with VInt assms dec_signed_enc [of 1 n] show ?thesis by auto
  next
    case CB
    with VInt assms show ?thesis by (auto simp: dec_enc_le simp del: enc_le.simps dec_le.simps)
  next
    case CH
    with VInt assms show ?thesis by (auto simp: dec_enc_le simp del: enc_le.simps dec_le.simps)
  next
    case Ci
    with VInt assms dec_signed_enc [of 4 n] show ?thesis by auto
  next
    case CQ
    with VInt assms show ?thesis by (auto simp: dec_enc_le simp del: enc_le.simps dec_le.simps)
  qed (use VInt assms in auto)
qed (use assms in \<open>cases c; auto\<close>)+

interpretation field: field_codec pack_field unpack_field code_size exact_value
  by unfold_locales (auto intro: length_pack_field pack_field_exact)

lemma struct_pack_length: "struct_pack f vs = Inr bs \<Longrightarrow> length bs = calcsize f"
  by (induction f vs arbitrary: bs rule: struct_pack.induct)
    (auto simp: calcsize_def py_bind_eq_Inr dest: field.pack1_size)

lemma struct_pack_count: "struct_pack f vs = Inr bs \<Longrightarrow> length vs = length f"
  by (induction f vs arbitrary: bs rule: struct_pack.induct) (auto simp: py_bind_eq_Inr)

lemma struct_pack_exact:
  "list_all2 exact_value f vs \<Longrightarrow> \<exists>bs. struct_pack f vs = Inr bs \<and> (\<forall>rest. read_fields f (bs @ rest) = vs)"
proof (induction f vs rule: list_all2_induct)
  case Nil
  then show ?case by simp
next
  case (Cons c cs v vs)
  from Cons.hyps(1) obtain b where b: "pack_field c v = Inr b" "length b = code_size c" "unpack_field c b = v"
    by (rule field.pack1_roundtrip)
  from Cons.IH obtain bs where bs: "struct_pack cs vs = Inr bs" "\<And>rest. read_fields cs (bs @ rest) = vs"
    by blast
  with b show ?case by auto
qed

lemma length_read_fields [simp]: "length (read_fields f bs) = length f"
  by (induction f arbitrary: bs) simp_all

lemma read_fields_append:
  "read_fields (f1 @ f2) bs = read_fields f1 bs @ read_fields f2 (drop (calcsize f1) bs)"
  by (induction f1 arbitrary: bs) (auto simp: calcsize_def add.commute)

lemma calcsize_append [simp]: "calcsize (f1 @ f2) = calcsize f1 + calcsize f2"
  by (simp add: calcsize_def)

lemma calcsize_simps [simp]: "calcsize [] = 0" "calcsize (c # f) = code_size c + calcsize f"
  by (simp_all add: calcsize_def)

text \<open>Every byte string of the right length is the packing of what it unpacks to (no \<open>?\<close> code).\<close>

lemma unpack_field_exact:
  assumes "length bs = code_size c" "c \<noteq> Cbool"
  shows "exact_value c (unpack_field c bs)"
  using assms dec_le_range [of bs] dec_signed_range [of bs]
  by (cases c; cases "bs = []") auto

lemma struct_roundtrip:
  assumes "list_all2 exact_value f vs"
  shows "\<exists>bs. struct_pack f vs = Inr bs \<and> length bs = calcsize f \<and> struct_unpack f bs = Inr vs"
proof -
  from struct_pack_exact [OF assms] obtain bs where
    "struct_pack f vs = Inr bs" "\<forall>rest. read_fields f (bs @ rest) = vs" by blast
  moreover from this(2) have "read_fields f bs = vs" by (metis append_Nil2)
  ultimately show ?thesis using struct_pack_length [of f vs bs] by (simp add: struct_unpack_def)
qed

end
