(* ===== verification/Packets.thy ===== *)
theory Packets
  imports Wire
begin

text \<open>
  The packets of \<^verbatim>\<open>client/tetris/net\<close>: the type codes (packet_types.py), the packet
  classes with their fields and struct formats (packet_structs.py), the registry
  (packet_registry.py), and the conversions between an instance and its bytes
  (\<open>RecvPacketStruct\<close>, \<open>SendPacketStruct\<close>, \<open>PacketManager.bytes_to_struct\<close>).
\<close>

subsection \<open>Type codes\<close>

definition S2C_ERROR :: int where "S2C_ERROR = 0"
definition S2C_LOGIN :: int where "S2C_LOGIN = 1"
definition C2S_LOGIN :: int where "C2S_LOGIN = 2"
definition S2C_MESSAGE :: int where "S2C_MESSAGE = 3"
definition C2S_MESSAGE :: int where "C2S_MESSAGE = 4"
definition S2C_DISCONNECT :: int where "S2C_DISCONNECT = 7"
definition C2S_DISCONNECT :: int where "C2S_DISCONNECT = 8"
definition C2S_ADD_OPEN_ROOM :: int where "C2S_ADD_OPEN_ROOM = 9"
definition S2C_ADD_OPEN_ROOM :: int where "S2C_ADD_OPEN_ROOM = 10"
definition C2S_ADD_LOCK_ROOM :: int where "C2S_ADD_LOCK_ROOM = 11"
definition S2C_ADD_LOCK_ROOM :: int where "S2C_ADD_LOCK_ROOM = 12"
definition C2S_JOIN_OPEN_ROOM :: int where "C2S_JOIN_OPEN_ROOM = 13"
definition S2C_ADD_USER :: int where "S2C_ADD_USER = 14"
definition C2S_DELETE_USER :: int where "C2S_DELETE_USER = 15"
definition S2C_DELETE_USER :: int where "S2C_DELETE_USER = 16"
definition C2S_READY :: int where "C2S_READY = 17"
definition S2C_READY :: int where "S2C_READY = 18"
definition C2S_START :: int where "C2S_START = 19"
definition S2C_SINGLE_START :: int where "S2C_SINGLE_START = 20"
definition C2S_KICK :: int where "C2S_KICK = 21"
definition S2C_KICK :: int where "S2C_KICK = 22"
definition C2S_MOVE :: int where "C2S_MOVE = 23"
definition S2C_MOVE :: int where "S2C_MOVE = 24"
definition S2C_SPAWN :: int where "S2C_SPAWN = 25"
definition S2C_GAMEOVER :: int where "S2C_GAMEOVER = 27"
definition S2C_GAMEEND :: int where "S2C_GAMEEND = 29"
definition S2C_CLEARLINE :: int where "S2C_CLEARLINE = 31"
definition S2C_FIX :: int where "S2C_FIX = 33"
definition S2C_ADDLINE :: int where "S2C_ADDLINE = 35"
definition S2C_UPDATE_SCORE :: int where "S2C_UPDATE_SCORE = 37"
definition S2C_MULTI_START :: int where "S2C_MULTI_START = 39"
definition S2C_MATCH_RECORD :: int where "S2C_MATCH_RECORD = 41"
definition S2C_UPDATE_HOST :: int where "S2C_UPDATE_HOST = 43"
definition C2S_GIVEUP :: int where "C2S_GIVEUP = 45"
definition C2S_REQUEST_ROOM_LIST :: int where "C2S_REQUEST_ROOM_LIST = 47"
definition S2C_ROOM_INFO :: int where "S2C_ROOM_INFO = 49"
definition C2S_JOIN_LOCK_ROOM :: int where "C2S_JOIN_LOCK_ROOM = 50"
definition C2S_FAST_MATCHING :: int where "C2S_FAST_MATCHING = 51"
definition C2S_REQUEST_FRIEND :: int where "C2S_REQUEST_FRIEND = 52"
definition C2S_DELETE_FRIEND :: int where "C2S_DELETE_FRIEND = 53"
definition C2S_ACCEPT_FRIEND :: int where "C2S_ACCEPT_FRIEND = 54"
definition S2C_REQUEST_FRIEND :: int where "S2C_REQUEST_FRIEND = 55"
definition S2C_DELETE_FRIEND :: int where "S2C_DELETE_FRIEND = 56"
definition S2C_ADD_FRIEND :: int where "S2C_ADD_FRIEND = 57"
definition C2S_REQUEST_LOBBY_USER_LIST :: int where "C2S_REQUEST_LOBBY_USER_LIST = 58"
definition S2C_LOBBY_USER_INFO :: int where "S2C_LOBBY_USER_INFO = 59"
definition C2S_REQUEST_FRIEND_LIST :: int where "C2S_REQUEST_FRIEND_LIST = 60"
definition S2C_FRIEND_INFO :: int where "S2C_FRIEND_INFO = 61"
definition C2S_REQUEST_RANKING :: int where "C2S_REQUEST_RANKING = 62"
definition S2C_RANKING_INFO :: int where "S2C_RANKING_INFO = 63"
definition S2C_INFO :: int where "S2C_INFO = 100"

lemmas packet_types =
  S2C_ERROR_def S2C_LOGIN_def C2S_LOGIN_def S2C_MESSAGE_def
  C2S_MESSAGE_def S2C_DISCONNECT_def C2S_DISCONNECT_def C2S_ADD_OPEN_ROOM_def
  S2C_ADD_OPEN_ROOM_def C2S_ADD_LOCK_ROOM_def S2C_ADD_LOCK_ROOM_def C2S_JOIN_OPEN_ROOM_def
  S2C_ADD_USER_def C2S_DELETE_USER_def S2C_DELETE_USER_def C2S_READY_def
  S2C_READY_def C2S_START_def S2C_SINGLE_START_def C2S_KICK_def
  S2C_KICK_def C2S_MOVE_def S2C_MOVE_def S2C_SPAWN_def
  S2C_GAMEOVER_def S2C_GAMEEND_def S2C_CLEARLINE_def S2C_FIX_def
  S2C_ADDLINE_def S2C_UPDATE_SCORE_def S2C_MULTI_START_def S2C_MATCH_RECORD_def
  S2C_UPDATE_HOST_def C2S_GIVEUP_def C2S_REQUEST_ROOM_LIST_def S2C_ROOM_INFO_def
  C2S_JOIN_LOCK_ROOM_def C2S_FAST_MATCHING_def C2S_REQUEST_FRIEND_def C2S_DELETE_FRIEND_def
  C2S_ACCEPT_FRIEND_def S2C_REQUEST_FRIEND_def S2C_DELETE_FRIEND_def S2C_ADD_FRIEND_def
  C2S_REQUEST_LOBBY_USER_LIST_def S2C_LOBBY_USER_INFO_def C2S_REQUEST_FRIEND_LIST_def S2C_FRIEND_INFO_def
  C2S_REQUEST_RANKING_def S2C_RANKING_INFO_def S2C_INFO_def

subsection \<open>Classes\<close>

text \<open>
  A packet class: its dataclass fields after \<open>header\<close> with annotation and default, its \<open>FMT\<close>, and
  whether it derives from \<open>RecvPacketStruct\<close> (only those have \<open>fill_data\<close>).
\<close>

datatype annotation = TInt | TStr | TBool | TBytes

type_synonym field = "string \<times> annotation \<times> pyval"

record packet_class =
  cls_fields :: "field list"
  cls_fmt :: fmt
  cls_recv :: bool

definition MAX_INPUT :: nat where "MAX_INPUT = 16"
definition MAX_USER_ID :: nat where "MAX_USER_ID = 16 * 3"
definition MAX_USER_PASSWORD :: nat where "MAX_USER_PASSWORD = 16 * 3"
definition MAX_USER_NAME :: nat where "MAX_USER_NAME = 16 * 3"
definition MAX_ROOM_NAME :: nat where "MAX_ROOM_NAME = 16 * 3"
definition MAX_ROOM_PASSWORD :: nat where "MAX_ROOM_PASSWORD = 16 * 3"
definition MAX_CHAT_INPUT :: nat where "MAX_CHAT_INPUT = 256"
definition MAX_CHAT_BYTES :: nat where "MAX_CHAT_BYTES = MAX_CHAT_INPUT * 3"

lemmas packet_limits = MAX_INPUT_def MAX_USER_ID_def MAX_USER_PASSWORD_def MAX_USER_NAME_def
  MAX_ROOM_NAME_def MAX_ROOM_PASSWORD_def MAX_CHAT_INPUT_def MAX_CHAT_BYTES_def

definition HEADER_FMT :: fmt where "HEADER_FMT = [CH, CB]"

definition HEADER_SIZE :: nat where "HEADER_SIZE = calcsize HEADER_FMT"

definition recv_class :: "field list \<Rightarrow> fmt \<Rightarrow> packet_class" where
  "recv_class fs body = \<lparr>cls_fields = fs, cls_fmt = HEADER_FMT @ body, cls_recv = True\<rparr>"

definition ingame_class :: "field list \<Rightarrow> fmt \<Rightarrow> packet_class" where
  "ingame_class fs body = recv_class ((''id'', TInt, VInt (-1)) # fs) (Ci # body)"

definition send_class :: "field list \<Rightarrow> fmt \<Rightarrow> packet_class" where
  "send_class fs body = \<lparr>cls_fields = fs, cls_fmt = HEADER_FMT @ body, cls_recv = False\<rparr>"

lemmas class_makers = recv_class_def ingame_class_def send_class_def HEADER_FMT_def

definition S2C_ERROR_PACKET :: packet_class where
  "S2C_ERROR_PACKET = recv_class
     [(''error_code'', TInt, VInt (-1))]
     [Ci]"

definition S2C_LOGIN_PACKET :: packet_class where
  "S2C_LOGIN_PACKET = recv_class
     [(''id'', TInt, VInt (-1)), (''max_score'', TInt, VInt (-1)), (''win_count'', TInt, VInt
      (-1)), (''lose_count'', TInt, VInt (-1)), (''user_name'', TStr, VStr [])]
     [Ci, Ci, Ci, Ci, Cs MAX_USER_NAME]"

definition S2C_MESSAGE_PACKET :: packet_class where
  "S2C_MESSAGE_PACKET = recv_class
     [(''id'', TInt, VInt (-1)), (''user_name'', TStr, VStr []), (''message'', TStr, VStr [])]
     [Ci, Cs MAX_USER_NAME]"

definition S2C_DISCONNECT_PACKET :: packet_class where
  "S2C_DISCONNECT_PACKET = recv_class
     [(''id'', TInt, VInt (-1))]
     [Ci]"

definition S2C_ADD_OPEN_ROOM_PACKET :: packet_class where
  "S2C_ADD_OPEN_ROOM_PACKET = recv_class
     [(''room_key'', TInt, VInt 0), (''max_user'', TInt, VInt (-1)), (''room_name'', TStr, VStr [])]
     [CQ, Cb, Cs MAX_ROOM_NAME]"

definition S2C_ADD_LOCK_ROOM_PACKET :: packet_class where
  "S2C_ADD_LOCK_ROOM_PACKET = recv_class
     [(''room_key'', TInt, VInt 0), (''max_user'', TInt, VInt (-1)), (''room_name'', TStr, VStr
      []), (''room_password'', TStr, VStr [])]
     [CQ, Cb, Cs MAX_ROOM_NAME, Cs MAX_ROOM_PASSWORD]"

definition S2C_ADD_USER_PACKET :: packet_class where
  "S2C_ADD_USER_PACKET = recv_class
     [(''id'', TInt, VInt (-1)), (''name'', TStr, VStr [])]
     [Ci, Cs MAX_USER_NAME]"

definition S2C_DELETE_USER_PACKET :: packet_class where
  "S2C_DELETE_USER_PACKET = recv_class
     [(''id'', TInt, VInt (-1))]
     [Ci]"

definition S2C_READY_PACKET :: packet_class where
  "S2C_READY_PACKET = recv_class
     [(''id'', TInt, VInt (-1)), (''is_ready'', TBool, VBool False)]
     [Ci, Cbool]"

definition S2C_SINGLE_START_PACKET :: packet_class where
  "S2C_SINGLE_START_PACKET = recv_class
     [(''score'', TInt, VInt (-1))]
     [Ci]"

definition S2C_MULTI_START_PACKET :: packet_class where
  "S2C_MULTI_START_PACKET = recv_class
     []
     []"

definition S2C_KICK_PACKET :: packet_class where
  "S2C_KICK_PACKET = recv_class
     [(''kick_user_id'', TInt, VInt (-1))]
     [Ci]"

definition S2C_MOVE_PACKET :: packet_class where
  "S2C_MOVE_PACKET = ingame_class
     [(''move_type'', TInt, VInt (-1))]
     [Cb]"

definition S2C_SPAWN_PACKET :: packet_class where
  "S2C_SPAWN_PACKET = ingame_class
     [(''tetromino_type'', TInt, VInt (-1)), (''next_tetromino_type'', TInt, VInt (-1)),
      (''spawn_x'', TInt, VInt (-1)), (''spawn_y'', TInt, VInt (-1))]
     [Cb, Cb, Cb, Cb]"

definition S2C_FIX_PACKET :: packet_class where
  "S2C_FIX_PACKET = ingame_class
     [(''fixed_x'', TInt, VInt (-1)), (''fixed_y'', TInt, VInt (-1))]
     [Cb, Cb]"

definition S2C_CLEARLINE_PACKET :: packet_class where
  "S2C_CLEARLINE_PACKET = ingame_class
     [(''line_index'', TInt, VInt (-1)), (''combo'', TInt, VInt (-1)), (''score'', TInt, VInt (-1))]
     [Cb, Cb, Ci]"

definition S2C_ADDLINE_PACKET :: packet_class where
  "S2C_ADDLINE_PACKET = ingame_class
     [(''hole_x'', TInt, VInt (-1))]
     [Cb]"

definition S2C_GAMEOVER_PACKET :: packet_class where
  "S2C_GAMEOVER_PACKET = ingame_class
     []
     []"

definition S2C_GAMEEND_PACKET :: packet_class where
  "S2C_GAMEEND_PACKET = recv_class
     [(''winner_id'', TInt, VInt (-1))]
     [Ci]"

definition S2C_UPDATE_SCORE_PACKET :: packet_class where
  "S2C_UPDATE_SCORE_PACKET = recv_class
     [(''max_score'', TInt, VInt (-1))]
     [Ci]"

definition S2C_MATCH_RECORD_PACKET :: packet_class where
  "S2C_MATCH_RECORD_PACKET = recv_class
     [(''win_count'', TInt, VInt (-1)), (''lose_count'', TInt, VInt (-1))]
     [Ci, Ci]"

definition S2C_UPDATE_HOST_PACKET :: packet_class where
  "S2C_UPDATE_HOST_PACKET = recv_class
     [(''new_host_id'', TInt, VInt (-1))]
     [Ci]"

definition S2C_ROOM_INFO_PACKET :: packet_class where
  "S2C_ROOM_INFO_PACKET = recv_class
     [(''room_key'', TInt, VInt 0), (''room_name'', TStr, VStr []), (''max_user'', TInt, VInt
      (-1)), (''cur_user'', TInt, VInt (-1)), (''is_private'', TBool, VBool False),
      (''is_play'', TBool, VBool False)]
     [CQ, Cs MAX_ROOM_NAME, Cb, Cb, Cbool, Cbool]"

definition S2C_INFO_PACKET :: packet_class where
  "S2C_INFO_PACKET = recv_class
     [(''info_type'', TInt, VInt (-1))]
     [Ci]"

definition S2C_REQUEST_FRIEND_PACKET :: packet_class where
  "S2C_REQUEST_FRIEND_PACKET = recv_class
     [(''requester_id'', TInt, VInt (-1)), (''requester_nickname'', TStr, VStr [])]
     [Ci, Cs MAX_USER_NAME]"

definition S2C_DELETE_FRIEND_PACKET :: packet_class where
  "S2C_DELETE_FRIEND_PACKET = recv_class
     [(''target_id'', TInt, VInt (-1))]
     [Ci]"

definition S2C_ADD_FRIEND_PACKET :: packet_class where
  "S2C_ADD_FRIEND_PACKET = recv_class
     [(''friend_id'', TInt, VInt (-1)), (''friend_nickname'', TStr, VStr [])]
     [Ci, Cs MAX_USER_NAME]"

definition S2C_LOBBY_USER_INFO_PACKET :: packet_class where
  "S2C_LOBBY_USER_INFO_PACKET = recv_class
     [(''user_id'', TInt, VInt (-1)), (''nickname'', TStr, VStr [])]
     [Ci, Cs MAX_USER_NAME]"

definition S2C_FRIEND_INFO_PACKET :: packet_class where
  "S2C_FRIEND_INFO_PACKET = recv_class
     [(''user_id'', TInt, VInt (-1)), (''nickname'', TStr, VStr []), (''is_lobby'', TBool, VBool
      False)]
     [Ci, Cs MAX_USER_NAME, Cbool]"

definition S2C_RANKING_INFO_PACKET :: packet_class where
  "S2C_RANKING_INFO_PACKET = recv_class
     [(''nickname'', TStr, VStr []), (''score'', TInt, VInt (-1))]
     [Cs MAX_USER_NAME, Ci]"

definition C2S_LOGIN_PACKET :: packet_class where
  "C2S_LOGIN_PACKET = send_class
     [(''user_id'', TBytes, VBytes []), (''user_password'', TBytes, VBytes [])]
     [Cs MAX_USER_ID, Cs MAX_USER_PASSWORD]"

definition C2S_MESSAGE_PACKET :: packet_class where
  "C2S_MESSAGE_PACKET = send_class
     []
     []"

definition C2S_DISCONNECT_PACKET :: packet_class where
  "C2S_DISCONNECT_PACKET = send_class
     []
     []"

definition C2S_ADD_OPEN_ROOM_PACKET :: packet_class where
  "C2S_ADD_OPEN_ROOM_PACKET = send_class
     [(''max_user'', TInt, VInt (-1)), (''room_name'', TBytes, VBytes [])]
     [Cb, Cs MAX_ROOM_NAME]"

definition C2S_ADD_LOCK_ROOM_PACKET :: packet_class where
  "C2S_ADD_LOCK_ROOM_PACKET = send_class
     [(''max_user'', TInt, VInt (-1)), (''room_name'', TBytes, VBytes []), (''room_password'',
      TBytes, VBytes [])]
     [Cb, Cs MAX_ROOM_NAME, Cs MAX_ROOM_PASSWORD]"

definition C2S_JOIN_OPEN_ROOM_PACKET :: packet_class where
  "C2S_JOIN_OPEN_ROOM_PACKET = send_class
     [(''room_key'', TInt, VInt 0)]
     [CQ]"

definition C2S_JOIN_LOCK_ROOM_PACKET :: packet_class where
  "C2S_JOIN_LOCK_ROOM_PACKET = send_class
     [(''room_key'', TInt, VInt 0), (''room_password'', TBytes, VBytes [])]
     [CQ, Cs MAX_ROOM_PASSWORD]"

definition C2S_DELETE_USER_PACKET :: packet_class where
  "C2S_DELETE_USER_PACKET = send_class
     []
     []"

definition C2S_READY_PACKET :: packet_class where
  "C2S_READY_PACKET = send_class
     []
     []"

definition C2S_START_PACKET :: packet_class where
  "C2S_START_PACKET = send_class
     []
     []"

definition C2S_KICK_PACKET :: packet_class where
  "C2S_KICK_PACKET = send_class
     [(''kick_user_id'', TInt, VInt (-1))]
     [Ci]"

definition C2S_MOVE_PACKET :: packet_class where
  "C2S_MOVE_PACKET = send_class
     [(''move_type'', TInt, VInt (-1))]
     [Cb]"

definition C2S_GIVEUP_PACKET :: packet_class where
  "C2S_GIVEUP_PACKET = send_class
     []
     []"

definition C2S_REQUEST_ROOM_LIST_PACKET :: packet_class where
  "C2S_REQUEST_ROOM_LIST_PACKET = send_class
     []
     []"

definition C2S_FAST_MATCHING_PACKET :: packet_class where
  "C2S_FAST_MATCHING_PACKET = send_class
     [(''max_user'', TInt, VInt (-1))]
     [Cb]"

definition C2S_REQUEST_FRIEND_PACKET :: packet_class where
  "C2S_REQUEST_FRIEND_PACKET = send_class
     [(''recver_id'', TInt, VInt (-1))]
     [Ci]"

definition C2S_DELETE_FRIEND_PACKET :: packet_class where
  "C2S_DELETE_FRIEND_PACKET = send_class
     [(''target_id'', TInt, VInt (-1))]
     [Ci]"

definition C2S_ACCEPT_FRIEND_PACKET :: packet_class where
  "C2S_ACCEPT_FRIEND_PACKET = send_class
     [(''requester_id'', TInt, VInt (-1))]
     [Ci]"

definition C2S_REQUEST_LOBBY_USER_LIST_PACKET :: packet_class where
  "C2S_REQUEST_LOBBY_USER_LIST_PACKET = send_class
     []
     []"

definition C2S_REQUEST_FRIEND_LIST_PACKET :: packet_class where
  "C2S_REQUEST_FRIEND_LIST_PACKET = send_class
     []
     []"

definition C2S_REQUEST_RANKING_PACKET :: packet_class where
  "C2S_REQUEST_RANKING_PACKET = send_class
     []
     []"

lemmas packet_classes =
  S2C_ERROR_PACKET_def S2C_LOGIN_PACKET_def S2C_MESSAGE_PACKET_def
  S2C_DISCONNECT_PACKET_def S2C_ADD_OPEN_ROOM_PACKET_def S2C_ADD_LOCK_ROOM_PACKET_def
  S2C_ADD_USER_PACKET_def S2C_DELETE_USER_PACKET_def S2C_READY_PACKET_def
  S2C_SINGLE_START_PACKET_def S2C_MULTI_START_PACKET_def S2C_KICK_PACKET_def
  S2C_MOVE_PACKET_def S2C_SPAWN_PACKET_def S2C_FIX_PACKET_def
  S2C_CLEARLINE_PACKET_def S2C_ADDLINE_PACKET_def S2C_GAMEOVER_PACKET_def
  S2C_GAMEEND_PACKET_def S2C_UPDATE_SCORE_PACKET_def S2C_MATCH_RECORD_PACKET_def
  S2C_UPDATE_HOST_PACKET_def S2C_ROOM_INFO_PACKET_def S2C_INFO_PACKET_def
  S2C_REQUEST_FRIEND_PACKET_def S2C_DELETE_FRIEND_PACKET_def S2C_ADD_FRIEND_PACKET_def
  S2C_LOBBY_USER_INFO_PACKET_def S2C_FRIEND_INFO_PACKET_def S2C_RANKING_INFO_PACKET_def
  C2S_LOGIN_PACKET_def C2S_MESSAGE_PACKET_def C2S_DISCONNECT_PACKET_def
  C2S_ADD_OPEN_ROOM_PACKET_def C2S_ADD_LOCK_ROOM_PACKET_def C2S_JOIN_OPEN_ROOM_PACKET_def
  C2S_JOIN_LOCK_ROOM_PACKET_def C2S_DELETE_USER_PACKET_def C2S_READY_PACKET_def
  C2S_START_PACKET_def C2S_KICK_PACKET_def C2S_MOVE_PACKET_def
  C2S_GIVEUP_PACKET_def C2S_REQUEST_ROOM_LIST_PACKET_def C2S_FAST_MATCHING_PACKET_def
  C2S_REQUEST_FRIEND_PACKET_def C2S_DELETE_FRIEND_PACKET_def C2S_ACCEPT_FRIEND_PACKET_def
  C2S_REQUEST_LOBBY_USER_LIST_PACKET_def C2S_REQUEST_FRIEND_LIST_PACKET_def C2S_REQUEST_RANKING_PACKET_def

subsection \<open>Registry\<close>

definition PACKET_REGISTRY :: "(int \<times> packet_class) list" where
  "PACKET_REGISTRY =
    [(S2C_ERROR, S2C_ERROR_PACKET),
     (S2C_LOGIN, S2C_LOGIN_PACKET),
     (C2S_LOGIN, C2S_LOGIN_PACKET),
     (S2C_MESSAGE, S2C_MESSAGE_PACKET),
     (C2S_MESSAGE, C2S_MESSAGE_PACKET),
     (S2C_DISCONNECT, S2C_DISCONNECT_PACKET),
     (C2S_DISCONNECT, C2S_DISCONNECT_PACKET),
     (S2C_ADD_OPEN_ROOM, S2C_ADD_OPEN_ROOM_PACKET),
     (C2S_ADD_OPEN_ROOM, C2S_ADD_OPEN_ROOM_PACKET),
     (S2C_ADD_LOCK_ROOM, S2C_ADD_LOCK_ROOM_PACKET),
     (C2S_ADD_LOCK_ROOM, C2S_ADD_LOCK_ROOM_PACKET),
     (S2C_ADD_USER, S2C_ADD_USER_PACKET),
     (C2S_JOIN_OPEN_ROOM, C2S_JOIN_OPEN_ROOM_PACKET),
     (C2S_JOIN_LOCK_ROOM, C2S_JOIN_LOCK_ROOM_PACKET),
     (S2C_DELETE_USER, S2C_DELETE_USER_PACKET),
     (C2S_DELETE_USER, C2S_DELETE_USER_PACKET),
     (S2C_READY, S2C_READY_PACKET),
     (C2S_READY, C2S_READY_PACKET),
     (S2C_SINGLE_START, S2C_SINGLE_START_PACKET),
     (S2C_MULTI_START, S2C_MULTI_START_PACKET),
     (C2S_START, C2S_START_PACKET),
     (S2C_KICK, S2C_KICK_PACKET),
     (C2S_KICK, C2S_KICK_PACKET),
     (C2S_MOVE, C2S_MOVE_PACKET),
     (S2C_MOVE, S2C_MOVE_PACKET),
     (S2C_SPAWN, S2C_SPAWN_PACKET),
     (S2C_GAMEOVER, S2C_GAMEOVER_PACKET),
     (S2C_GAMEEND, S2C_GAMEEND_PACKET),
     (S2C_CLEARLINE, S2C_CLEARLINE_PACKET),
     (S2C_FIX, S2C_FIX_PACKET),
     (S2C_ADDLINE, S2C_ADDLINE_PACKET),
     (S2C_UPDATE_SCORE, S2C_UPDATE_SCORE_PACKET),
     (S2C_MATCH_RECORD, S2C_MATCH_RECORD_PACKET),
     (S2C_UPDATE_HOST, S2C_UPDATE_HOST_PACKET),
     (C2S_GIVEUP, C2S_GIVEUP_PACKET),
     (C2S_REQUEST_ROOM_LIST, C2S_REQUEST_ROOM_LIST_PACKET),
     (S2C_ROOM_INFO, S2C_ROOM_INFO_PACKET),
     (C2S_FAST_MATCHING, C2S_FAST_MATCHING_PACKET),
     (C2S_REQUEST_FRIEND, C2S_REQUEST_FRIEND_PACKET),
     (C2S_DELETE_FRIEND, C2S_DELETE_FRIEND_PACKET),
     (C2S_ACCEPT_FRIEND, C2S_ACCEPT_FRIEND_PACKET),
     (S2C_REQUEST_FRIEND, S2C_REQUEST_FRIEND_PACKET),
     (S2C_DELETE_FRIEND, S2C_DELETE_FRIEND_PACKET),
     (S2C_ADD_FRIEND, S2C_ADD_FRIEND_PACKET),
     (C2S_REQUEST_LOBBY_USER_LIST, C2S_REQUEST_LOBBY_USER_LIST_PACKET),
     (S2C_LOBBY_USER_INFO, S2C_LOBBY_USER_INFO_PACKET),
     (C2S_REQUEST_FRIEND_LIST, C2S_REQUEST_FRIEND_LIST_PACKET),
     (S2C_FRIEND_INFO, S2C_FRIEND_INFO_PACKET),
     (C2S_REQUEST_RANKING, C2S_REQUEST_RANKING_PACKET),
     (S2C_RANKING_INFO, S2C_RANKING_INFO_PACKET),
     (S2C_INFO, S2C_INFO_PACKET)]"

subsection \<open>Instances\<close>

record packet =
  pkt_class :: packet_class
  pkt_size :: int
  pkt_type :: int
  pkt_body :: "(string \<times> pyval) list"

definition new_packet :: "packet_class \<Rightarrow> packet" where
  "new_packet c = \<lparr>pkt_class = c, pkt_size = -1, pkt_type = -1,
     pkt_body = map (\<lambda>(n, _, d). (n, d)) (cls_fields c)\<rparr>"

definition set_header :: "int \<Rightarrow> int option \<Rightarrow> packet \<Rightarrow> packet" where
  "set_header packet_type packet_size p = p\<lparr>pkt_type := packet_type,
     pkt_size := (case packet_size of Some n \<Rightarrow> n | None \<Rightarrow> int (calcsize (cls_fmt (pkt_class p))))\<rparr>"

text \<open>\<open>data.name = value\<close> on a declared field.\<close>

definition set_field :: "string \<Rightarrow> pyval \<Rightarrow> packet \<Rightarrow> packet" where
  "set_field n v p = p\<lparr>pkt_body := map (\<lambda>(k, w). (k, if k = n then v else w)) (pkt_body p)\<rparr>"

definition attr :: "packet \<Rightarrow> string \<Rightarrow> pyval py" where
  "attr p n = (case map_of (pkt_body p) n of None \<Rightarrow> Inl AttributeError | Some v \<Rightarrow> Inr v)"

definition to_values :: "packet \<Rightarrow> pyval list" where
  "to_values p = [VInt (pkt_size p), VInt (pkt_type p)] @ map snd (pkt_body p)"

text \<open>\<open>int(v)\<close> of the two header values, which are integers for every format that unpacks.\<close>

fun to_int :: "pyval \<Rightarrow> int py" where
  "to_int (VInt n) = Inr n"
| "to_int (VBool b) = Inr (if b then 1 else 0)"
| "to_int (VStr _) = Inl ValueError"
| "to_int (VBytes _) = Inl ValueError"

fun convert :: "annotation \<Rightarrow> pyval \<Rightarrow> pyval" where
  "convert TStr (VBytes bs) = VStr (decode_ignore (takeWhile (\<lambda>b. b \<noteq> 0) bs))"
| "convert _ v = v"

definition fill_data :: "pyval list \<Rightarrow> packet \<Rightarrow> packet py" where
  "fill_data values p =
     (let body_fields = cls_fields (pkt_class p) in
      if \<not> cls_recv (pkt_class p) then Inl AttributeError
      else if length values \<noteq> length body_fields + 2 then Inl ValueError
      else py_bind (to_int (values ! 0)) (\<lambda>size.
           py_bind (to_int (values ! 1)) (\<lambda>type.
             Inr (p\<lparr>pkt_size := size, pkt_type := type,
                    pkt_body := map (\<lambda>((n, t, _), v). (n, convert t v)) (zip body_fields (drop 2 values))\<rparr>))))"

subsection \<open>Bytes to instance and back\<close>

definition struct_to_bytes :: "packet \<Rightarrow> bytes py" where
  "struct_to_bytes p = struct_pack (cls_fmt (pkt_class p)) (to_values p)"

definition unpack_packet :: "int \<Rightarrow> packet_class \<Rightarrow> bytes \<Rightarrow> pyval list py" where
  "unpack_packet packet_size c pkt =
     py_bind (unpack_from (cls_fmt c) pkt 0) (\<lambda>front_values.
       let message_size = packet_size - int (calcsize (cls_fmt c)) in
       if message_size < 0 then Inl StructError
       else py_bind (unpack_from [Cs (nat message_size)] pkt (calcsize (cls_fmt c))) (\<lambda>message_values.
         Inr (front_values @ message_values)))"

definition bytes_to_struct :: "bytes \<Rightarrow> packet py" where
  "bytes_to_struct pkt =
     py_bind (unpack_from HEADER_FMT pkt 0) (\<lambda>hv.
     py_bind (to_int (hv ! 0)) (\<lambda>packet_size.
     py_bind (to_int (hv ! 1)) (\<lambda>packet_type.
     py_bind (dict_get PACKET_REGISTRY packet_type) (\<lambda>c.
     py_bind (if packet_type = S2C_MESSAGE then unpack_packet packet_size c pkt
              else struct_unpack (cls_fmt c) pkt)
       (\<lambda>values. fill_data values (new_packet c))))))"

end
