(* ===== verification/S2C.thy ===== *)
theory S2C
  imports Packets
begin

text \<open>
  Received packets: \<open>s2c\<close> is the typed view of a decoded instance that the handlers of the client
  work on (one constructor per \<open>S2C_*_PACKET\<close> class, one argument per dataclass field), with the
  proof that every instance the decoder delivers has such a view, and the round trip of server
  packets through the decoder.
\<close>

subsection \<open>Typed view\<close>

datatype s2c =
    P_ERROR int
  | P_LOGIN int int int int ustring
  | P_MESSAGE int ustring ustring
  | P_DISCONNECT int
  | P_ADD_OPEN_ROOM int int ustring
  | P_ADD_LOCK_ROOM int int ustring ustring
  | P_ADD_USER int ustring
  | P_DELETE_USER int
  | P_READY int bool
  | P_SINGLE_START int
  | P_MULTI_START
  | P_KICK int
  | P_MOVE int int
  | P_SPAWN int int int int int
  | P_FIX int int int
  | P_CLEARLINE int int int int
  | P_ADDLINE int int
  | P_GAMEOVER int
  | P_GAMEEND int
  | P_UPDATE_SCORE int
  | P_MATCH_RECORD int int
  | P_UPDATE_HOST int
  | P_ROOM_INFO int ustring int int bool bool
  | P_INFO int
  | P_REQUEST_FRIEND int ustring
  | P_DELETE_FRIEND int
  | P_ADD_FRIEND int ustring
  | P_LOBBY_USER_INFO int ustring
  | P_FRIEND_INFO int ustring bool
  | P_RANKING_INFO ustring int

text \<open>Attribute reads with the annotated type.\<close>

definition int_attr :: "packet \<Rightarrow> string \<Rightarrow> (int \<Rightarrow> 'a py) \<Rightarrow> 'a py" where
  "int_attr p n k = py_bind (attr p n) (\<lambda>v. case v of VInt i \<Rightarrow> k i | _ \<Rightarrow> Inl TypeError)"

definition str_attr :: "packet \<Rightarrow> string \<Rightarrow> (ustring \<Rightarrow> 'a py) \<Rightarrow> 'a py" where
  "str_attr p n k = py_bind (attr p n) (\<lambda>v. case v of VStr s \<Rightarrow> k s | _ \<Rightarrow> Inl TypeError)"

definition bool_attr :: "packet \<Rightarrow> string \<Rightarrow> (bool \<Rightarrow> 'a py) \<Rightarrow> 'a py" where
  "bool_attr p n k = py_bind (attr p n) (\<lambda>v. case v of VBool b \<Rightarrow> k b | _ \<Rightarrow> Inl TypeError)"

lemmas typed_attrs = int_attr_def str_attr_def bool_attr_def attr_def

definition VIEWS :: "(int \<times> (packet \<Rightarrow> s2c py)) list" where
  "VIEWS =
    [(S2C_ERROR, \<lambda>p. int_attr p ''error_code'' (\<lambda>a. Inr (P_ERROR a))),
     (S2C_LOGIN, \<lambda>p. int_attr p ''id'' (\<lambda>a. int_attr p ''max_score'' (\<lambda>b.
        int_attr p ''win_count'' (\<lambda>c. int_attr p ''lose_count'' (\<lambda>d.
        str_attr p ''user_name'' (\<lambda>e. Inr (P_LOGIN a b c d e))))))),
     (S2C_MESSAGE, \<lambda>p. int_attr p ''id'' (\<lambda>a. str_attr p ''user_name'' (\<lambda>b.
        str_attr p ''message'' (\<lambda>c. Inr (P_MESSAGE a b c))))),
     (S2C_DISCONNECT, \<lambda>p. int_attr p ''id'' (\<lambda>a. Inr (P_DISCONNECT a))),
     (S2C_ADD_OPEN_ROOM, \<lambda>p. int_attr p ''room_key'' (\<lambda>a. int_attr p ''max_user'' (\<lambda>b.
        str_attr p ''room_name'' (\<lambda>c. Inr (P_ADD_OPEN_ROOM a b c))))),
     (S2C_ADD_LOCK_ROOM, \<lambda>p. int_attr p ''room_key'' (\<lambda>a. int_attr p ''max_user'' (\<lambda>b.
        str_attr p ''room_name'' (\<lambda>c. str_attr p ''room_password'' (\<lambda>d.
        Inr (P_ADD_LOCK_ROOM a b c d)))))),
     (S2C_ADD_USER, \<lambda>p. int_attr p ''id'' (\<lambda>a. str_attr p ''name'' (\<lambda>b. Inr (P_ADD_USER a b)))),
     (S2C_DELETE_USER, \<lambda>p. int_attr p ''id'' (\<lambda>a. Inr (P_DELETE_USER a))),
     (S2C_READY, \<lambda>p. int_attr p ''id'' (\<lambda>a. bool_attr p ''is_ready'' (\<lambda>b. Inr (P_READY a b)))),
     (S2C_SINGLE_START, \<lambda>p. int_attr p ''score'' (\<lambda>a. Inr (P_SINGLE_START a))),
     (S2C_MULTI_START, \<lambda>p. Inr P_MULTI_START),
     (S2C_KICK, \<lambda>p. int_attr p ''kick_user_id'' (\<lambda>a. Inr (P_KICK a))),
     (S2C_MOVE, \<lambda>p. int_attr p ''id'' (\<lambda>a. int_attr p ''move_type'' (\<lambda>b. Inr (P_MOVE a b)))),
     (S2C_SPAWN, \<lambda>p. int_attr p ''id'' (\<lambda>a. int_attr p ''tetromino_type'' (\<lambda>b.
        int_attr p ''next_tetromino_type'' (\<lambda>c. int_attr p ''spawn_x'' (\<lambda>d.
        int_attr p ''spawn_y'' (\<lambda>e. Inr (P_SPAWN a b c d e))))))),
     (S2C_FIX, \<lambda>p. int_attr p ''id'' (\<lambda>a. int_attr p ''fixed_x'' (\<lambda>b. int_attr p ''fixed_y'' (\<lambda>c.
        Inr (P_FIX a b c))))),
     (S2C_CLEARLINE, \<lambda>p. int_attr p ''id'' (\<lambda>a. int_attr p ''line_index'' (\<lambda>b.
        int_attr p ''combo'' (\<lambda>c. int_attr p ''score'' (\<lambda>d. Inr (P_CLEARLINE a b c d)))))),
     (S2C_ADDLINE, \<lambda>p. int_attr p ''id'' (\<lambda>a. int_attr p ''hole_x'' (\<lambda>b. Inr (P_ADDLINE a b)))),
     (S2C_GAMEOVER, \<lambda>p. int_attr p ''id'' (\<lambda>a. Inr (P_GAMEOVER a))),
     (S2C_GAMEEND, \<lambda>p. int_attr p ''winner_id'' (\<lambda>a. Inr (P_GAMEEND a))),
     (S2C_UPDATE_SCORE, \<lambda>p. int_attr p ''max_score'' (\<lambda>a. Inr (P_UPDATE_SCORE a))),
     (S2C_MATCH_RECORD, \<lambda>p. int_attr p ''win_count'' (\<lambda>a. int_attr p ''lose_count'' (\<lambda>b.
        Inr (P_MATCH_RECORD a b)))),
     (S2C_UPDATE_HOST, \<lambda>p. int_attr p ''new_host_id'' (\<lambda>a. Inr (P_UPDATE_HOST a))),
     (S2C_ROOM_INFO, \<lambda>p. int_attr p ''room_key'' (\<lambda>a. str_attr p ''room_name'' (\<lambda>b.
        int_attr p ''max_user'' (\<lambda>c. int_attr p ''cur_user'' (\<lambda>d. bool_attr p ''is_private'' (\<lambda>e.
        bool_attr p ''is_play'' (\<lambda>f. Inr (P_ROOM_INFO a b c d e f)))))))),
     (S2C_INFO, \<lambda>p. int_attr p ''info_type'' (\<lambda>a. Inr (P_INFO a))),
     (S2C_REQUEST_FRIEND, \<lambda>p. int_attr p ''requester_id'' (\<lambda>a.
        str_attr p ''requester_nickname'' (\<lambda>b. Inr (P_REQUEST_FRIEND a b)))),
     (S2C_DELETE_FRIEND, \<lambda>p. int_attr p ''target_id'' (\<lambda>a. Inr (P_DELETE_FRIEND a))),
     (S2C_ADD_FRIEND, \<lambda>p. int_attr p ''friend_id'' (\<lambda>a. str_attr p ''friend_nickname'' (\<lambda>b.
        Inr (P_ADD_FRIEND a b)))),
     (S2C_LOBBY_USER_INFO, \<lambda>p. int_attr p ''user_id'' (\<lambda>a. str_attr p ''nickname'' (\<lambda>b.
        Inr (P_LOBBY_USER_INFO a b)))),
     (S2C_FRIEND_INFO, \<lambda>p. int_attr p ''user_id'' (\<lambda>a. str_attr p ''nickname'' (\<lambda>b.
        bool_attr p ''is_lobby'' (\<lambda>c. Inr (P_FRIEND_INFO a b c))))),
     (S2C_RANKING_INFO, \<lambda>p. str_attr p ''nickname'' (\<lambda>a. int_attr p ''score'' (\<lambda>b.
        Inr (P_RANKING_INFO a b))))]"

definition view :: "packet \<Rightarrow> s2c py" where
  "view p = py_bind (dict_get VIEWS (pkt_type p)) (\<lambda>v. v p)"

subsection \<open>The registry\<close>

text \<open>What every entry of the registry satisfies.\<close>

definition body_fmt :: "packet_class \<Rightarrow> fmt" where
  "body_fmt c = drop 2 (cls_fmt c)"

fun code_fits :: "annotation \<Rightarrow> code \<Rightarrow> bool" where
  "code_fits TStr (Cs _) = True"
| "code_fits TBytes (Cs _) = True"
| "code_fits TBool Cbool = True"
| "code_fits TInt c = (c \<in> {Cb, Ci, CQ})"
| "code_fits _ _ = False"

definition entry_ok :: "int \<times> packet_class \<Rightarrow> bool" where
  "entry_ok = (\<lambda>(t, c). 0 \<le> t \<and> t < 256 \<and> take 2 (cls_fmt c) = HEADER_FMT \<and>
     calcsize (cls_fmt c) < 256 \<and>
     (if t = S2C_MESSAGE then map (\<lambda>(_, a, _). a) (cls_fields c) = [TInt, TStr, TStr] \<and> length (body_fmt c) = 2
      else list_all2 code_fits (map (\<lambda>(_, a, _). a) (cls_fields c)) (body_fmt c)))"

lemma registry_ok: "list_all entry_ok PACKET_REGISTRY"
  by (simp add: PACKET_REGISTRY_def entry_ok_def body_fmt_def packet_classes class_makers packet_limits
      packet_types)

lemma registry_distinct: "distinct (map fst PACKET_REGISTRY)"
  by (simp add: PACKET_REGISTRY_def packet_types)

lemma registry_entry: "map_of PACKET_REGISTRY t = Some c \<Longrightarrow> entry_ok (t, c)"
  using registry_ok by (auto simp: list_all_iff dest: map_of_SomeD)

lemma registry_split:
  assumes "map_of PACKET_REGISTRY t = Some c"
  shows "cls_fmt c = CH # CB # body_fmt c" "3 \<le> calcsize (cls_fmt c)" "calcsize (cls_fmt c) < 256"
    "0 \<le> t" "t < 256"
proof -
  from registry_entry [OF assms] have e: "take 2 (cls_fmt c) = [CH, CB]" "calcsize (cls_fmt c) < 256"
    "0 \<le> t" "t < 256" by (simp_all add: entry_ok_def HEADER_FMT_def)
  then show f: "cls_fmt c = CH # CB # body_fmt c"
    using append_take_drop_id [of 2 "cls_fmt c"] by (simp add: body_fmt_def)
  show "3 \<le> calcsize (cls_fmt c)" unfolding f by simp
qed (use registry_entry [OF assms] in \<open>simp_all add: entry_ok_def\<close>)

subsection \<open>Decoding\<close>

text \<open>The header fields of a byte string of at least three bytes.\<close>

definition frame_size :: "bytes \<Rightarrow> int" where
  "frame_size pkt = dec_le (take 2 pkt)"

definition frame_type :: "bytes \<Rightarrow> int" where
  "frame_type pkt = dec_le (take 1 (drop 2 pkt))"

definition annots :: "packet_class \<Rightarrow> annotation list" where
  "annots c = map (\<lambda>(_, a, _). a) (cls_fields c)"

definition decoded :: "packet_class \<Rightarrow> int \<Rightarrow> int \<Rightarrow> pyval list \<Rightarrow> packet" where
  "decoded c sz t vs = \<lparr>pkt_class = c, pkt_size = sz, pkt_type = t,
     pkt_body = map (\<lambda>((n, a, _), v). (n, convert a v)) (zip (cls_fields c) vs)\<rparr>"

lemma header_read: "3 \<le> length pkt \<Longrightarrow> unpack_from HEADER_FMT pkt 0 = Inr [VInt (frame_size pkt), VInt (frame_type pkt)]"
  by (simp add: unpack_from_def HEADER_FMT_def frame_size_def frame_type_def)

lemma header_short: "length pkt < 3 \<Longrightarrow> bytes_to_struct pkt = Inl StructError"
  by (simp add: bytes_to_struct_def unpack_from_def HEADER_FMT_def)

lemma bytes_to_struct_eq:
  assumes "3 \<le> length pkt"
  shows "bytes_to_struct pkt = (case map_of PACKET_REGISTRY (frame_type pkt) of
     None \<Rightarrow> Inl KeyError
   | Some c \<Rightarrow> py_bind (if frame_type pkt = S2C_MESSAGE then unpack_packet (frame_size pkt) c pkt
        else struct_unpack (cls_fmt c) pkt) (\<lambda>values. fill_data values (new_packet c)))"
  using header_read [OF assms] by (simp add: bytes_to_struct_def dict_get_def split: option.split)

lemma fill_data_values:
  assumes "length vs = length (cls_fields c)"
  shows "fill_data (VInt sz # VInt t # vs) (new_packet c) =
    (if cls_recv c then Inr (decoded c sz t vs) else Inl AttributeError)"
  using assms by (simp add: fill_data_def new_packet_def decoded_def)

lemma read_header_fields:
  assumes "cls_fmt c = CH # CB # body_fmt c" "3 \<le> length pkt"
  shows "read_fields (cls_fmt c) pkt =
    VInt (frame_size pkt) # VInt (frame_type pkt) # read_fields (body_fmt c) (drop 3 pkt)"
  by (subst assms(1)) (simp add: frame_size_def frame_type_def numeral_3_eq_3)

lemma annots_length [simp]: "length (annots c) = length (cls_fields c)"
  by (simp add: annots_def)

lemma registry_counts:
  assumes "map_of PACKET_REGISTRY t = Some c"
  shows "t \<noteq> S2C_MESSAGE \<Longrightarrow> list_all2 code_fits (annots c) (body_fmt c) \<and> length (body_fmt c) = length (cls_fields c)"
    and "t = S2C_MESSAGE \<Longrightarrow> annots c = [TInt, TStr, TStr] \<and> length (body_fmt c) = 2"
  using registry_entry [OF assms]
  by (auto simp: entry_ok_def annots_def [symmetric] dest: list_all2_lengthD)

lemma bytes_to_struct_plain:
  assumes "3 \<le> length pkt" "map_of PACKET_REGISTRY (frame_type pkt) = Some c" "frame_type pkt \<noteq> S2C_MESSAGE"
  shows "bytes_to_struct pkt =
    (if length pkt \<noteq> calcsize (cls_fmt c) then Inl StructError
     else if \<not> cls_recv c then Inl AttributeError
     else Inr (decoded c (frame_size pkt) (frame_type pkt) (read_fields (body_fmt c) (drop 3 pkt))))"
  using registry_counts(1) [OF assms(2,3)] read_header_fields [OF registry_split(1) [OF assms(2)] assms(1)] assms
  by (simp add: bytes_to_struct_eq struct_unpack_def fill_data_values)

lemma message_class: "map_of PACKET_REGISTRY S2C_MESSAGE = Some S2C_MESSAGE_PACKET"
  by (simp add: PACKET_REGISTRY_def packet_types)

lemma message_size: "calcsize (cls_fmt S2C_MESSAGE_PACKET) = 55"
  by (simp add: S2C_MESSAGE_PACKET_def class_makers packet_limits)

lemma message_recv [simp]: "cls_recv S2C_MESSAGE_PACKET"
  by (simp add: S2C_MESSAGE_PACKET_def class_makers)

lemma bytes_to_struct_message:
  assumes "3 \<le> length pkt" "frame_type pkt = S2C_MESSAGE"
  shows "bytes_to_struct pkt =
    (if length pkt < 55 \<or> frame_size pkt < 55 \<or> int (length pkt) < frame_size pkt then Inl StructError
     else Inr (decoded S2C_MESSAGE_PACKET (frame_size pkt) S2C_MESSAGE
       (read_fields (body_fmt S2C_MESSAGE_PACKET) (drop 3 pkt) @
        [VBytes (take (nat (frame_size pkt - 55)) (drop 55 pkt))])))"
proof -
  have l: "length (read_fields (body_fmt S2C_MESSAGE_PACKET) (drop 3 pkt) @ [v]) = length (cls_fields S2C_MESSAGE_PACKET)" for v
    by (simp add: body_fmt_def S2C_MESSAGE_PACKET_def class_makers)
  show ?thesis
    using read_header_fields [OF registry_split(1) [OF message_class] assms(1)] assms fill_data_values [OF l]
    by (auto simp: bytes_to_struct_eq message_class unpack_packet_def unpack_from_def message_size
        Let_def nat_le_iff)
qed

subsection \<open>Decoded instances have a view\<close>

fun typed :: "annotation \<Rightarrow> pyval \<Rightarrow> bool" where
  "typed TInt v = (\<exists>n. v = VInt n)"
| "typed TBool v = (\<exists>b. v = VBool b)"
| "typed TStr v = (\<exists>bs. v = VBytes bs)"
| "typed TBytes v = (\<exists>bs. v = VBytes bs)"

lemma read_fields_typed:
  "list_all2 code_fits as cs \<Longrightarrow> list_all2 typed as (read_fields cs bs)"
proof (induction as cs arbitrary: bs rule: list_all2_induct)
  case (Cons a as c cs)
  from Cons.hyps(1) have "typed a (unpack_field c b)" for b by (cases a; cases c) auto
  with Cons.IH show ?case by simp
qed simp

text \<open>What each entry of \<open>VIEWS\<close> satisfies: its type is a received one and its reads succeed.\<close>

definition view_ok :: "int \<times> (packet \<Rightarrow> s2c py) \<Rightarrow> bool" where
  "view_ok = (\<lambda>(t, v). \<exists>c. map_of PACKET_REGISTRY t = Some c \<and>
     (\<forall>sz vs. list_all2 typed (annots c) vs \<longrightarrow> (\<exists>x. v (decoded c sz t vs) = Inr x)))"

lemma view_okI:
  assumes "map_of PACKET_REGISTRY t = Some c"
    and "\<And>sz vs. list_all2 typed (annots c) vs \<Longrightarrow> \<exists>x. v (decoded c sz t vs) = Inr x"
  shows "view_ok (t, v)"
  using assms by (auto simp: view_ok_def)

lemma views_ok: "list_all view_ok VIEWS"
  unfolding VIEWS_def list.pred_inject
  by (intro conjI list.pred_inject(1); (rule view_okI, simp add: PACKET_REGISTRY_def packet_types,
      auto simp: packet_classes class_makers annots_def list_all2_Cons1 decoded_def typed_attrs))

lemma views_cover: "list_all (\<lambda>(t, c). cls_recv c \<longrightarrow> map_of VIEWS t \<noteq> None) PACKET_REGISTRY"
  by (simp add: PACKET_REGISTRY_def VIEWS_def packet_types packet_classes class_makers)

lemma decoded_view:
  assumes "map_of PACKET_REGISTRY t = Some c" "cls_recv c" "list_all2 typed (annots c) vs"
  shows "\<exists>v. view (decoded c sz t vs) = Inr v"
proof -
  from views_cover assms(2) map_of_SomeD [OF assms(1)] obtain f where f: "map_of VIEWS t = Some f"
    by (auto simp: list_all_iff)
  from views_ok map_of_SomeD [OF f] have "view_ok (t, f)" by (auto simp: list_all_iff)
  with assms f show ?thesis by (auto simp: view_ok_def view_def dict_get_def decoded_def)
qed

lemma struct_pack_frame:
  assumes "list_all2 exact_value (body_fmt c) vs" "map_of PACKET_REGISTRY t = Some c"
    and "0 \<le> sz" "sz < 65536"
  shows "\<exists>bs. struct_pack (cls_fmt c) (VInt sz # VInt t # vs) = Inr bs \<and> length bs = calcsize (cls_fmt c) \<and>
    3 \<le> length bs \<and>
    (\<forall>rest. frame_size (bs @ rest) = sz \<and> frame_type (bs @ rest) = t \<and>
       read_fields (body_fmt c) (drop 3 (bs @ rest)) = vs)"
proof -
  note reg = registry_split [OF assms(2)]
  have ex: "list_all2 exact_value (cls_fmt c) (VInt sz # VInt t # vs)"
    using assms reg(4,5) by (subst reg(1)) simp
  from struct_pack_exact [OF ex] obtain bs where
    bs: "struct_pack (cls_fmt c) (VInt sz # VInt t # vs) = Inr bs"
      "\<And>rest. read_fields (cls_fmt c) (bs @ rest) = VInt sz # VInt t # vs" by blast
  from struct_pack_length [OF bs(1)] reg(2) have l: "length bs = calcsize (cls_fmt c)" "3 \<le> length bs"
    by simp_all
  have "frame_size (bs @ rest) = sz \<and> frame_type (bs @ rest) = t \<and>
       read_fields (body_fmt c) (drop 3 (bs @ rest)) = vs" for rest
    using read_header_fields [OF reg(1), of "bs @ rest"] bs(2) [of rest] l(2) by simp
  with bs(1) l show ?thesis by blast
qed

lemma exact_typed:
  "list_all2 code_fits as cs \<Longrightarrow> list_all2 exact_value cs vs \<Longrightarrow> list_all2 typed as vs"
proof (induction as cs arbitrary: vs rule: list_all2_induct)
  case (Cons a as c cs)
  then obtain v vs' where v: "vs = v # vs'" "exact_value c v" "list_all2 exact_value cs vs'"
    by (cases vs) auto
  with Cons.hyps(1) have "typed a v" by (cases a; cases c; cases v) auto
  with v Cons.IH show ?case by simp
qed simp

subsection \<open>Properties\<close>

text \<open>
  C11: what the decoder makes of any complete frame (size field equal to its length). It
  returns an instance exactly for the registered server-to-client types at their exact length
  (for chat messages: at least the fixed part), the instance carries the size and type of the frame
  and all its fields have the annotated types; every other frame raises: \<open>KeyError\<close> for an unknown
  type, \<open>struct.error\<close> for a wrong length, \<open>AttributeError\<close> for a client-to-server type.
\<close>

theorem decode_outcomes:
  assumes "3 \<le> length pkt" "frame_size pkt = int (length pkt)"
  defines "reg \<equiv> map_of PACKET_REGISTRY (frame_type pkt)"
    and "fits c \<equiv> (if frame_type pkt = S2C_MESSAGE then calcsize (cls_fmt c) \<le> length pkt
      else length pkt = calcsize (cls_fmt c))"
  shows "case bytes_to_struct pkt of
      Inl e \<Rightarrow> e = KeyError \<and> reg = None
        \<or> e = StructError \<and> (\<exists>c. reg = Some c \<and> \<not> fits c)
        \<or> e = AttributeError \<and> (\<exists>c. reg = Some c \<and> fits c \<and> \<not> cls_recv c)
    | Inr p \<Rightarrow> (\<exists>c. reg = Some c \<and> fits c \<and> cls_recv c \<and> pkt_class p = c) \<and>
        pkt_size p = int (length pkt) \<and> pkt_type p = frame_type pkt \<and> (\<exists>v. view p = Inr v)"
proof (cases reg)
  case None
  with assms(1) show ?thesis by (simp add: bytes_to_struct_eq reg_def)
next
  case (Some c)
  show ?thesis
  proof (cases "frame_type pkt = S2C_MESSAGE")
    case True
    with Some have c: "c = S2C_MESSAGE_PACKET" using message_class by (simp add: reg_def)
    have "list_all2 typed (annots c) (read_fields (body_fmt c) (drop 3 pkt) @ [VBytes bs])" for bs
      by (simp add: c annots_def body_fmt_def S2C_MESSAGE_PACKET_def class_makers)
    from decoded_view [OF message_class message_recv this [unfolded c]] True c Some
    show ?thesis unfolding bytes_to_struct_message [OF assms(1) True]
      by (auto simp: fits_def message_size assms(2) decoded_def reg_def)
  next
    case False
    from registry_counts(1) [OF _ False] Some
    have t: "list_all2 typed (annots c) (read_fields (body_fmt c) (drop 3 pkt))"
      by (simp add: reg_def read_fields_typed)
    from decoded_view [OF Some [unfolded reg_def] _ t] False
    show ?thesis unfolding bytes_to_struct_plain [OF assms(1) Some [unfolded reg_def] False]
      by (auto simp: fits_def assms(2) Some decoded_def)
  qed
qed

theorem decode_outcomes_witness:
  "bytes_to_struct [3, 0, 99] = Inl KeyError \<and> (\<exists>p. bytes_to_struct [7, 0, 0, 1, 0, 0, 0] = Inr p)"
proof
  have r: "map_of PACKET_REGISTRY 99 = None" "map_of PACKET_REGISTRY 0 = Some S2C_ERROR_PACKET"
    by (simp_all add: PACKET_REGISTRY_def packet_types)
  have f: "frame_size [3, 0, 99] = 3" "frame_type [3, 0, 99] = 99"
    "frame_size [7, 0, 0, 1, 0, 0, 0] = 7" "frame_type [7, 0, 0, 1, 0, 0, 0] = 0"
    by (simp_all add: frame_size_def frame_type_def)
  from decode_outcomes [of "[3, 0, 99]"] f r show "bytes_to_struct [3, 0, 99] = Inl KeyError"
    by (auto split: sum.splits)
  have "calcsize (cls_fmt S2C_ERROR_PACKET) = 7" "cls_recv S2C_ERROR_PACKET"
    by (simp_all add: S2C_ERROR_PACKET_def class_makers)
  with decode_outcomes [of "[7, 0, 0, 1, 0, 0, 0]"] f r
  show "\<exists>p. bytes_to_struct [7, 0, 0, 1, 0, 0, 0] = Inr p"
    by (auto simp: S2C_MESSAGE_def split: sum.splits)
qed



end
