(* ===== verification/Builder.thy ===== *)
theory Builder
  imports S2C
begin

text \<open>
  The request packets of \<^verbatim>\<open>client/tetris/net/packet_builder.py\<close> (\<open>PacketBuilder\<close>), one
  definition per method, and the proof that every request the client can build is one frame which
  the other end can read back.
\<close>

subsection \<open>Builder\<close>

definition str_to_bytes :: "ustring \<Rightarrow> nat \<Rightarrow> bytes py" where
  "str_to_bytes s array_len = py_bind (str_encode s) (\<lambda>bs.
     let cut = take array_len bs in Inr (cut @ replicate (array_len - length cut) 0))"

definition pack_struct :: "packet \<Rightarrow> bytes py" where
  "pack_struct data = struct_pack (cls_fmt (pkt_class data)) (to_values data)"

text \<open>\<open>data = C(); data.set_header(t)\<close>\<close>

definition fresh :: "packet_class \<Rightarrow> int \<Rightarrow> packet" where
  "fresh c t = set_header t None (new_packet c)"

definition build_login_pkt :: "ustring \<Rightarrow> ustring \<Rightarrow> bytes py" where
  "build_login_pkt uid pw =
     (let data = fresh C2S_LOGIN_PACKET C2S_LOGIN in
      py_bind (str_to_bytes uid MAX_USER_ID) (\<lambda>u.
      let data = set_field ''user_id'' (VBytes u) data in
      py_bind (str_to_bytes pw MAX_USER_PASSWORD) (\<lambda>p.
        pack_struct (set_field ''user_password'' (VBytes p) data))))"

definition build_message_pkt :: "ustring \<Rightarrow> bytes py" where
  "build_message_pkt message =
     (if length message = 0 then Inr []
      else let data = new_packet C2S_MESSAGE_PACKET in
        py_bind (str_encode message) (\<lambda>encoded.
        let message_bytes = length encoded;
            data = set_header C2S_MESSAGE
              (Some (int (calcsize (cls_fmt C2S_MESSAGE_PACKET) + message_bytes))) data in
        py_bind (pack_struct data) (\<lambda>header.
        py_bind (struct_pack [Cs message_bytes] [VBytes encoded]) (\<lambda>body. Inr (header @ body)))))"

definition build_join_room_pkt :: "int \<Rightarrow> ustring option \<Rightarrow> bytes py" where
  "build_join_room_pkt room_key room_pw = (case room_pw of
     Some (c # cs) \<Rightarrow>
       let data = set_field ''room_key'' (VInt room_key) (fresh C2S_JOIN_LOCK_ROOM_PACKET C2S_JOIN_LOCK_ROOM) in
       py_bind (str_to_bytes (c # cs) MAX_ROOM_PASSWORD) (\<lambda>p.
         pack_struct (set_field ''room_password'' (VBytes p) data))
   | _ \<Rightarrow> pack_struct (set_field ''room_key'' (VInt room_key)
            (fresh C2S_JOIN_OPEN_ROOM_PACKET C2S_JOIN_OPEN_ROOM)))"

definition build_request_room_list_pkt :: "bytes py" where
  "build_request_room_list_pkt = pack_struct (fresh C2S_REQUEST_ROOM_LIST_PACKET C2S_REQUEST_ROOM_LIST)"

definition build_disconnect_pkt :: "bytes py" where
  "build_disconnect_pkt = pack_struct (fresh C2S_DISCONNECT_PACKET C2S_DISCONNECT)"

definition build_move_pkt :: "int \<Rightarrow> bytes py" where
  "build_move_pkt move_type = pack_struct (set_field ''move_type'' (VInt move_type)
     (fresh C2S_MOVE_PACKET C2S_MOVE))"

definition build_create_room :: "ustring \<Rightarrow> int \<Rightarrow> bool \<Rightarrow> ustring option \<Rightarrow> bytes py" where
  "build_create_room title players_num is_open pw =
     py_bind (str_to_bytes title MAX_ROOM_NAME) (\<lambda>title_bytes.
       if is_open then
         pack_struct (set_field ''room_name'' (VBytes title_bytes)
           (set_field ''max_user'' (VInt players_num) (fresh C2S_ADD_OPEN_ROOM_PACKET C2S_ADD_OPEN_ROOM)))
       else
         let data = set_field ''room_name'' (VBytes title_bytes)
           (set_field ''max_user'' (VInt players_num) (fresh C2S_ADD_LOCK_ROOM_PACKET C2S_ADD_LOCK_ROOM)) in
         py_bind (str_to_bytes (case pw of None \<Rightarrow> [] | Some p \<Rightarrow> p) MAX_ROOM_PASSWORD) (\<lambda>p.
           pack_struct (set_field ''room_password'' (VBytes p) data)))"

definition build_fast_matching :: "int \<Rightarrow> bytes py" where
  "build_fast_matching max_user = pack_struct (set_field ''max_user'' (VInt max_user)
     (fresh C2S_FAST_MATCHING_PACKET C2S_FAST_MATCHING))"

definition build_start_pkt :: "bytes py" where
  "build_start_pkt = pack_struct (fresh C2S_START_PACKET C2S_START)"

definition build_ready_pkt :: "bytes py" where
  "build_ready_pkt = pack_struct (fresh C2S_READY_PACKET C2S_READY)"

definition build_delete_user_pkt :: "bytes py" where
  "build_delete_user_pkt = pack_struct (fresh C2S_DELETE_USER_PACKET C2S_DELETE_USER)"

definition build_giveup_pkt :: "bytes py" where
  "build_giveup_pkt = pack_struct (fresh C2S_GIVEUP_PACKET C2S_GIVEUP)"

definition build_kick_pkt :: "int \<Rightarrow> bytes py" where
  "build_kick_pkt target_id = pack_struct (set_field ''kick_user_id'' (VInt target_id)
     (fresh C2S_KICK_PACKET C2S_KICK))"

definition build_request_friend_pkt :: "int \<Rightarrow> bytes py" where
  "build_request_friend_pkt recver_id = pack_struct (set_field ''recver_id'' (VInt recver_id)
     (fresh C2S_REQUEST_FRIEND_PACKET C2S_REQUEST_FRIEND))"

definition build_delete_friend_pkt :: "int \<Rightarrow> bytes py" where
  "build_delete_friend_pkt target_id = pack_struct (set_field ''target_id'' (VInt target_id)
     (fresh C2S_DELETE_FRIEND_PACKET C2S_DELETE_FRIEND))"

definition build_accept_friend_pkt :: "int \<Rightarrow> bytes py" where
  "build_accept_friend_pkt requester_id = pack_struct (set_field ''requester_id'' (VInt requester_id)
     (fresh C2S_ACCEPT_FRIEND_PACKET C2S_ACCEPT_FRIEND))"

definition build_request_lobby_user_list_pkt :: "bytes py" where
  "build_request_lobby_user_list_pkt =
     pack_struct (fresh C2S_REQUEST_LOBBY_USER_LIST_PACKET C2S_REQUEST_LOBBY_USER_LIST)"

definition build_request_friend_list_pkt :: "bytes py" where
  "build_request_friend_list_pkt = pack_struct (fresh C2S_REQUEST_FRIEND_LIST_PACKET C2S_REQUEST_FRIEND_LIST)"

definition build_request_ranking_pkt :: "bytes py" where
  "build_request_ranking_pkt = pack_struct (fresh C2S_REQUEST_RANKING_PACKET C2S_REQUEST_RANKING)"

lemmas builders = build_request_room_list_pkt_def build_disconnect_pkt_def build_move_pkt_def
  build_fast_matching_def build_start_pkt_def build_ready_pkt_def build_delete_user_pkt_def
  build_giveup_pkt_def build_kick_pkt_def build_request_friend_pkt_def build_delete_friend_pkt_def
  build_accept_friend_pkt_def build_request_lobby_user_list_pkt_def build_request_friend_list_pkt_def
  build_request_ranking_pkt_def

subsection \<open>Requests\<close>

datatype request =
    Login ustring ustring
  | Message ustring
  | Join int "ustring option"
  | Room_list
  | Disconnect
  | Move int
  | Create ustring int bool "ustring option"
  | Fast_match int
  | Start
  | Ready
  | Delete_user
  | Giveup
  | Kick int
  | Request_friend int
  | Delete_friend int
  | Accept_friend int
  | Lobby_user_list
  | Friend_list
  | Ranking

fun build :: "request \<Rightarrow> bytes py" where
  "build (Login u p) = build_login_pkt u p"
| "build (Message m) = build_message_pkt m"
| "build (Join k p) = build_join_room_pkt k p"
| "build Room_list = build_request_room_list_pkt"
| "build Disconnect = build_disconnect_pkt"
| "build (Move m) = build_move_pkt m"
| "build (Create t n op p) = build_create_room t n op p"
| "build (Fast_match n) = build_fast_matching n"
| "build Start = build_start_pkt"
| "build Ready = build_ready_pkt"
| "build Delete_user = build_delete_user_pkt"
| "build Giveup = build_giveup_pkt"
| "build (Kick i) = build_kick_pkt i"
| "build (Request_friend i) = build_request_friend_pkt i"
| "build (Delete_friend i) = build_delete_friend_pkt i"
| "build (Accept_friend i) = build_accept_friend_pkt i"
| "build Lobby_user_list = build_request_lobby_user_list_pkt"
| "build Friend_list = build_request_friend_list_pkt"
| "build Ranking = build_request_ranking_pkt"

text \<open>The type code each request goes out under.\<close>

fun request_type :: "request \<Rightarrow> int" where
  "request_type (Login u p) = C2S_LOGIN"
| "request_type (Message m) = C2S_MESSAGE"
| "request_type (Join k p) =
     (if p = None \<or> p = Some [] then C2S_JOIN_OPEN_ROOM else C2S_JOIN_LOCK_ROOM)"
| "request_type Room_list = C2S_REQUEST_ROOM_LIST"
| "request_type Disconnect = C2S_DISCONNECT"
| "request_type (Move m) = C2S_MOVE"
| "request_type (Create t n op p) = (if op then C2S_ADD_OPEN_ROOM else C2S_ADD_LOCK_ROOM)"
| "request_type (Fast_match n) = C2S_FAST_MATCHING"
| "request_type Start = C2S_START"
| "request_type Ready = C2S_READY"
| "request_type Delete_user = C2S_DELETE_USER"
| "request_type Giveup = C2S_GIVEUP"
| "request_type (Kick i) = C2S_KICK"
| "request_type (Request_friend i) = C2S_REQUEST_FRIEND"
| "request_type (Delete_friend i) = C2S_DELETE_FRIEND"
| "request_type (Accept_friend i) = C2S_ACCEPT_FRIEND"
| "request_type Lobby_user_list = C2S_REQUEST_LOBBY_USER_LIST"
| "request_type Friend_list = C2S_REQUEST_FRIEND_LIST"
| "request_type Ranking = C2S_REQUEST_RANKING"

subsection \<open>Strings in fixed fields\<close>

definition field_text :: "bytes \<Rightarrow> ustring" where
  "field_text bs = decode_ignore (takeWhile (\<lambda>b. b \<noteq> 0) bs)"

lemma str_to_bytes_length: "str_to_bytes s n = Inr bs \<Longrightarrow> length bs = n"
  by (auto simp: str_to_bytes_def py_bind_eq_Inr Let_def)

text \<open>A string that survives a field of \<open>n\<close> bytes: encodable, no NUL, short enough.\<close>

definition sendable :: "nat \<Rightarrow> ustring \<Rightarrow> bool" where
  "sendable n s \<longleftrightarrow> list_all scalar s \<and> 0 \<notin> set s \<and> length (concat (map utf8_char s)) \<le> n"

lemma sendable_bmp:
  "list_all (\<lambda>c. scalar c \<and> c \<noteq> 0 \<and> c < 0x10000) s \<Longrightarrow> length s \<le> 16 \<Longrightarrow> sendable 48 s"
  using bmp_encode_length [of s] by (auto simp: sendable_def list_all_iff)

lemma takeWhile_zeros: "0 \<notin> set bs \<Longrightarrow> takeWhile (\<lambda>b. b \<noteq> 0) (bs @ replicate k (0 :: byte)) = bs"
proof -
  assume "0 \<notin> set bs"
  then have "takeWhile (\<lambda>b. b \<noteq> 0) (bs @ replicate k 0) = bs @ takeWhile (\<lambda>b. b \<noteq> 0) (replicate k 0)"
    by (intro takeWhile_append2) auto
  then show ?thesis by (cases k) simp_all
qed

lemma encoded_nonzero:
  assumes "list_all scalar s" "0 \<notin> set s"
  shows "(0 :: byte) \<notin> set (map of_nat (concat (map utf8_char s)))"
proof
  assume "(0 :: byte) \<in> set (map of_nat (concat (map utf8_char s)))"
  then obtain b where b: "b \<in> set (concat (map utf8_char s))" "(of_nat b :: byte) = 0"
    unfolding set_map by (elim imageE) metis
  from encoded_bytes [OF assms(1) b(1)] b(2) have "b = 0" using unat_of_nat_byte [of b] by simp
  with b(1) assms(2) show False by (auto simp: utf8_char_zero)
qed

lemma str_to_bytes_fit:
  assumes "list_all scalar s" "0 \<notin> set s"
  shows "\<exists>bs. str_to_bytes s n = Inr bs \<and> length bs = n \<and> field_text bs = fit n s"
proof -
  let ?e = "concat (map utf8_char s)" and ?k = "n - length (take n (concat (map utf8_char s)))"
  let ?bs = "map of_nat (take n ?e) @ replicate ?k (0 :: byte)"
  have "(0 :: byte) \<notin> set (map of_nat (take n ?e))"
    using encoded_nonzero [OF assms] by (auto dest: in_set_takeD)
  then have "takeWhile (\<lambda>b. b \<noteq> 0) ?bs = map of_nat (take n ?e)" by (rule takeWhile_zeros)
  moreover have "map unat (map of_nat (take n ?e) :: bytes) = take n ?e"
    by (rule map_unat_encoded) (auto dest: in_set_takeD encoded_bytes [OF assms(1)] simp del: set_concat)
  ultimately have "field_text ?bs = fit n s"
    using utf8_dec_take [OF assms(1)] by (simp add: field_text_def decode_ignore_def)
  then show ?thesis using assms(1) by (simp add: str_to_bytes_def str_encode_def Let_def take_map)
qed

lemma str_to_bytes_sendable:
  "sendable n s \<Longrightarrow> \<exists>bs. str_to_bytes s n = Inr bs \<and> length bs = n \<and> field_text bs = s"
  using str_to_bytes_fit [of s n] fit_all [of s n] by (simp add: sendable_def)

subsection \<open>Requests are frames\<close>

definition frame_ok :: "int \<Rightarrow> bytes \<Rightarrow> bool" where
  "frame_ok t bs \<longleftrightarrow> 3 \<le> length bs \<and> frame_size bs = int (length bs) \<and> frame_type bs = t"

definition framed :: "int \<Rightarrow> packet \<Rightarrow> bool" where
  "framed t data \<longleftrightarrow> pkt_type data = t \<and> pkt_size data = int (calcsize (cls_fmt (pkt_class data))) \<and>
     take 2 (cls_fmt (pkt_class data)) = HEADER_FMT"

lemma framed_set_field [simp]: "framed t (set_field n v data) = framed t data"
  by (simp add: framed_def set_field_def)

lemma framed_fresh [simp]: "framed t (fresh c t) \<longleftrightarrow> take 2 (cls_fmt c) = HEADER_FMT"
  by (simp add: framed_def fresh_def set_header_def new_packet_def)

lemma class_headers [simp]:
  "take 2 (cls_fmt (send_class fs f)) = HEADER_FMT"
  by (simp add: send_class_def HEADER_FMT_def)

lemma pack_header:
  assumes "struct_pack (CH # CB # f) (VInt sz # VInt t # vs) = Inr bs"
  shows "frame_size bs = sz \<and> frame_type bs = t \<and> length bs = 3 + calcsize f \<and>
    (\<exists>rest. struct_pack f vs = Inr rest \<and> drop 3 bs = rest)"
proof -
  from assms obtain rest where r: "struct_pack f vs = Inr rest"
    and b: "bs = enc_le 2 sz @ enc_le 1 t @ rest" and range: "0 \<le> sz" "sz \<le> 65535" "0 \<le> t" "t \<le> 255"
    by (auto simp: py_bind_eq_Inr split: if_splits)
  have "take 2 bs = enc_le 2 sz" "take 1 (drop 2 bs) = enc_le 1 t" "drop 3 bs = rest"
    unfolding b by (simp_all del: enc_le.simps)
  with range r struct_pack_length [OF assms] show ?thesis
    by (simp add: frame_size_def frame_type_def dec_enc_le del: enc_le.simps)
qed

lemma pack_framed:
  assumes "framed t data" "pack_struct data = Inr bs"
  shows "frame_ok t bs"
proof -
  from assms(1) have "cls_fmt (pkt_class data) = CH # CB # body_fmt (pkt_class data)"
    using append_take_drop_id [of 2 "cls_fmt (pkt_class data)"]
    by (simp add: framed_def HEADER_FMT_def body_fmt_def)
  with assms pack_header [of "body_fmt (pkt_class data)" "pkt_size data" "pkt_type data" _ bs]
  show ?thesis by (auto simp: pack_struct_def to_values_def framed_def frame_ok_def)
qed

text \<open>
  C13: every request goes out as one frame. Whatever its arguments, a builder either raises or
  returns a packet whose size field is its own length and whose type is the one of the request; only
  the empty chat message gives no bytes.
\<close>

theorem request_is_frame:
  assumes "build r = Inr bs" "r \<noteq> Message []"
  shows "frame_ok (request_type r) bs"
proof (cases r)
  case (Message m)
  with assms obtain e header where e: "str_encode m = Inr e"
    "pack_struct (set_header C2S_MESSAGE (Some (3 + int (length e))) (new_packet C2S_MESSAGE_PACKET)) = Inr header"
    "bs = header @ e"
    by (auto simp: build_message_pkt_def Let_def py_bind_eq_Inr C2S_MESSAGE_PACKET_def class_makers)
  then have "struct_pack [CH, CB] [VInt (3 + int (length e)), VInt C2S_MESSAGE] = Inr header"
    by (simp add: pack_struct_def to_values_def set_header_def new_packet_def C2S_MESSAGE_PACKET_def class_makers)
  from pack_header [OF this] e(3) Message show ?thesis
    by (auto simp: frame_ok_def frame_size_def frame_type_def)
next
  case (Join k p)
  with assms show ?thesis
    by (auto simp: build_join_room_pkt_def py_bind_eq_Inr Let_def C2S_JOIN_OPEN_ROOM_PACKET_def
        C2S_JOIN_LOCK_ROOM_PACKET_def split: option.splits list.splits intro: pack_framed [rotated])
next
  case (Create t n op p)
  with assms show ?thesis
    by (auto simp: build_create_room_def py_bind_eq_Inr Let_def C2S_ADD_OPEN_ROOM_PACKET_def
        C2S_ADD_LOCK_ROOM_PACKET_def split: if_splits intro: pack_framed [rotated])
qed (use assms in \<open>auto simp: builders build_login_pkt_def Let_def py_bind_eq_Inr packet_classes
      intro: pack_framed [rotated]\<close>)

theorem request_is_frame_witness: "\<exists>bs. build (Kick 7) = Inr bs \<and> frame_ok C2S_KICK bs"
proof -
  have "\<exists>bs. build (Kick 7) = Inr bs"
    by (simp add: builders pack_struct_def to_values_def fresh_def set_header_def set_field_def new_packet_def
        C2S_KICK_PACKET_def class_makers C2S_KICK_def)
  then obtain bs where "build (Kick 7) = Inr bs" ..
  with request_is_frame [OF this] show ?thesis by simp
qed

subsection \<open>Requests can be read back\<close>

text \<open>
  The other end: the request a frame stands for, read with the class of its type. Strings are
  cut at the first zero byte.
\<close>

fun the_int :: "pyval \<Rightarrow> int" where
  "the_int (VInt n) = n"
| "the_int _ = 0"

fun the_text :: "pyval \<Rightarrow> ustring" where
  "the_text (VBytes bs) = field_text bs"
| "the_text _ = []"

definition body_values :: "packet_class \<Rightarrow> bytes \<Rightarrow> pyval list" where
  "body_values c bs = read_fields (body_fmt c) (drop 3 bs)"

definition READERS :: "(int \<times> (bytes \<Rightarrow> request)) list" where
  "READERS =
    [(C2S_LOGIN, \<lambda>bs. let vs = body_values C2S_LOGIN_PACKET bs in Login (the_text (vs ! 0)) (the_text (vs ! 1))),
     (C2S_MESSAGE, \<lambda>bs. Message (decode_ignore (drop 3 bs))),
     (C2S_JOIN_OPEN_ROOM, \<lambda>bs. Join (the_int (body_values C2S_JOIN_OPEN_ROOM_PACKET bs ! 0)) None),
     (C2S_JOIN_LOCK_ROOM, \<lambda>bs. let vs = body_values C2S_JOIN_LOCK_ROOM_PACKET bs in
        Join (the_int (vs ! 0)) (Some (the_text (vs ! 1)))),
     (C2S_REQUEST_ROOM_LIST, \<lambda>bs. Room_list),
     (C2S_DISCONNECT, \<lambda>bs. Disconnect),
     (C2S_MOVE, \<lambda>bs. Move (the_int (body_values C2S_MOVE_PACKET bs ! 0))),
     (C2S_ADD_OPEN_ROOM, \<lambda>bs. let vs = body_values C2S_ADD_OPEN_ROOM_PACKET bs in
        Create (the_text (vs ! 1)) (the_int (vs ! 0)) True None),
     (C2S_ADD_LOCK_ROOM, \<lambda>bs. let vs = body_values C2S_ADD_LOCK_ROOM_PACKET bs in
        Create (the_text (vs ! 1)) (the_int (vs ! 0)) False (Some (the_text (vs ! 2)))),
     (C2S_FAST_MATCHING, \<lambda>bs. Fast_match (the_int (body_values C2S_FAST_MATCHING_PACKET bs ! 0))),
     (C2S_START, \<lambda>bs. Start),
     (C2S_READY, \<lambda>bs. Ready),
     (C2S_DELETE_USER, \<lambda>bs. Delete_user),
     (C2S_GIVEUP, \<lambda>bs. Giveup),
     (C2S_KICK, \<lambda>bs. Kick (the_int (body_values C2S_KICK_PACKET bs ! 0))),
     (C2S_REQUEST_FRIEND, \<lambda>bs. Request_friend (the_int (body_values C2S_REQUEST_FRIEND_PACKET bs ! 0))),
     (C2S_DELETE_FRIEND, \<lambda>bs. Delete_friend (the_int (body_values C2S_DELETE_FRIEND_PACKET bs ! 0))),
     (C2S_ACCEPT_FRIEND, \<lambda>bs. Accept_friend (the_int (body_values C2S_ACCEPT_FRIEND_PACKET bs ! 0))),
     (C2S_REQUEST_LOBBY_USER_LIST, \<lambda>bs. Lobby_user_list),
     (C2S_REQUEST_FRIEND_LIST, \<lambda>bs. Friend_list),
     (C2S_REQUEST_RANKING, \<lambda>bs. Ranking)]"

definition read_request :: "bytes \<Rightarrow> request option" where
  "read_request bs = map_option (\<lambda>f. f bs) (map_of READERS (frame_type bs))"

text \<open>The arguments that the interface can produce and the format can carry.\<close>

fun valid_request :: "request \<Rightarrow> bool" where
  "valid_request (Login u p) = (sendable 48 u \<and> sendable 48 p)"
| "valid_request (Message m) = (m \<noteq> [] \<and> list_all scalar m \<and> length (concat (map utf8_char m)) \<le> 65532)"
| "valid_request (Join k p) = (int_range CQ k \<and> (p = None \<or> (\<exists>w. p = Some w \<and> w \<noteq> [] \<and> sendable 48 w)))"
| "valid_request (Move m) = int_range Cb m"
| "valid_request (Create t n op p) = (sendable 48 t \<and> int_range Cb n \<and>
     (if op then p = None else \<exists>w. p = Some w \<and> sendable 48 w))"
| "valid_request (Fast_match n) = int_range Cb n"
| "valid_request (Kick i) = int_range Ci i"
| "valid_request (Request_friend i) = int_range Ci i"
| "valid_request (Delete_friend i) = int_range Ci i"
| "valid_request (Accept_friend i) = int_range Ci i"
| "valid_request _ = True"

lemma pack_body:
  assumes "framed t data" "list_all2 exact_value (body_fmt (pkt_class data)) (map snd (pkt_body data))"
    and "0 \<le> t" "t < 256" "calcsize (cls_fmt (pkt_class data)) < 65536"
  shows "\<exists>bs. pack_struct data = Inr bs \<and> frame_type bs = t \<and>
    body_values (pkt_class data) bs = map snd (pkt_body data)"
proof -
  let ?c = "pkt_class data"
  from assms(1) have c: "cls_fmt ?c = CH # CB # body_fmt ?c"
    using append_take_drop_id [of 2 "cls_fmt ?c"] by (simp add: framed_def HEADER_FMT_def body_fmt_def)
  have "list_all2 exact_value (CH # CB # body_fmt ?c) (to_values data)"
    using assms(2-5) assms(1) [unfolded framed_def] by (auto simp: to_values_def)
  from struct_pack_exact [OF this] obtain bs where
    p: "struct_pack (CH # CB # body_fmt ?c) (to_values data) = Inr bs"
    and r: "\<And>rest. read_fields (CH # CB # body_fmt ?c) (bs @ rest) = to_values data" by blast
  from pack_header [OF p [unfolded to_values_def append_Cons append_Nil]] assms(1)
  have h: "frame_type bs = t" "3 \<le> length bs" by (auto simp: framed_def)
  from read_header_fields [OF c h(2)] r [of "[]"] have "read_fields (body_fmt ?c) (drop 3 bs) = map snd (pkt_body data)"
    by (simp add: c to_values_def del: read_fields.simps)
  with p h(1) show ?thesis by (auto simp: pack_struct_def c body_values_def simp del: struct_pack.simps)
qed

lemmas request_data = fresh_def set_header_def set_field_def new_packet_def

lemma read_requestI: "map_of READERS (frame_type bs) = Some f \<Longrightarrow> f bs = r \<Longrightarrow> read_request bs = Some r"
  by (simp add: read_request_def)

lemma read_back:
  assumes "framed t data" "pkt_class data = c" "map snd (pkt_body data) = vs"
    and "list_all2 exact_value (body_fmt c) vs" "0 \<le> t" "t < 256" "calcsize (cls_fmt c) < 65536"
    and "\<And>bs. body_values c bs = vs \<Longrightarrow> map_option (\<lambda>f. f bs) (map_of READERS t) = Some r"
  shows "\<exists>bs. pack_struct data = Inr bs \<and> read_request bs = Some r"
  using pack_body [of t data] assms by (auto simp: read_request_def)

lemmas read_back_simps = request_data READERS_def packet_types packet_limits class_makers body_fmt_def

lemma read_back_empty:
  assumes "c = send_class [] []" "map_of READERS t = Some (\<lambda>_. r)" "0 \<le> t" "t < 256"
  shows "\<exists>bs. pack_struct (fresh c t) = Inr bs \<and> read_request bs = Some r"
  using assms by (intro read_back [where c = c and vs = "[]"])
    (auto simp: framed_def request_data send_class_def body_fmt_def HEADER_FMT_def)

lemma read_back_int:
  assumes "c = send_class [(n, TInt, VInt d)] [cd]" "exact_value cd (VInt i)" "cd \<in> {Cb, Ci, CQ}"
    and "map_of READERS t = Some (\<lambda>bs. R (the_int (body_values c bs ! 0)))" "0 \<le> t" "t < 256"
  shows "\<exists>bs. pack_struct (set_field n (VInt i) (fresh c t)) = Inr bs \<and> read_request bs = Some (R i)"
  using assms
  by (intro read_back [where c = c and vs = "[VInt i]"])
    (auto simp: framed_def request_data send_class_def body_fmt_def HEADER_FMT_def)

lemma read_back_login:
  assumes "sendable 48 u" "sendable 48 p"
  shows "\<exists>bs. build_login_pkt u p = Inr bs \<and> read_request bs = Some (Login u p)"
proof -
  from assms obtain ub pb where b: "str_to_bytes u 48 = Inr ub" "length ub = 48" "field_text ub = u"
    "str_to_bytes p 48 = Inr pb" "length pb = 48" "field_text pb = p"
    using str_to_bytes_sendable by metis
  then have "\<exists>bs. pack_struct (set_field ''user_password'' (VBytes pb) (set_field ''user_id'' (VBytes ub)
      (fresh C2S_LOGIN_PACKET C2S_LOGIN))) = Inr bs \<and> read_request bs = Some (Login u p)"
    by (intro read_back [where c = C2S_LOGIN_PACKET and vs = "[VBytes ub, VBytes pb]"])
      (auto simp: read_back_simps framed_def C2S_LOGIN_PACKET_def)
  with b show ?thesis by (simp add: build_login_pkt_def Let_def packet_limits)
qed

lemma read_back_join_lock:
  assumes "int_range CQ k" "w \<noteq> []" "sendable 48 w"
  shows "\<exists>bs. build_join_room_pkt k (Some w) = Inr bs \<and> read_request bs = Some (Join k (Some w))"
proof -
  from assms(3) obtain b where b: "str_to_bytes w 48 = Inr b" "length b = 48" "field_text b = w"
    using str_to_bytes_sendable by metis
  with assms(1) have "\<exists>bs. pack_struct (set_field ''room_password'' (VBytes b) (set_field ''room_key'' (VInt k)
      (fresh C2S_JOIN_LOCK_ROOM_PACKET C2S_JOIN_LOCK_ROOM))) = Inr bs \<and> read_request bs = Some (Join k (Some w))"
    by (intro read_back [where c = C2S_JOIN_LOCK_ROOM_PACKET and vs = "[VInt k, VBytes b]"])
      (auto simp: read_back_simps framed_def C2S_JOIN_LOCK_ROOM_PACKET_def)
  with assms(2) b(1) show ?thesis by (cases w) (simp_all add: build_join_room_pkt_def Let_def packet_limits)
qed

lemma read_back_create:
  assumes "sendable 48 title" "int_range Cb n"
  shows "\<exists>bs. build_create_room title n True None = Inr bs \<and> read_request bs = Some (Create title n True None)"
    and "sendable 48 w \<Longrightarrow> \<exists>bs. build_create_room title n False (Some w) = Inr bs \<and>
      read_request bs = Some (Create title n False (Some w))"
proof -
  from assms(1) obtain b where b: "str_to_bytes title 48 = Inr b" "length b = 48" "field_text b = title"
    using str_to_bytes_sendable by metis
  with assms(2) have "\<exists>bs. pack_struct (set_field ''room_name'' (VBytes b) (set_field ''max_user'' (VInt n)
      (fresh C2S_ADD_OPEN_ROOM_PACKET C2S_ADD_OPEN_ROOM))) = Inr bs \<and> read_request bs = Some (Create title n True None)"
    by (intro read_back [where c = C2S_ADD_OPEN_ROOM_PACKET and vs = "[VInt n, VBytes b]"])
      (auto simp: read_back_simps framed_def C2S_ADD_OPEN_ROOM_PACKET_def)
  with b(1) show "\<exists>bs. build_create_room title n True None = Inr bs \<and> read_request bs = Some (Create title n True None)"
    by (simp add: build_create_room_def packet_limits)
  assume "sendable 48 w"
  then obtain p where p: "str_to_bytes w 48 = Inr p" "length p = 48" "field_text p = w"
    using str_to_bytes_sendable by metis
  with b assms(2) have "\<exists>bs. pack_struct (set_field ''room_password'' (VBytes p) (set_field ''room_name'' (VBytes b)
      (set_field ''max_user'' (VInt n) (fresh C2S_ADD_LOCK_ROOM_PACKET C2S_ADD_LOCK_ROOM)))) = Inr bs \<and>
      read_request bs = Some (Create title n False (Some w))"
    by (intro read_back [where c = C2S_ADD_LOCK_ROOM_PACKET and vs = "[VInt n, VBytes b, VBytes p]"])
      (auto simp: read_back_simps framed_def C2S_ADD_LOCK_ROOM_PACKET_def)
  with b(1) p(1) show "\<exists>bs. build_create_room title n False (Some w) = Inr bs \<and>
      read_request bs = Some (Create title n False (Some w))"
    by (simp add: build_create_room_def packet_limits Let_def)
qed

lemma read_back_message:
  assumes "m \<noteq> []" "list_all scalar m" "length (concat (map utf8_char m)) \<le> 65532"
  shows "\<exists>bs. build_message_pkt m = Inr bs \<and> read_request bs = Some (Message m)"
proof -
  from assms(2) obtain e where e: "str_encode m = Inr e" "length e = length (concat (map utf8_char m))"
    by (simp add: str_encode_def)
  let ?h = "enc_le 2 (3 + int (length e)) @ enc_le 1 C2S_MESSAGE"
  have "build_message_pkt m = Inr (?h @ e)"
    using assms(1,3) e by (simp add: build_message_pkt_def Let_def pack_struct_def to_values_def request_data
        C2S_MESSAGE_PACKET_def class_makers C2S_MESSAGE_def del: enc_le.simps)
  moreover have "frame_type (?h @ e) = C2S_MESSAGE"
    by (simp add: frame_type_def dec_enc_le C2S_MESSAGE_def del: enc_le.simps)
  moreover have "drop 3 (?h @ e) = e" by (simp del: enc_le.simps)
  ultimately show ?thesis
    using decode_ignore_encode [OF e(1)] by (auto simp: read_request_def READERS_def packet_types)
qed

lemma reads_back:
  assumes "valid_request r"
  shows "\<exists>bs. build r = Inr bs \<and> read_request bs = Some r"
proof (cases r)
  case (Login u p)
  with assms read_back_login show ?thesis by simp
next
  case (Message m)
  with assms read_back_message show ?thesis by simp
next
  case (Join k p)
  then consider w where "p = Some w" "w \<noteq> []" "sendable 48 w" "int_range CQ k" | "p = None" "int_range CQ k"
    using assms by auto
  then show ?thesis
  proof cases
    case 1
    with read_back_join_lock Join show ?thesis by simp
  next
    case 2
    have "\<exists>bs. pack_struct (set_field ''room_key'' (VInt k) (fresh C2S_JOIN_OPEN_ROOM_PACKET C2S_JOIN_OPEN_ROOM))
        = Inr bs \<and> read_request bs = Some (Join k None)"
      by (rule read_back_int [where cd = CQ and R = "\<lambda>k. Join k None"])
        (use 2 in \<open>simp_all add: C2S_JOIN_OPEN_ROOM_PACKET_def READERS_def packet_types\<close>)
    with 2 Join show ?thesis by (simp add: build_join_room_pkt_def)
  qed
next
  case (Create t n op p)
  with assms read_back_create show ?thesis by (cases op) auto
next
  case (Move m)
  show ?thesis unfolding Move build.simps builders
    by (rule read_back_int [where cd = Cb]) (use assms Move in \<open>simp_all add: packet_classes READERS_def packet_types\<close>)
next
  case (Fast_match m)
  show ?thesis unfolding Fast_match build.simps builders
    by (rule read_back_int [where cd = Cb]) (use assms Fast_match in \<open>simp_all add: packet_classes READERS_def packet_types\<close>)
next
  case (Kick i)
  show ?thesis unfolding Kick build.simps builders
    by (rule read_back_int [where cd = Ci]) (use assms Kick in \<open>simp_all add: packet_classes READERS_def packet_types\<close>)
next
  case (Request_friend i)
  show ?thesis unfolding Request_friend build.simps builders
    by (rule read_back_int [where cd = Ci])
      (use assms Request_friend in \<open>simp_all add: packet_classes READERS_def packet_types\<close>)
next
  case (Delete_friend i)
  show ?thesis unfolding Delete_friend build.simps builders
    by (rule read_back_int [where cd = Ci])
      (use assms Delete_friend in \<open>simp_all add: packet_classes READERS_def packet_types\<close>)
next
  case (Accept_friend i)
  show ?thesis unfolding Accept_friend build.simps builders
    by (rule read_back_int [where cd = Ci])
      (use assms Accept_friend in \<open>simp_all add: packet_classes READERS_def packet_types\<close>)
qed (simp only: build.simps builders, rule read_back_empty; simp add: packet_classes READERS_def packet_types)+

text \<open>
  C12: round trip of requests. For all arguments the interface can produce and the format can
  carry (strings without NUL that fit their 48 bytes, numbers in the range of their field), the
  bytes a builder returns stand for exactly that request: read with the class of their type they
  give the request back, so no two different requests look alike on the wire.
\<close>

theorem request_roundtrip:
  assumes "valid_request r"
  shows "\<exists>bs. build r = Inr bs \<and> read_request bs = Some r"
  using assms by (rule reads_back)

theorem request_roundtrip_witness:
  "\<exists>bs. build (Create [72, 0xAC00] 4 False (Some [49])) = Inr bs \<and>
     read_request bs = Some (Create [72, 0xAC00] 4 False (Some [49]))"
  by (rule request_roundtrip) (simp add: sendable_def scalar_def utf8_char_def)

lemma fit_maximal:
  "\<exists>k\<le>length s. fit n s = take k s \<and> length (concat (map utf8_char (take k s))) \<le> n \<and>
     (k < length s \<longrightarrow> n < length (concat (map utf8_char (take (Suc k) s))))"
proof (induction s arbitrary: n)
  case (Cons c s)
  let ?l = "length (utf8_char c)"
  show ?case
  proof (cases "?l \<le> n")
    case True
    from Cons.IH [of "n - ?l"] obtain k where k: "k \<le> length s" "fit (n - ?l) s = take k s"
      "length (concat (map utf8_char (take k s))) \<le> n - ?l"
      "k < length s \<longrightarrow> n - ?l < length (concat (map utf8_char (take (Suc k) s)))" by blast
    with True show ?thesis by (intro exI [of _ "Suc k"]) (auto simp del: take_Suc)
  next
    case False
    then show ?thesis by (intro exI [of _ 0]) simp
  qed
qed simp

text \<open>
  C14: a string in a field of \<open>n\<close> bytes. Any encodable string without NUL is packed into exactly
  \<open>n\<close> bytes, and the receiver reads its longest prefix of whole characters whose UTF-8 form fits: a
  character cut in the middle is dropped, never garbled. Strings with a surrogate raise.
\<close>

theorem str_field_prefix:
  assumes "0 \<notin> set s"
  shows "case str_to_bytes s n of
      Inl e \<Rightarrow> e = UnicodeError \<and> \<not> list_all scalar s
    | Inr bs \<Rightarrow> list_all scalar s \<and> length bs = n \<and> (\<exists>k\<le>length s. convert TStr (VBytes bs) = VStr (take k s) \<and>
        length (concat (map utf8_char (take k s))) \<le> n \<and>
        (k < length s \<longrightarrow> n < length (concat (map utf8_char (take (Suc k) s)))))"
proof (cases "list_all scalar s")
  case True
  from str_to_bytes_fit [OF this assms, of n] obtain bs where
    "str_to_bytes s n = Inr bs" "length bs = n" "field_text bs = fit n s" by blast
  with True fit_maximal [of s n] show ?thesis by (auto simp: field_text_def)
next
  case False
  then show ?thesis by (simp add: str_to_bytes_def str_encode_def)
qed

theorem str_field_prefix_witness:
  "\<exists>bs. str_to_bytes (replicate 20 0xAC00) 48 = Inr bs \<and> length bs = 48"
proof -
  have "list_all scalar (replicate 20 0xAC00)" by (simp add: scalar_def list_all_iff)
  with str_field_prefix [of "replicate 20 0xAC00" 48] show ?thesis by (auto split: sum.splits)
qed

text \<open>
  C15: a chat message relayed by the server (fixed part with sender and name, then the text)
  decodes to that sender, name and text, whatever the length of the text.
\<close>

theorem chat_roundtrip:
  assumes "int_range Ci i" "sendable 48 name" "list_all scalar txt" "0 \<notin> set txt"
    and "length (concat (map utf8_char txt)) \<le> 65480"
  shows "\<exists>nb tb fixed p. str_to_bytes name 48 = Inr nb \<and> str_encode txt = Inr tb \<and>
    struct_pack (cls_fmt S2C_MESSAGE_PACKET) [VInt (55 + int (length tb)), VInt S2C_MESSAGE, VInt i, VBytes nb]
      = Inr fixed \<and>
    bytes_to_struct (fixed @ tb) = Inr p \<and> view p = Inr (P_MESSAGE i name txt)"
proof -
  from assms(2) obtain nb where nb: "str_to_bytes name 48 = Inr nb" "length nb = 48" "field_text nb = name"
    using str_to_bytes_sendable by metis
  from assms(3) obtain tb where tb: "str_encode txt = Inr tb" "tb = map of_nat (concat (map utf8_char txt))"
    by (simp add: str_encode_def)
  have tx: "field_text tb = txt"
  proof -
    have "takeWhile (\<lambda>b. b \<noteq> 0) tb = tb"
      using takeWhile_zeros [OF encoded_nonzero [OF assms(3,4)], of 0] unfolding tb(2)
      by (simp only: replicate_0 append_Nil2)
    with decode_ignore_encode [OF tb(1)] show ?thesis by (simp only: field_text_def)
  qed
  have fmt: "body_fmt S2C_MESSAGE_PACKET = [Ci, Cs 48]"
    by (simp add: body_fmt_def S2C_MESSAGE_PACKET_def class_makers packet_limits)
  let ?sz = "55 + int (length tb)"
  have "list_all2 exact_value (body_fmt S2C_MESSAGE_PACKET) [VInt i, VBytes nb]" "0 \<le> ?sz" "?sz < 65536"
    using assms(1,5) nb(2) fmt tb(2) by simp_all
  from struct_pack_frame [OF this(1) message_class this(2,3)] obtain fixed where
    f: "struct_pack (cls_fmt S2C_MESSAGE_PACKET) (VInt ?sz # VInt S2C_MESSAGE # [VInt i, VBytes nb]) = Inr fixed"
      "length fixed = 55"
    and r: "frame_size (fixed @ tb) = ?sz" "frame_type (fixed @ tb) = S2C_MESSAGE"
      "read_fields (body_fmt S2C_MESSAGE_PACKET) (drop 3 (fixed @ tb)) = [VInt i, VBytes nb]"
    by (auto simp: message_size)
  from f(2) have l: "3 \<le> length (fixed @ tb)" by simp
  have "bytes_to_struct (fixed @ tb) = Inr (decoded S2C_MESSAGE_PACKET ?sz S2C_MESSAGE [VInt i, VBytes nb, VBytes tb])"
    unfolding bytes_to_struct_message [OF l r(2)] r using f(2) by simp
  moreover have "view (decoded S2C_MESSAGE_PACKET ?sz S2C_MESSAGE [VInt i, VBytes nb, VBytes tb])
      = Inr (P_MESSAGE i name txt)"
    using nb(3) tx by (simp add: view_def VIEWS_def dict_get_def decoded_def packet_types typed_attrs
        S2C_MESSAGE_PACKET_def class_makers field_text_def)
  ultimately show ?thesis using nb(1) tb(1) f(1) by auto
qed

theorem chat_roundtrip_witness:
  "\<exists>fixed p. bytes_to_struct (fixed @ [104, 105]) = Inr p \<and> view p = Inr (P_MESSAGE 7 [65] [104, 105])"
proof -
  have "sendable 48 [65]" "list_all scalar [104, 105]" "str_encode [104, 105] = Inr [104, 105]"
    by (simp_all add: sendable_def scalar_def utf8_char_def str_encode_def)
  with chat_roundtrip [of 7 "[65]" "[104, 105]"] show ?thesis by (auto simp: utf8_char_def)
qed

end
