(* ===== verification/PacketStream.thy ===== *)
theory PacketStream
  imports Builder
begin

text \<open>
  The byte stream from the server: \<open>PacketManager\<close>
  (\<^verbatim>\<open>client/tetris/net/packet_manager.py\<close>), which cuts the received bytes into packets
  and queues them, and \<open>NetworkWorker\<close> (\<^verbatim>\<open>client/tetris/net/network.py\<close>), whose
  receiving thread feeds it. The interface \<open>framing\<close> states what any such cutter relies on: the
  size and the parse of a frame depend only on its own bytes. The two threads that share the bounded
  queue are a step relation.
\<close>

subsection \<open>Cutting a stream into frames\<close>

text \<open>
  The result of a scan: the parsed packets, the bytes not consumed, and the exception that ended
  the scan, if any.
\<close>

type_synonym 'p scan = "'p list \<times> bytes \<times> py_error option"

function scan_frames :: "nat \<Rightarrow> (bytes \<Rightarrow> int) \<Rightarrow> (bytes \<Rightarrow> 'p py) \<Rightarrow> bytes \<Rightarrow> 'p scan" where
  "scan_frames hdr size_of parse buf =
     (if length buf < hdr then ([], buf, None)
      else let size = size_of buf in
        if size < int hdr \<or> hdr = 0 then ([], buf, Some ValueError)
        else if int (length buf) < size then ([], buf, None)
        else case parse (take (nat size) buf) of
            Inl e \<Rightarrow> ([], buf, Some e)
          | Inr data \<Rightarrow>
              let (ps, rest, err) = scan_frames hdr size_of parse (drop (nat size) buf)
              in (data # ps, rest, err))"
  by pat_completeness auto
termination
  by (relation "measure (\<lambda>(_, _, _, buf). length buf)") auto

declare scan_frames.simps [simp del]

text \<open>
  The interface: \<open>hdr\<close> bytes decide the size of a frame. The client gets that the scan does not
  depend on how the stream is cut into chunks.
\<close>

locale framing =
  fixes hdr :: nat
    and size_of :: "bytes \<Rightarrow> int"
    and parse :: "bytes \<Rightarrow> 'p py"
  assumes hdr_pos: "0 < hdr"
    and size_prefix: "hdr \<le> length buf \<Longrightarrow> size_of (buf @ tail) = size_of buf"
begin

abbreviation scan :: "bytes \<Rightarrow> 'p scan" where
  "scan \<equiv> scan_frames hdr size_of parse"

lemma scan_append:
  assumes "scan a = (ps, rest, None)"
  shows "scan (a @ b) = (let (ps', rest', err) = scan (rest @ b) in (ps @ ps', rest', err))"
  using assms
proof (induction "length a" arbitrary: a ps rule: less_induct)
  case less
  show ?case
  proof (cases "length a < hdr \<or> int (length a) < size_of a")
    case True
    with less.prems have "ps = []" "rest = a"
      by (subst (asm) scan_frames.simps; auto simp: Let_def split: if_splits)+
    then show ?thesis by simp
  next
    case False
    then have l: "hdr \<le> length a" "size_of a \<le> int (length a)" by simp_all
    from less.prems l have s: "int hdr \<le> size_of a"
      by (subst (asm) scan_frames.simps) (auto simp: Let_def split: if_splits)
    let ?n = "nat (size_of a)"
    from less.prems l s obtain data ps1 where d: "parse (take ?n a) = Inr data"
      and rec: "scan (drop ?n a) = (ps1, rest, None)" and ps: "ps = data # ps1"
      by (subst (asm) scan_frames.simps) (auto simp: Let_def split: if_splits sum.splits prod.splits)
    have n: "?n \<le> length a" "0 < ?n" using l s hdr_pos by auto
    then have "length (drop ?n a) < length a" by simp
    from less.hyps [OF this rec]
    have IH: "scan (drop ?n a @ b) = (let (ps', rest', err) = scan (rest @ b) in (ps1 @ ps', rest', err))" .
    have eq: "size_of (a @ b) = size_of a" "take ?n (a @ b) = take ?n a" "drop ?n (a @ b) = drop ?n a @ b"
      using size_prefix [OF l(1)] n(1) by simp_all
    show ?thesis
      using l s hdr_pos n d IH ps eq
      by (subst scan_frames.simps) (auto simp: Let_def split: prod.split)
  qed
qed

text \<open>The frames of a stream: bytes \<open>f\<close> whose size is their length and that parse.\<close>

definition frame :: "bytes \<Rightarrow> 'p \<Rightarrow> bool" where
  "frame f p \<longleftrightarrow> hdr \<le> length f \<and> size_of f = int (length f) \<and> parse f = Inr p"

lemma scan_frame:
  assumes "frame f p"
  shows "scan (f @ b) = (let (ps, rest, err) = scan b in (p # ps, rest, err))"
  using assms size_prefix [of f b] hdr_pos
  by (subst scan_frames.simps) (auto simp: frame_def Let_def split: prod.split)

lemma scan_concat:
  "list_all2 frame fs ps \<Longrightarrow> scan (concat fs @ b) = (let (ps', rest, err) = scan b in (ps @ ps', rest, err))"
  by (induction fs ps rule: list_all2_induct) (auto simp: scan_frame Let_def split: prod.split)

lemma scan_Nil [simp]: "scan [] = ([], [], None)"
  using hdr_pos by (subst scan_frames.simps) simp

lemma scan_incomplete:
  assumes "frame f p" "f = a @ b" "b \<noteq> []"
  shows "scan a = ([], a, None)"
proof (cases "length a < hdr")
  case False
  then have "size_of a = int (length f)" using assms size_prefix [of a b] by (simp add: frame_def)
  with assms False hdr_pos show ?thesis
    by (subst scan_frames.simps) (auto simp: frame_def Let_def)
qed (subst scan_frames.simps, simp)

text \<open>Feeding chunks one after the other equals scanning their concatenation.\<close>

fun feed :: "bytes list \<Rightarrow> bytes \<Rightarrow> 'p scan" where
  "feed [] buf = ([], buf, None)"
| "feed (c # cs) buf = (case scan (buf @ c) of
     (ps, rest, Some e) \<Rightarrow> (ps, rest, Some e)
   | (ps, rest, None) \<Rightarrow> let (ps', rest', err) = feed cs rest in (ps @ ps', rest', err))"

lemma scan_append_error:
  assumes "scan a = (ps, rest, Some e)"
  shows "scan (a @ b) = (ps, rest @ b, Some e)"
  using assms
proof (induction "length a" arbitrary: a ps rule: less_induct)
  case less
  have l: "hdr \<le> length a"
    using less.prems by (subst (asm) scan_frames.simps) (auto split: if_splits)
  note eq = size_prefix [OF l, of b]
  let ?n = "nat (size_of a)"
  show ?case
  proof (cases "size_of a < int hdr")
    case True
    with less.prems l hdr_pos have "ps = []" "rest = a" "e = ValueError"
      by (subst (asm) scan_frames.simps; simp add: Let_def)+
    with True l eq show ?thesis by (subst scan_frames.simps) (simp add: Let_def)
  next
    case False
    have fits: "size_of a \<le> int (length a)"
      using less.prems l False hdr_pos
      by (subst (asm) scan_frames.simps) (auto simp: Let_def split: if_splits)
    then have n: "?n \<le> length a" "0 < ?n" using False hdr_pos by auto
    show ?thesis
    proof (cases "parse (take ?n a)")
      case (Inl e')
      with less.prems l False fits hdr_pos have "ps = []" "rest = a" "e = e'"
        by (subst (asm) scan_frames.simps; simp add: Let_def)+
      with Inl l False fits hdr_pos n eq show ?thesis by (subst scan_frames.simps) (simp add: Let_def)
    next
      case (Inr d)
      with less.prems l False fits hdr_pos obtain ps1 where
        rec: "scan (drop ?n a) = (ps1, rest, Some e)" and ps: "ps = d # ps1"
        by (subst (asm) scan_frames.simps) (auto simp: Let_def split: prod.splits)
      from less.hyps [OF _ rec] n have "scan (drop ?n a @ b) = (ps1, rest @ b, Some e)" by simp
      with Inr l False fits hdr_pos n eq ps show ?thesis by (subst scan_frames.simps) (simp add: Let_def)
    qed
  qed
qed

lemma scan_rest:
  assumes "scan a = (ps, rest, None)"
  shows "scan rest = ([], rest, None)"
proof -
  from scan_append [OF assms, of "[]"] assms show ?thesis
    by (cases "scan rest") (auto simp: Let_def)
qed

lemma feed_scan:
  assumes "scan buf = ([], buf, None)" "feed cs buf = (ps, rest, err)"
  shows "\<exists>rest'. scan (buf @ concat cs) = (ps, rest', err) \<and> (err = None \<longrightarrow> rest' = rest)"
  using assms
proof (induction cs arbitrary: buf ps)
  case Nil
  then show ?case by simp
next
  case (Cons c cs)
  obtain ps1 rest1 err1 where s: "scan (buf @ c) = (ps1, rest1, err1)" by (cases "scan (buf @ c)") auto
  show ?case
  proof (cases err1)
    case (Some e)
    with Cons.prems(2) s have "ps = ps1" "err = Some e" by simp_all
    with scan_append_error [of "buf @ c" ps1 rest1 e "concat cs"] s Some show ?thesis by simp
  next
    case None
    then obtain ps2 where f: "feed cs rest1 = (ps2, rest, err)" "ps = ps1 @ ps2"
      using Cons.prems(2) s by (auto simp: Let_def split: prod.splits)
    from Cons.IH [OF scan_rest f(1)] s None obtain rest' where
      "scan (rest1 @ concat cs) = (ps2, rest', err)" "err = None \<longrightarrow> rest' = rest" by blast
    with scan_append [of "buf @ c" ps1 rest1 "concat cs"] s None f(2) show ?thesis by (simp add: Let_def)
  qed
qed

end

subsection \<open>PacketManager\<close>

definition MAX_QUEUE_SIZE :: nat where "MAX_QUEUE_SIZE = 1024"

record packet_manager =
  recv_buffer :: bytes
  pm_queue :: "packet list"

definition PacketManager :: packet_manager where
  "PacketManager = \<lparr>recv_buffer = [], pm_queue = []\<rparr>"

definition merge_packet :: "bytes \<Rightarrow> packet_manager \<Rightarrow> packet_manager" where
  "merge_packet pkt pm = pm\<lparr>recv_buffer := recv_buffer pm @ pkt\<rparr>"

text \<open>
  An exception leaves the buffer as it is, since \<open>del buf[:offset]\<close> is not reached; the packets
  already queued stay. The wait for room in the queue is in the step relation below.
\<close>

definition process_packet :: "packet_manager \<Rightarrow> packet_manager \<times> py_error option" where
  "process_packet pm = (case scan_frames HEADER_SIZE frame_size bytes_to_struct (recv_buffer pm) of
     (ps, rest, None) \<Rightarrow> (pm\<lparr>recv_buffer := rest, pm_queue := pm_queue pm @ ps\<rparr>, None)
   | (ps, rest, Some e) \<Rightarrow> (pm\<lparr>pm_queue := pm_queue pm @ ps\<rparr>, Some e))"

lemma HEADER_SIZE_eq: "HEADER_SIZE = 3"
  by (simp add: HEADER_SIZE_def HEADER_FMT_def)

interpretation stream: framing HEADER_SIZE frame_size bytes_to_struct
  by unfold_locales (simp_all add: HEADER_SIZE_eq frame_size_def)

subsection \<open>NetworkWorker\<close>

text \<open>
  \<open>sock_open\<close> is whether the socket object was not closed. What the socket does is given from
  outside: whether \<open>connect\<close> and \<open>sendall\<close> succeed, and the results of the \<open>recv\<close> calls.
\<close>

record net_worker =
  running :: bool
  sock_open :: bool
  manager :: packet_manager
  outbox :: "bytes list"

definition NetworkWorker :: net_worker where
  "NetworkWorker = \<lparr>running = False, sock_open = True, manager = PacketManager, outbox = []\<rparr>"

definition connect_to_server :: "bool \<Rightarrow> net_worker \<Rightarrow> bool \<times> net_worker" where
  "connect_to_server ok w =
     (if ok then (True, w\<lparr>running := True, sock_open := True\<rparr>) else (False, w\<lparr>running := False\<rparr>))"

datatype recv_result = Received bytes | Recv_error

text \<open>The receiving thread on the results of its \<open>recv\<close> calls; no result left means it is blocked.\<close>

fun recv_loop :: "recv_result list \<Rightarrow> net_worker \<Rightarrow> net_worker" where
  "recv_loop [] w = w"
| "recv_loop (Recv_error # rs) w = (if \<not> running w then w else w\<lparr>sock_open := False\<rparr>)"
| "recv_loop (Received bs # rs) w =
     (if \<not> running w then w
      else if bs = [] then w
      else case process_packet (merge_packet bs (manager w)) of
          (pm, None) \<Rightarrow> recv_loop rs (w\<lparr>manager := pm\<rparr>)
        | (pm, Some e) \<Rightarrow> w\<lparr>manager := pm, sock_open := False\<rparr>)"

definition send_packet :: "bool \<Rightarrow> bytes \<Rightarrow> net_worker \<Rightarrow> bool \<times> net_worker" where
  "send_packet sendall_ok data w =
     (if \<not> running w then (False, w)
      else if sendall_ok then (True, w\<lparr>outbox := outbox w @ [data]\<rparr>)
      else (False, w))"

lemma recv_loop_feed:
  assumes "running w" "\<And>c. c \<in> set cs \<Longrightarrow> c \<noteq> []"
    and "stream.feed cs (recv_buffer (manager w)) = (ps, rest, err)"
  shows "\<exists>buf. recv_loop (map Received cs) w =
    w\<lparr>manager := \<lparr>recv_buffer = buf, pm_queue = pm_queue (manager w) @ ps\<rparr>,
      sock_open := (sock_open w \<and> err = None)\<rparr> \<and> (err = None \<longrightarrow> buf = rest)"
  using assms
proof (induction cs arbitrary: w ps)
  case Nil
  then show ?case by (cases "manager w") (auto intro!: exI [of _ rest])
next
  case (Cons c cs)
  let ?buf = "recv_buffer (manager w)"
  obtain ps1 rest1 err1 where s: "stream.scan (?buf @ c) = (ps1, rest1, err1)"
    by (cases "stream.scan (?buf @ c)") auto
  show ?case
  proof (cases err1)
    case (Some e)
    with Cons.prems s show ?thesis
      by (auto simp: process_packet_def merge_packet_def intro!: exI [of _ "?buf @ c"])
  next
    case None
    let ?w = "w\<lparr>manager := \<lparr>recv_buffer = rest1, pm_queue = pm_queue (manager w) @ ps1\<rparr>\<rparr>"
    from None Cons.prems(3) s obtain ps2 where f: "stream.feed cs rest1 = (ps2, rest, err)" "ps = ps1 @ ps2"
      by (auto simp: Let_def split: prod.splits)
    from None Cons.prems(1,2) s have "recv_loop (map Received (c # cs)) w = recv_loop (map Received cs) ?w"
      by (cases "manager w") (auto simp: process_packet_def merge_packet_def)
    with Cons.IH [of ?w ps2] Cons.prems(1,2) f show ?thesis by auto
  qed
qed

subsection \<open>Frames of the protocol\<close>

definition is_frame :: "bytes \<Rightarrow> packet \<Rightarrow> bool" where
  "is_frame f p \<longleftrightarrow> 3 \<le> length f \<and> frame_size f = int (length f) \<and> bytes_to_struct f = Inr p"

text \<open>A complete frame that ends the thread: its size field is below 3, or it does not decode.\<close>

definition bad_frame :: "bytes \<Rightarrow> bool" where
  "bad_frame f \<longleftrightarrow> 3 \<le> length f \<and> (frame_size f < 3 \<or> frame_size f = int (length f) \<and> raises (bytes_to_struct f))"

lemma is_frame_eq: "is_frame f p = stream.frame f p"
  unfolding is_frame_def stream.frame_def by (simp add: HEADER_SIZE_eq)

lemma scan_bad: "bad_frame f \<Longrightarrow> \<exists>e. stream.scan (f @ b) = ([], f @ b, Some e)"
proof -
  assume "bad_frame f"
  moreover from this have "frame_size (f @ b) = frame_size f"
    by (intro stream.size_prefix) (simp add: bad_frame_def HEADER_SIZE_eq)
  ultimately show ?thesis
    by (subst scan_frames.simps) (auto simp: bad_frame_def HEADER_SIZE_eq Let_def)
qed

definition incomplete :: "bytes \<Rightarrow> bool" where
  "incomplete b \<longleftrightarrow> length b < 3 \<or> 3 \<le> frame_size b \<and> int (length b) < frame_size b"

lemma incomplete_scan: "incomplete b \<Longrightarrow> stream.scan b = ([], b, None)"
  by (subst scan_frames.simps) (auto simp: incomplete_def HEADER_SIZE_eq Let_def)

subsection \<open>The receiving thread and the main thread\<close>

text \<open>
  Where the receiving thread stands: in \<open>recv\<close>, at the head of the loop of \<open>process_packet\<close> with
  its offset, in the wait for room in the queue (with the packet and the offset behind it), or
  ended.
\<close>

datatype place = Receiving | Scanning nat | Putting packet nat | Stopped

record shared =
  incoming :: "bytes list"
  sh_buf :: bytes
  pc :: place
  sh_queue :: "packet list"
  got :: "packet list"

inductive net_step :: "shared \<Rightarrow> shared \<Rightarrow> bool" where
  recv: "pc s = Receiving \<Longrightarrow> incoming s = c # cs \<Longrightarrow> c \<noteq> [] \<Longrightarrow>
    net_step s (s\<lparr>incoming := cs, sh_buf := sh_buf s @ c, pc := Scanning 0\<rparr>)"
| closed: "pc s = Receiving \<Longrightarrow> incoming s = [] \<Longrightarrow> net_step s (s\<lparr>pc := Stopped\<rparr>)"
| finish: "pc s = Scanning off \<Longrightarrow> incomplete (drop off (sh_buf s)) \<Longrightarrow>
    net_step s (s\<lparr>sh_buf := drop off (sh_buf s), pc := Receiving\<rparr>)"
| bad_size: "pc s = Scanning off \<Longrightarrow> 3 \<le> length (drop off (sh_buf s)) \<Longrightarrow> frame_size (drop off (sh_buf s)) < 3 \<Longrightarrow>
    net_step s (s\<lparr>pc := Stopped\<rparr>)"
| bad_packet: "pc s = Scanning off \<Longrightarrow> b = drop off (sh_buf s) \<Longrightarrow> 3 \<le> length b \<Longrightarrow> 3 \<le> frame_size b \<Longrightarrow>
    frame_size b \<le> int (length b) \<Longrightarrow> bytes_to_struct (take (nat (frame_size b)) b) = Inl e \<Longrightarrow>
    net_step s (s\<lparr>pc := Stopped\<rparr>)"
| parsed: "pc s = Scanning off \<Longrightarrow> b = drop off (sh_buf s) \<Longrightarrow> 3 \<le> length b \<Longrightarrow> 3 \<le> frame_size b \<Longrightarrow>
    frame_size b \<le> int (length b) \<Longrightarrow> bytes_to_struct (take (nat (frame_size b)) b) = Inr p \<Longrightarrow>
    net_step s (s\<lparr>pc := Putting p (off + nat (frame_size b))\<rparr>)"
| put: "pc s = Putting p off \<Longrightarrow> length (sh_queue s) < MAX_QUEUE_SIZE \<Longrightarrow>
    net_step s (s\<lparr>sh_queue := sh_queue s @ [p], pc := Scanning off\<rparr>)"
| get: "sh_queue s = p # q \<Longrightarrow> net_step s (s\<lparr>sh_queue := q, got := got s @ [p]\<rparr>)"

inductive_cases net_stepE: "net_step s s'"

inductive reachable :: "bytes list \<Rightarrow> shared \<Rightarrow> bool" for cs where
  start: "(\<And>c. c \<in> set cs \<Longrightarrow> c \<noteq> []) \<Longrightarrow>
    reachable cs \<lparr>incoming = cs, sh_buf = [], pc = Receiving, sh_queue = [], got = []\<rparr>"
| step: "reachable cs s \<Longrightarrow> net_step s s' \<Longrightarrow> reachable cs s'"

text \<open>The packets still to come, by where the thread stands.\<close>

definition to_come :: "shared \<Rightarrow> packet list" where
  "to_come s = (case pc s of
     Receiving \<Rightarrow> fst (stream.scan (sh_buf s @ concat (incoming s)))
   | Scanning off \<Rightarrow> fst (stream.scan (drop off (sh_buf s) @ concat (incoming s)))
   | Putting p off \<Rightarrow> p # fst (stream.scan (drop off (sh_buf s) @ concat (incoming s)))
   | Stopped \<Rightarrow> [])"

definition net_inv :: "bytes list \<Rightarrow> shared \<Rightarrow> bool" where
  "net_inv cs s \<longleftrightarrow> got s @ sh_queue s @ to_come s = fst (stream.scan (concat cs)) \<and>
     length (sh_queue s) \<le> MAX_QUEUE_SIZE \<and>
     (pc s = Receiving \<longrightarrow> incomplete (sh_buf s)) \<and>
     (\<forall>c \<in> set (incoming s). c \<noteq> [])"

lemma frame_size_take:
  assumes "3 \<le> length b" "3 \<le> n"
  shows "frame_size (take n b) = frame_size b"
  using assms by (simp add: frame_size_def min_def)

lemma scan_parsed:
  assumes "3 \<le> length b" "3 \<le> frame_size b" "frame_size b \<le> int (length b)"
    and "bytes_to_struct (take (nat (frame_size b)) b) = Inr p"
  shows "fst (stream.scan (b @ c)) = p # fst (stream.scan (drop (nat (frame_size b)) b @ c))"
proof -
  let ?n = "nat (frame_size b)"
  from assms have "3 \<le> ?n" "?n \<le> length b" "int ?n = frame_size b" by simp_all
  with assms have "is_frame (take ?n b) p" by (simp add: is_frame_def frame_size_take)
  from stream.scan_frame [OF this [unfolded is_frame_eq], of "drop ?n b @ c"]
  have "stream.scan (b @ c) = (let (ps, rest, err) = stream.scan (drop ?n b @ c) in (p # ps, rest, err))"
    by (simp only: append_assoc [symmetric] append_take_drop_id)
  then show ?thesis by (simp add: Let_def split_beta)
qed

lemma scan_stop:
  assumes "3 \<le> length b" "frame_size b < 3 \<or> 3 \<le> frame_size b \<and> frame_size b \<le> int (length b) \<and>
    bytes_to_struct (take (nat (frame_size b)) b) = Inl e"
  shows "fst (stream.scan (b @ c)) = []"
proof (cases "frame_size b < 3")
  case True
  with assms(1) scan_bad [of b c] show ?thesis by (auto simp: bad_frame_def)
next
  case False
  let ?n = "nat (frame_size b)"
  from False assms(2) have "3 \<le> ?n" "?n \<le> length b" "int ?n = frame_size b" by linarith+
  with False assms have "bad_frame (take ?n b)" by (simp add: bad_frame_def frame_size_take)
  from scan_bad [OF this, of "drop ?n b @ c"] obtain e where
    "stream.scan (take ?n b @ drop ?n b @ c) = ([], take ?n b @ drop ?n b @ c, Some e)" ..
  then show ?thesis by (simp only: append_assoc [symmetric] append_take_drop_id fst_conv)
qed

lemma net_inv_step:
  assumes "net_step s s'" "net_inv cs s"
  shows "net_inv cs s'"
  using assms
proof (cases rule: net_step.cases)
  case (parsed off b p)
  have "drop (off + nat (frame_size b)) (sh_buf s) = drop (nat (frame_size b)) b"
    by (simp add: parsed(3) add.commute)
  with parsed assms(2) scan_parsed [of b p "concat (incoming s)"] show ?thesis
    by (simp add: net_inv_def to_come_def)
next
  case (bad_size off)
  with assms(2) scan_stop [of "drop off (sh_buf s)" _ "concat (incoming s)"] show ?thesis
    by (simp add: net_inv_def to_come_def)
next
  case (bad_packet off b e)
  with assms(2) scan_stop [of b e "concat (incoming s)"] show ?thesis
    by (simp add: net_inv_def to_come_def)
next
  case closed
  with assms(2) incomplete_scan [of "sh_buf s"] show ?thesis by (simp add: net_inv_def to_come_def)
qed (use assms(2) in \<open>auto simp: net_inv_def to_come_def split: place.splits\<close>)

lemma net_inv_reachable: "reachable cs s \<Longrightarrow> net_inv cs s"
proof (induction rule: reachable.induct)
  case start
  then show ?case by (simp add: net_inv_def to_come_def incomplete_def)
next
  case (step s s')
  then show ?case by (blast intro: net_inv_step)
qed

lemma net_progress:
  assumes "\<forall>c \<in> set (incoming s). c \<noteq> []" "pc s \<noteq> Stopped"
  shows "\<exists>s'. net_step s s'"
proof (cases "pc s")
  case Receiving
  then show ?thesis using assms(1) by (cases "incoming s") (auto intro: net_step.intros)
next
  case (Scanning off)
  let ?b = "drop off (sh_buf s)"
  consider "incomplete ?b" | "3 \<le> length ?b" "frame_size ?b < 3"
    | "3 \<le> length ?b" "3 \<le> frame_size ?b" "frame_size ?b \<le> int (length ?b)"
    unfolding incomplete_def by linarith
  then show ?thesis
  proof cases
    case 3
    then show ?thesis using Scanning
      by (cases "bytes_to_struct (take (nat (frame_size ?b)) ?b)") (blast intro: net_step.intros)+
  qed (use Scanning in \<open>blast intro: net_step.intros\<close>)+
next
  case (Putting p off)
  show ?thesis
  proof (cases "length (sh_queue s) < MAX_QUEUE_SIZE")
    case True
    with Putting show ?thesis by (blast intro: net_step.put)
  next
    case False
    then obtain p q where "sh_queue s = p # q" by (cases "sh_queue s") (auto simp: MAX_QUEUE_SIZE_def)
    then show ?thesis by (blast intro: net_step.get)
  qed
qed (use assms(2) in simp)

subsection \<open>Properties\<close>





text \<open>
  C8: the two threads and the bounded queue. In every interleaving what the main thread has
  taken, followed by the queue, is a prefix of the packets of the stream in their order; the queue
  never exceeds 1024; no state but the end of the thread is stuck; and when the thread has ended and
  the queue is empty, the main thread has got every packet.
\<close>

theorem queue_delivery:
  assumes "reachable cs s"
  shows "(\<exists>later. got s @ sh_queue s @ later = fst (scan_frames HEADER_SIZE frame_size bytes_to_struct (concat cs)))
    \<and> length (sh_queue s) \<le> 1024
    \<and> (pc s \<noteq> Stopped \<longrightarrow> (\<exists>s'. net_step s s'))
    \<and> (pc s = Stopped \<and> sh_queue s = [] \<longrightarrow>
        got s = fst (scan_frames HEADER_SIZE frame_size bytes_to_struct (concat cs)))"
proof -
  from net_inv_reachable [OF assms] have inv: "net_inv cs s" .
  then have "got s @ sh_queue s @ to_come s = fst (stream.scan (concat cs))"
    "length (sh_queue s) \<le> 1024" "\<forall>c \<in> set (incoming s). c \<noteq> []"
    by (simp_all add: net_inv_def MAX_QUEUE_SIZE_def)
  with net_progress [of s] show ?thesis
    by (intro conjI exI [of _ "to_come s"]) (auto simp: to_come_def)
qed

theorem queue_delivery_witness:
  "length (sh_queue \<lparr>incoming = [[3, 0]], sh_buf = [], pc = Receiving, sh_queue = [], got = []\<rparr>) \<le> 1024 \<and>
   (\<exists>s'. net_step \<lparr>incoming = [[3, 0]], sh_buf = [], pc = Receiving, sh_queue = [], got = []\<rparr> s')"
proof -
  have "reachable [[3, 0]] \<lparr>incoming = [[3, 0]], sh_buf = [], pc = Receiving, sh_queue = [], got = []\<rparr>"
    by (rule reachable.start) auto
  from queue_delivery [OF this] show ?thesis by simp
qed

end
