(* ===== verification/GameSession.thy ===== *)
theory GameSession
  imports Board Controller PacketStream
begin

text \<open>
  One player's game: \<open>Session\<close> (\<^verbatim>\<open>client/tetris/net/session.py\<close>) and \<open>TetrisSession\<close>
  (\<^verbatim>\<open>client/tetris/game/tetris_session.py\<close>), which joins the board, the controller and the
  buttons and reacts to the packets of a running game. Text sizes are left
  out; what a session draws is in \<open>Drawing\<close>.
\<close>

subsection \<open>Session\<close>

record session =
  s_id :: int
  is_self :: bool
  nickname :: pystr
  win :: int
  lose :: int
  max_score :: int

definition Session :: session where
  "Session = \<lparr>s_id = -1, is_self = False, nickname = [], win = 0, lose = 0, max_score = 0\<rparr>"

definition set_my_session :: "session \<Rightarrow> session" where
  "set_my_session s = s\<lparr>is_self := True\<rparr>"

definition set_is_not_my_session :: "int \<Rightarrow> pystr \<Rightarrow> session \<Rightarrow> session" where
  "set_is_not_my_session i name s = s\<lparr>s_id := i, nickname := name\<rparr>"

subsection \<open>TetrisSession\<close>

record tsession =
  ts_rect :: rect
  ts_board :: board
  ts_session :: "session option"
  is_single :: bool
  ts_controller :: "controller option"
  ts_state :: TSessionState
  score :: int
  prev_packet_type :: "int option"
  nickname_text :: pystr
  btn_start :: "button option"
  btn_ready :: "toggle_button option"
  btn_kick :: "button option"
  ready_rect :: rect
  is_host :: bool

definition START_TEXT :: pystr where "START_TEXT = [0xAC8C, 0xC784, 0xC2DC, 0xC791]"
definition KICK_TEXT :: pystr where "KICK_TEXT = [88]"

text \<open>
  The layout. \<open>board_h\<close> is what \<open>self.rect.h*0.9\<close> becomes in the rectangle of the board, and
  \<open>nick_h\<close> what \<open>nickname_rect.h*0.1\<close> becomes (products of floats that pygame turns into integers).
\<close>

definition tsession_layout :: "int \<Rightarrow> int \<Rightarrow> rect \<Rightarrow> bool \<Rightarrow> tsession" where
  "tsession_layout board_h nick_h r single =
     (let b = TetrisBoard (r\<lparr>rect_h := board_h\<rparr>);
          v = valid_grid_rect b;
          nick = v\<lparr>rect_y := rect_y v + rect_h v, rect_h := nick_h\<rparr>;
          side = nick\<lparr>rect_x := rect_x nick + rect_w nick, rect_w := rect_w (preview_rect b)\<rparr>
      in \<lparr>ts_rect = r, ts_board = b, ts_session = None, is_single = single, ts_controller = None,
          ts_state = EMPTY, score = 0, prev_packet_type = None, nickname_text = [],
          btn_start = (if single then Some (Button side True START_TEXT) else None),
          btn_ready = (if single then None else Some (ToggleButton side)), btn_kick = None,
          ready_rect = side, is_host = False\<rparr>)"

definition set_score :: "int \<Rightarrow> tsession \<Rightarrow> tsession" where
  "set_score new_score s = (if \<not> is_single s then s else s\<lparr>score := new_score\<rparr>)"

definition init_session :: "session \<Rightarrow> tsession \<Rightarrow> tsession py" where
  "init_session se s =
     (let s = s\<lparr>ts_session := Some se\<rparr>;
          s = (if \<not> is_self se then s\<lparr>btn_ready := map_option (set_reactable False) (btn_ready s)\<rparr> else s);
          s = (if is_self se then s\<lparr>ts_controller := Some TetrisController\<rparr> else s)
      in py_bind (board_init (ts_board s)) (\<lambda>b.
         let s = s\<lparr>ts_board := b, nickname_text := nickname se\<rparr>;
             s = (if is_single s then set_score 0 s else s)
         in Inr (s\<lparr>ts_state := WAIT\<rparr>)))"

definition set_nickname :: "pystr \<Rightarrow> tsession \<Rightarrow> tsession" where
  "set_nickname name s = s\<lparr>nickname_text := name\<rparr>"

definition set_ready :: "bool \<Rightarrow> tsession \<Rightarrow> tsession py" where
  "set_ready is_ready s =
     (if is_single s then Inr s
      else case btn_ready s of None \<Rightarrow> Inl AttributeError
      | Some t \<Rightarrow> Inr (s\<lparr>btn_ready := Some (set_pressed is_ready t)\<rparr>))"

definition set_is_host :: "tsession \<Rightarrow> tsession py" where
  "set_is_host s =
     (let s = s\<lparr>is_host := True\<rparr> in
      case ts_session s of None \<Rightarrow> Inl AttributeError
      | Some se \<Rightarrow>
          if \<not> is_self se then
            (case btn_ready s of None \<Rightarrow> Inl AttributeError
             | Some t \<Rightarrow> Inr (s\<lparr>btn_ready := Some (t\<lparr>tgl_visible := False\<rparr>)\<rparr>))
          else Inr (s\<lparr>btn_ready := None, btn_start := Some (Button (ready_rect s) True START_TEXT)\<rparr>))"

definition set_state :: "TSessionState \<Rightarrow> tsession \<Rightarrow> tsession" where
  "set_state new_state s = s\<lparr>ts_state := new_state\<rparr>"

definition make_btn_kick :: "tsession \<Rightarrow> tsession" where
  "make_btn_kick s =
     (let h = rect_h (ready_rect s) div 2; w = h in
      s\<lparr>btn_kick := Some (Button \<lparr>rect_x = rect_x (ready_rect s) - w, rect_y = rect_y (ready_rect s),
        rect_w = w, rect_h = h\<rparr> True KICK_TEXT)\<rparr>)"

definition process_gameover :: "tsession \<Rightarrow> tsession py" where
  "process_gameover s = py_bind (find_anim_start_line (ts_board s)) (\<lambda>b.
     Inr (s\<lparr>ts_state := GAMEOVER_ANIMATING, ts_board := b\<rparr>))"

definition tsession_reset :: "tsession \<Rightarrow> tsession py" where
  "tsession_reset s = py_bind (board_reset (ts_board s)) (\<lambda>b.
     Inr (s\<lparr>ts_board := b, btn_ready := map_option (set_pressed False) (btn_ready s), ts_state := WAIT\<rparr>))"

definition tsession_clear :: "tsession \<Rightarrow> tsession py" where
  "tsession_clear s = py_bind (board_clear (ts_board s)) (\<lambda>b.
     let s = s\<lparr>ts_board := b, ts_state := EMPTY, nickname_text := [], ts_session := None, is_host := False,
               btn_ready := map_option (\<lambda>t. t\<lparr>tgl_visible := True\<rparr>) (btn_ready s)\<rparr>;
         s = (if is_single s then set_score 0 s else s)
     in Inr (s\<lparr>ts_controller := map_option controller_clear (ts_controller s)\<rparr>))"

fun handle_packet :: "s2c \<Rightarrow> tsession \<Rightarrow> tsession py" where
  "handle_packet (P_MOVE i move_type) s =
     py_bind (handle_move move_type (ts_board s)) (\<lambda>b. Inr (s\<lparr>ts_board := b\<rparr>))"
| "handle_packet (P_SPAWN i t next_t x y) s =
     py_bind (dict_get SHAPES_INDEX t) (\<lambda>k.
     py_bind (dict_get SHAPES_INDEX next_t) (\<lambda>nk.
       Inr (s\<lparr>ts_board := (ts_board s)\<lparr>current_tetromino := Some (Tetromino k x y),
         next_tetromino_shape := Some nk\<rparr>\<rparr>)))"
| "handle_packet (P_FIX i x y) s =
     (let s = s\<lparr>prev_packet_type := Some S2C_FIX\<rparr> in
      if current_tetromino (ts_board s) = None then Inr s
      else py_bind (fix_piece x y (ts_board s)) (\<lambda>b. Inr (s\<lparr>ts_board := b\<rparr>)))"
| "handle_packet (P_CLEARLINE i line_index combo sc) s =
     py_bind (clear_lines line_index (ts_board s)) (\<lambda>b.
       let s = set_score sc (s\<lparr>ts_board := b\<rparr>) in
       if prev_packet_type s \<noteq> Some S2C_CLEARLINE then
         py_bind (animate_combo line_index combo (ts_board s)) (\<lambda>b.
           Inr (s\<lparr>prev_packet_type := Some S2C_CLEARLINE, ts_board := b\<rparr>))
       else Inr s)"
| "handle_packet (P_ADDLINE i hole_x) s =
     py_bind (add_line hole_x (ts_board s)) (\<lambda>b. Inr (s\<lparr>ts_board := b\<rparr>))"
| "handle_packet _ s = Inr s"

text \<open>The strings \<open>"start"\<close>, \<open>"ready"\<close> and \<open>"kick"\<close> that \<open>handle_event\<close> returns.\<close>

datatype action = A_start | A_ready | A_kick

definition opt_button :: "collide \<Rightarrow> event \<Rightarrow> button option \<Rightarrow> bool \<times> button option" where
  "opt_button collide ev b = (case b of None \<Rightarrow> (False, None)
     | Some b \<Rightarrow> let (c, b) = button_handle_event collide ev b in (c, Some b))"

definition opt_toggle :: "collide \<Rightarrow> event \<Rightarrow> toggle_button option \<Rightarrow> bool \<times> toggle_button option" where
  "opt_toggle collide ev t = (case t of None \<Rightarrow> (False, None)
     | Some t \<Rightarrow> let (c, t) = toggle_handle_event collide ev t in (c, Some t))"

definition tsession_handle_event :: "collide \<Rightarrow> event \<Rightarrow> tsession \<Rightarrow> action option \<times> tsession" where
  "tsession_handle_event collide ev s =
     (if ts_session s = None then (None, s)
      else if ts_state s = PLAY then
        (None, s\<lparr>ts_controller := map_option (controller_handle_event ev) (ts_controller s)\<rparr>)
      else
        let (start, b) = opt_button collide ev (btn_start s); s = s\<lparr>btn_start := b\<rparr> in
        if start then (Some A_start, s) else
        let (ready, t) = opt_toggle collide ev (btn_ready s); s = s\<lparr>btn_ready := t\<rparr> in
        if ready then (Some A_ready, s) else
        let (kick, b) = opt_button collide ev (btn_kick s); s = s\<lparr>btn_kick := b\<rparr> in
        if kick then (Some A_kick, s) else (None, s))"

text \<open>\<open>update\<close> returns the moves the controller sent.\<close>

definition tsession_update :: "rat \<Rightarrow> tsession \<Rightarrow> (MoveType list \<times> tsession) py" where
  "tsession_update dt_ms s =
     (let (moves, s) =
        (if ts_state s = PLAY then
           let (moves, c) = (case ts_controller s of None \<Rightarrow> ([], None)
                | Some c \<Rightarrow> let (c, ms) = controller_update dt_ms c in (ms, Some c))
           in (moves, s\<lparr>ts_controller := c, ts_board := board_update dt_ms (ts_board s)\<rparr>)
         else ([], s)) in
      if ts_state s = GAMEOVER_ANIMATING then
        py_bind (animate_gameover dt_ms (ts_board s)) (\<lambda>(done_flag, b).
          let s = s\<lparr>ts_board := b\<rparr> in
          if done_flag then
            (if is_single s then py_bind (tsession_reset s) (\<lambda>s. Inr (moves, s))
             else Inr (moves, s\<lparr>ts_state := GAMEOVER\<rparr>))
          else Inr (moves, s))
      else Inr (moves, s))"

subsection \<open>Well-formedness\<close>

text \<open>The board is 25 by 10; a current piece is one of the seven shapes or the server's garbage key.\<close>

definition wf_ts :: "tsession \<Rightarrow> bool" where
  "wf_ts s \<longleftrightarrow> wf_grid (grid (ts_board s)) \<and>
     (\<forall>t. current_tetromino (ts_board s) = Some t \<longrightarrow> shape_key t \<noteq> KG \<longrightarrow> wf_tetromino t)"

definition wf_board :: "board \<Rightarrow> bool" where
  "wf_board b \<longleftrightarrow> wf_grid (grid b) \<and>
     (\<forall>t. current_tetromino b = Some t \<longrightarrow> shape_key t \<noteq> KG \<longrightarrow> wf_tetromino t)"

lemma wf_ts_board: "wf_ts s = wf_board (ts_board s)"
  by (simp add: wf_ts_def wf_board_def)

lemma wf_board_TetrisBoard [simp]: "wf_board (TetrisBoard r)"
  by (simp add: wf_board_def) (simp add: TetrisBoard_def set_layout_def Let_def)

lemma wf_board_reset: "board_reset b = Inr b' \<Longrightarrow> wf_board b \<Longrightarrow> wf_board b'"
  by (auto simp: wf_board_def board_reset_spec)

lemma wf_board_init: "board_init b = Inr b' \<Longrightarrow> wf_board b \<Longrightarrow> wf_board b'"
  by (auto simp: wf_board_def board_init_spec)

lemma wf_board_move: "wf_board b \<Longrightarrow> wf_board (move dx dy b)"
  by (auto simp: wf_board_def move_def wf_tetromino_def split: option.splits)

lemma wf_board_rotate: "rotate d b = Inr b' \<Longrightarrow> wf_board b \<Longrightarrow> wf_board b'"
  by (auto simp: wf_board_def rotate_def py_bind_eq_Inr dest: rotated_InrD split: option.splits)

lemma wf_board_handle_move: "handle_move m b = Inr b' \<Longrightarrow> wf_board b \<Longrightarrow> wf_board b'"
  by (auto simp: handle_move_def wf_board_move wf_board_rotate split: if_splits)

lemma fix_piece_current: "fix_piece x y b = Inr b' \<Longrightarrow> current_tetromino b' = None"
  by (auto simp: fix_piece_def Let_def py_bind_eq_Inr split: option.splits)

lemma board_frames:
  "clear_lines l b = Inr b' \<Longrightarrow> current_tetromino b' = current_tetromino b"
  "add_line l b = Inr b' \<Longrightarrow> current_tetromino b' = current_tetromino b"
  "animate_combo l c b = Inr b'' \<Longrightarrow> current_tetromino b'' = current_tetromino b \<and> grid b'' = grid b"
  "current_tetromino (board_update dt b) = current_tetromino b"
  "grid (board_update dt b) = grid b"
  "find_anim_start_line b = Inr b' \<Longrightarrow> current_tetromino b' = current_tetromino b \<and> grid b' = grid b"
  "animate_gameover dt b = Inr (d, b') \<Longrightarrow> current_tetromino b' = current_tetromino b"
  by (auto simp: clear_lines_def add_line_def animate_combo_def board_update_def find_anim_start_line_def
      animate_gameover_def Let_def py_bind_eq_Inr split: if_splits prod.splits)

lemma wf_board_ops:
  "clear_lines l b = Inr b' \<Longrightarrow> wf_board b \<Longrightarrow> wf_board b'"
  "add_line l b = Inr b' \<Longrightarrow> wf_board b \<Longrightarrow> wf_board b'"
  "animate_combo l c b = Inr b' \<Longrightarrow> wf_board b \<Longrightarrow> wf_board b'"
  "fix_piece x y b = Inr b' \<Longrightarrow> wf_board b \<Longrightarrow> wf_board b'"
  "wf_board b \<Longrightarrow> wf_board (board_update dt b)"
  "find_anim_start_line b = Inr b' \<Longrightarrow> wf_board b \<Longrightarrow> wf_board b'"
  "animate_gameover dt b = Inr (d, b') \<Longrightarrow> wf_board b \<Longrightarrow> wf_board b'"
  by (auto simp: wf_board_def board_frames fix_piece_current intro: wf_intros dest: board_frames(3,6))

text \<open>All operations of a session, as the events of a machine.\<close>

datatype ts_event =
    Packet s2c
  | Init session
  | Ready_mark bool
  | Make_host
  | New_state TSessionState
  | Kick_button
  | Gameover
  | Reset
  | Clear
  | Input event
  | Tick rat

fun ts_step :: "collide \<Rightarrow> ts_event \<Rightarrow> tsession \<Rightarrow> tsession py" where
  "ts_step collide (Packet p) s = handle_packet p s"
| "ts_step collide (Init se) s = init_session se s"
| "ts_step collide (Ready_mark v) s = set_ready v s"
| "ts_step collide Make_host s = set_is_host s"
| "ts_step collide (New_state st) s = Inr (set_state st s)"
| "ts_step collide Kick_button s = Inr (make_btn_kick s)"
| "ts_step collide Gameover s = process_gameover s"
| "ts_step collide Reset s = tsession_reset s"
| "ts_step collide Clear s = tsession_clear s"
| "ts_step collide (Input ev) s = Inr (snd (tsession_handle_event collide ev s))"
| "ts_step collide (Tick dt) s = py_bind (tsession_update dt s) (\<lambda>(_, s). Inr s)"

lemma set_score_board [simp]: "ts_board (set_score n s) = ts_board s"
  by (simp add: set_score_def)

lemma wf_handle_packet:
  assumes "handle_packet p s = Inr s'" "wf_board (ts_board s)"
  shows "wf_board (ts_board s')"
  using assms
proof (cases "(p, s)" rule: handle_packet.cases)
  case (2 i t next_t x y s0)
  with assms obtain k nk where "s' = s\<lparr>ts_board := (ts_board s)\<lparr>current_tetromino := Some (Tetromino k x y),
         next_tetromino_shape := Some nk\<rparr>\<rparr>" by (auto simp: py_bind_eq_Inr)
  with assms(2) show ?thesis
    by (auto simp: wf_board_def wf_Tetromino_iff) (simp add: Tetromino_def)
qed (auto simp: py_bind_eq_Inr Let_def wf_board_handle_move wf_board_ops dest: wf_board_ops split: if_splits)

lemma tsession_event_board [simp]: "ts_board (snd (tsession_handle_event collide ev s)) = ts_board s"
  by (simp add: tsession_handle_event_def Let_def split: prod.split)

lemma wf_update:
  assumes "tsession_update dt s = Inr (ms, s')" "wf_board (ts_board s)"
  shows "wf_board (ts_board s')"
  using assms
  by (auto simp: tsession_update_def tsession_reset_def Let_def py_bind_eq_Inr wf_board_ops
      split: if_splits prod.splits option.splits dest: wf_board_reset wf_board_ops(7))

lemma wf_ts_step:
  assumes "ts_step collide e s = Inr s'" "wf_ts s"
  shows "wf_ts s'"
  using assms unfolding wf_ts_board
  by (cases e)
    (auto simp: init_session_def set_ready_def set_is_host_def set_state_def make_btn_kick_def
      process_gameover_def tsession_reset_def tsession_clear_def board_clear_eq_reset Let_def py_bind_eq_Inr
      dest: wf_handle_packet wf_board_init wf_board_ops(6) wf_board_reset wf_update
      split: option.splits if_splits)

interpretation ts: machine "ts_step collide" wf_ts for collide
  by unfold_locales (rule wf_ts_step)

lemma wf_tsession_layout: "wf_ts (tsession_layout bh nh r single)"
  by (simp add: wf_ts_board tsession_layout_def Let_def)

subsection \<open>Which packets raise\<close>

lemma put_cells_raises:
  assumes "wf_grid g"
  shows "raises (py_for (\<lambda>(x, y). grid_set y x v) bs g) \<longleftrightarrow>
    (\<exists>(x, y) \<in> set bs. x < -10 \<or> 10 \<le> x \<or> y < -25 \<or> 25 \<le> y)"
  using assms
proof (induction bs arbitrary: g)
  case (Cons p bs)
  obtain x y where p: "p = (x, y)" by fastforce
  show ?case
  proof (cases "py_index 25 y")
    case None
    with Cons.prems have "grid_set y x v g = Inl IndexError" by (simp add: grid_set_def py_get_def)
    with None show ?thesis by (auto simp: p py_index_None_iff)
  next
    case row: (Some i)
    then have i: "i < 25" "- 25 \<le> y" "y < 25" by (auto simp: py_index_def split: if_splits)
    show ?thesis
    proof (cases "py_index 10 x")
      case None
      with Cons.prems row i have "grid_set y x v g = Inl IndexError"
        by (simp add: grid_set_def py_get_def py_set_def)
      with None show ?thesis by (auto simp: p py_index_None_iff)
    next
      case (Some j)
      then have "- 10 \<le> x" "x < 10" by (auto simp: py_index_def split: if_splits)
      moreover from grid_set_spec [OF Cons.prems row Some, of v] obtain g' where
        "grid_set y x v g = Inr g'" "wf_grid g'" by blast
      ultimately show ?thesis using Cons.IH [of g'] i(2,3) by (auto simp: p)
    qed
  qed
qed simp

lemma KG_raises: "shape_key t = KG \<Longrightarrow> blocks t = Inl KeyError \<and> rotated d t = Inl KeyError"
  by (simp add: blocks_def rotated_def dict_get_def SHAPES_def)

lemma shape_index_raises: "raises (dict_get SHAPES_INDEX n) \<longleftrightarrow> \<not> (0 \<le> n \<and> n \<le> 7)"
proof -
  have "n = 0 \<or> n = 1 \<or> n = 2 \<or> n = 3 \<or> n = 4 \<or> n = 5 \<or> n = 6 \<or> n = 7" if "0 \<le> n" "n \<le> 7"
    using that by arith
  then show ?thesis by (auto simp: dict_get_def SHAPES_INDEX_def)
qed

text \<open>The cells a fixed piece would occupy, as far as they can be computed.\<close>

definition outside :: "int \<times> int \<Rightarrow> bool" where
  "outside = (\<lambda>(x, y). x < -10 \<or> 10 \<le> x \<or> y < -25 \<or> 25 \<le> y)"

fun packet_raises :: "board \<Rightarrow> s2c \<Rightarrow> bool" where
  "packet_raises b (P_MOVE i m) = (m = 2 \<and> (\<exists>t. current_tetromino b = Some t \<and> shape_key t = KG))"
| "packet_raises b (P_SPAWN i t n x y) = (\<not> (0 \<le> t \<and> t \<le> 7 \<and> 0 \<le> n \<and> n \<le> 7))"
| "packet_raises b (P_FIX i x y) = (\<exists>t. current_tetromino b = Some t \<and>
     (case blocks (t\<lparr>tet_x := x, tet_y := y\<rparr>) of Inl _ \<Rightarrow> True | Inr bs \<Rightarrow> \<exists>p \<in> set bs. outside p))"
| "packet_raises b (P_CLEARLINE i l c sc) = (l < -25 \<or> 25 \<le> l)"
| "packet_raises b (P_ADDLINE i h) = (h < -10 \<or> 10 \<le> h)"
| "packet_raises b _ = False"

lemma raises_bind: "raises (py_bind r f) \<longleftrightarrow> raises r \<or> (\<exists>x. r = Inr x \<and> raises (f x))"
  by (cases r) auto

lemma handle_move_raises:
  assumes "wf_board b"
  shows "raises (handle_move m b) \<longleftrightarrow> packet_raises b (P_MOVE i m)"
proof (cases "current_tetromino b")
  case (Some t)
  have "raises (rotated 1 t) \<longleftrightarrow> shape_key t = KG"
    using assms Some KG_raises [of t 1] rotated_wf [of t 1] by (fastforce simp: wf_board_def)
  with Some show ?thesis by (auto simp: handle_move_def rotate_def raises_bind)
qed (simp add: handle_move_def)

lemma py_del_raises: "raises (py_del xs l) \<longleftrightarrow> py_index (length xs) l = None"
  by (auto simp: py_del_def split: option.splits)

lemma py_set_raises: "raises (py_set xs l v) \<longleftrightarrow> py_index (length xs) l = None"
  by (auto simp: py_set_def split: option.splits)

lemma animate_combo_defined: "animate_combo l c b \<noteq> Inl e"
  using ComboAnimation_Inr [of c "rect_x (full_grid_rect b)" "rect_y (full_grid_rect b) + cell_length b * l"]
  by (auto simp: animate_combo_def py_bind_eq_Inl)

lemma clear_lines_raises: "wf_grid (grid b) \<Longrightarrow> raises (clear_lines l b) \<longleftrightarrow> l < -25 \<or> 25 \<le> l"
  by (auto simp: clear_lines_def raises_bind py_del_raises [simplified] py_index_None_iff)

subsection \<open>Properties\<close>

text \<open>
  C16: whatever packets, keys, clicks and frames a session gets, in any order, as long as no
  exception escapes its board is a grid of 25 rows of 10 cells and its current piece is one of the
  seven shapes at one of its rotations (or the garbage key).
\<close>

theorem session_wf:
  assumes "py_for (ts_step collide) es (tsession_layout bh nh r single) = Inr s"
  shows "wf_grid (grid (ts_board s)) \<and>
    (\<forall>t. current_tetromino (ts_board s) = Some t \<longrightarrow> shape_key t \<noteq> KG \<longrightarrow> wf_tetromino t)"
  using ts.run_inv [OF wf_tsession_layout assms] by (simp add: wf_ts_def)

theorem session_wf_witness:
  "\<exists>s. py_for (ts_step (\<lambda>_ _. False)) [New_state PLAY, Packet (P_SPAWN 1 5 0 3 4), Packet (P_MOVE 1 2)]
      (tsession_layout 250 20 \<lparr>rect_x = 0, rect_y = 0, rect_w = 150, rect_h = 280\<rparr> True) = Inr s \<and>
     wf_grid (grid (ts_board s))"
proof -
  let ?s = "tsession_layout 250 20 \<lparr>rect_x = 0, rect_y = 0, rect_w = 150, rect_h = 280\<rparr> True"
  let ?es = "[New_state PLAY, Packet (P_SPAWN 1 5 0 3 4), Packet (P_MOVE 1 2)]"
  have "\<exists>s. py_for (ts_step (\<lambda>_ _. False)) ?es ?s = Inr s"
    by (simp add: set_state_def dict_get_def SHAPES_INDEX_def handle_move_def rotate_def rotated_def
        Tetromino_def SHAPES_def Let_def)
  then obtain s where "py_for (ts_step (\<lambda>_ _. False)) ?es ?s = Inr s" ..
  with session_wf [OF this] show ?thesis by blast
qed

text \<open>
  Exactly which game packets make the handler raise, in any well-formed session: a shape
  number outside 0 to 7, a rotation or fix of the piece \<open>'G'\<close>, a fix that puts a cell outside the
  range Python's (negative) indices accept, a line index outside -25 to 24, a hole outside -10 to 9.
  All other packets are accepted.
\<close>

lemma handle_packet_raises:
  assumes "wf_ts s"
  shows "raises (handle_packet p s) \<longleftrightarrow> packet_raises (ts_board s) p"
proof -
  from assms have wf: "wf_board (ts_board s)" and g: "wf_grid (grid (ts_board s))"
    by (simp_all add: wf_ts_board wf_board_def)
  show ?thesis
  proof (cases "(p, s)" rule: handle_packet.cases)
    case (1 i m s0)
    with wf handle_move_raises [OF wf, of m i] show ?thesis by (auto simp: raises_bind)
  next
    case (2 i t n x y s0)
    then show ?thesis by (auto simp: raises_bind shape_index_raises [simplified])
      (metis (full_types) shape_index_raises sum.exhaust_sel)+
  next
    case (3 i x y s0)
    have "raises (fix_piece x y b) \<longleftrightarrow> packet_raises b (P_FIX i x y)" if "wf_grid (grid b)" for b
      using put_cells_raises [OF that]
      by (auto simp: fix_piece_def Let_def raises_bind outside_def split: option.splits sum.splits)
    with 3 g show ?thesis by (auto simp: raises_bind Let_def)
  next
    case (4 i l c sc s0)
    with g show ?thesis
      by (auto simp: raises_bind Let_def clear_lines_raises [simplified] animate_combo_defined)
  next
    case (5 i h s0)
    have "raises (add_line h b) \<longleftrightarrow> h < -10 \<or> 10 \<le> h" for b
      by (auto simp: add_line_def raises_bind py_set_raises [simplified] py_del_def py_index_def
          board_consts split: option.splits)
    with 5 show ?thesis by (auto simp: raises_bind)
  qed auto
qed

lemma clearline_result:
  assumes "handle_packet (P_CLEARLINE i l c sc) s = Inr s'"
  shows "prev_packet_type s' = Some S2C_CLEARLINE" "is_single s' = is_single s"
    "is_single s \<Longrightarrow> score s' = sc"
    "prev_packet_type s = Some S2C_CLEARLINE \<Longrightarrow> combo_effects (ts_board s') = combo_effects (ts_board s)"
    "prev_packet_type s \<noteq> Some S2C_CLEARLINE \<Longrightarrow> \<exists>a. combo_effects (ts_board s') = combo_effects (ts_board s) @ [a] \<and>
       ComboAnimation c (rect_x (full_grid_rect (ts_board s)))
         (rect_y (full_grid_rect (ts_board s)) + cell_length (ts_board s) * l) = Inr a"
  using assms
  by (auto simp: py_bind_eq_Inr Let_def set_score_def clear_lines_def animate_combo_def split: if_splits)

lemma clearlines_rest:
  assumes "py_for (\<lambda>(l, c, sc). handle_packet (P_CLEARLINE i l c sc)) ls s = Inr s'"
    and "prev_packet_type s = Some S2C_CLEARLINE"
  shows "combo_effects (ts_board s') = combo_effects (ts_board s) \<and> is_single s' = is_single s \<and>
    (is_single s \<longrightarrow> score s' = (if ls = [] then score s else snd (snd (last ls))))"
  using assms
proof (induction ls arbitrary: s)
  case (Cons x ls)
  obtain l c sc where x: "x = (l, c, sc)" by (cases x) auto
  from Cons.prems(1) obtain s1 where s1: "handle_packet (P_CLEARLINE i l c sc) s = Inr s1"
    "py_for (\<lambda>(l, c, sc). handle_packet (P_CLEARLINE i l c sc)) ls s1 = Inr s'"
    by (auto simp: x py_bind_eq_Inr simp del: handle_packet.simps)
  from Cons.IH [OF s1(2) clearline_result(1) [OF s1(1)]] clearline_result(2-4) [OF s1(1)] Cons.prems(2)
  show ?case by (auto simp: x)
qed simp

text \<open>
  C17: one combo animation per fixed piece. After a \<open>FIX\<close>, however many \<open>CLEARLINE\<close> packets
  follow, exactly one animation starts, for the combo and at the line of the first of them (none if
  there is none), and in single play the score shown is the one of the last.
\<close>

theorem combo_once:
  assumes "py_bind (handle_packet (P_FIX i x y) s)
      (py_for (\<lambda>(l, c, sc). handle_packet (P_CLEARLINE i l c sc)) ls) = Inr s'"
  shows "case ls of
      [] \<Rightarrow> combo_effects (ts_board s') = combo_effects (ts_board s)
    | (l, c, sc) # _ \<Rightarrow> (\<exists>a. combo_effects (ts_board s') = combo_effects (ts_board s) @ [a] \<and>
        combo_no a = c \<and> active a \<and> draw_x a = rect_x (full_grid_rect (ts_board s)) \<and>
        draw_y a = rect_y (full_grid_rect (ts_board s)) + cell_length (ts_board s) * l) \<and>
        (is_single s \<longrightarrow> score s' = snd (snd (last ls)))"
proof -
  from assms obtain s1 where s1: "handle_packet (P_FIX i x y) s = Inr s1"
    and rest: "py_for (\<lambda>(l, c, sc). handle_packet (P_CLEARLINE i l c sc)) ls s1 = Inr s'"
    by (auto simp: py_bind_eq_Inr simp del: handle_packet.simps)
  from s1 have f: "prev_packet_type s1 = Some S2C_FIX" "is_single s1 = is_single s"
    "combo_effects (ts_board s1) = combo_effects (ts_board s)"
    "full_grid_rect (ts_board s1) = full_grid_rect (ts_board s)"
    "cell_length (ts_board s1) = cell_length (ts_board s)"
    by (auto simp: Let_def py_bind_eq_Inr fix_piece_def split: if_splits option.splits)
  have ne: "S2C_FIX \<noteq> S2C_CLEARLINE" by (simp add: packet_types)
  show ?thesis
  proof (cases ls)
    case Nil
    with rest f show ?thesis by simp
  next
    case (Cons v ls')
    obtain l c sc where v: "v = (l, c, sc)" by (cases v) auto
    from rest obtain s2 where s2: "handle_packet (P_CLEARLINE i l c sc) s1 = Inr s2"
      "py_for (\<lambda>(l, c, sc). handle_packet (P_CLEARLINE i l c sc)) ls' s2 = Inr s'"
      by (auto simp: Cons v py_bind_eq_Inr simp del: handle_packet.simps)
    note r = clearline_result [OF s2(1)]
    from r(5) f ne obtain a where a: "combo_effects (ts_board s2) = combo_effects (ts_board s) @ [a]"
      "ComboAnimation c (rect_x (full_grid_rect (ts_board s)))
         (rect_y (full_grid_rect (ts_board s)) + cell_length (ts_board s) * l) = Inr a" by auto
    with clearlines_rest [OF s2(2) r(1)] r(2,3) f(2) show ?thesis
      by (auto simp: Cons v ComboAnimation_def py_bind_eq_Inr)
  qed
qed

theorem combo_once_witness:
  "\<exists>s' a. py_bind (handle_packet (P_FIX 1 0 0) (tsession_layout 250 20 \<lparr>rect_x = 0, rect_y = 0, rect_w = 150, rect_h = 280\<rparr> True))
      (py_for (\<lambda>(l, c, sc). handle_packet (P_CLEARLINE 1 l c sc)) [(23, 1, 100), (24, 1, 200)]) = Inr s' \<and>
     combo_effects (ts_board s') = [a] \<and> score s' = 200"
proof -
  let ?s = "tsession_layout 250 20 \<lparr>rect_x = 0, rect_y = 0, rect_w = 150, rect_h = 280\<rparr> True"
  let ?run = "py_bind (handle_packet (P_FIX 1 0 0) ?s)
      (py_for (\<lambda>(l, c, sc). handle_packet (P_CLEARLINE 1 l c sc)) [(23, 1, 100), (24, 1, 200)])"
  have fresh: "current_tetromino (ts_board ?s) = None" "combo_effects (ts_board ?s) = []" "is_single ?s"
    by (simp_all add: tsession_layout_def Let_def TetrisBoard_def set_layout_def)
  let ?fixed = "?s\<lparr>prev_packet_type := Some S2C_FIX\<rparr>"
  have c: "\<exists>s'. handle_packet (P_CLEARLINE 1 l c sc) s = Inr s' \<and> wf_ts s'" if "wf_ts s" "0 \<le> l" "l < 25" for l c sc s
  proof -
    from that handle_packet_raises [OF that(1), of "P_CLEARLINE 1 l c sc"]
    obtain s' where "handle_packet (P_CLEARLINE 1 l c sc) s = Inr s'"
      by (cases "handle_packet (P_CLEARLINE 1 l c sc) s") auto
    with wf_ts_step [of undefined "Packet (P_CLEARLINE 1 l c sc)" s s'] that(1) show ?thesis by auto
  qed
  have fix1: "handle_packet (P_FIX 1 0 0) ?s = Inr ?fixed" using fresh by (simp add: Let_def)
  have "wf_ts ?fixed" using wf_tsession_layout by (simp add: wf_ts_def)
  from c [OF this, of 23 1 100] obtain s1 where s1: "handle_packet (P_CLEARLINE 1 23 1 100) ?fixed = Inr s1" "wf_ts s1"
    by auto
  from c [OF s1(2), of 24 1 200] obtain s2 where s2: "handle_packet (P_CLEARLINE 1 24 1 200) s1 = Inr s2" by auto
  have run: "?run = Inr s2" using fix1 s1(1) s2 by (simp del: handle_packet.simps)
  from combo_once [OF run] fresh run show ?thesis by auto
qed

subsection \<open>The game-over animation over frames\<close>

definition frames :: "rat list \<Rightarrow> tsession \<Rightarrow> tsession py" where
  "frames ds s = py_for (\<lambda>d s. py_bind (tsession_update d s) (\<lambda>(_, s). Inr s)) ds s"

lemma frames_simps [simp]:
  "frames [] s = Inr s"
  "frames (d # ds) s = py_bind (tsession_update d s) (\<lambda>(_, s). frames ds s)"
  by (simp add: frames_def) (cases "tsession_update d s"; simp add: frames_def split_beta)

lemma frames_idle: "ts_state s = WAIT \<or> ts_state s = GAMEOVER \<Longrightarrow> frames ds s = Inr s"
  by (induction ds) (auto simp: tsession_update_def)

text \<open>Where the session goes when the animation is done.\<close>

definition after_gameover :: "tsession \<Rightarrow> bool" where
  "after_gameover s \<longleftrightarrow> (if is_single s then ts_state s = WAIT \<and> grid (ts_board s) = blank_grid
     else ts_state s = GAMEOVER)"

lemma update_animating:
  assumes "ts_state s = GAMEOVER_ANIMATING" "wf_grid (grid (ts_board s))"
  defines "E \<equiv> anim_elapsed_ms (ts_board s)" and "L \<equiv> anim_target_line (ts_board s)"
  shows "E + d \<le> 100 \<Longrightarrow> tsession_update d s = Inr ([], s\<lparr>ts_board := (ts_board s)\<lparr>anim_elapsed_ms := E + d\<rparr>\<rparr>)"
    and "100 < E + d \<Longrightarrow> py_index 25 L = None \<Longrightarrow> tsession_update d s = Inl IndexError"
    and "100 < E + d \<Longrightarrow> py_index 25 L = Some i \<Longrightarrow> \<not> blank_at (grid (ts_board s)) i \<Longrightarrow>
      tsession_update d s = Inr ([], s\<lparr>ts_board := (ts_board s)\<lparr>grid := grey_row i (grid (ts_board s)),
        anim_elapsed_ms := E + d - 100, anim_target_line := L - 1\<rparr>\<rparr>)"
    and "100 < E + d \<Longrightarrow> py_index 25 L = Some i \<Longrightarrow> blank_at (grid (ts_board s)) i \<Longrightarrow>
      \<exists>s'. tsession_update d s = Inr ([], s') \<and> after_gameover s' \<and> is_single s' = is_single s"
proof -
  show "E + d \<le> 100 \<Longrightarrow> tsession_update d s = Inr ([], s\<lparr>ts_board := (ts_board s)\<lparr>anim_elapsed_ms := E + d\<rparr>\<rparr>)"
    using assms(1) by (simp add: tsession_update_def animate_gameover_wait E_def)
  show "100 < E + d \<Longrightarrow> py_index 25 L = None \<Longrightarrow> tsession_update d s = Inl IndexError"
    using assms(1,2) by (simp add: tsession_update_def animate_gameover_raises E_def L_def)
  assume e: "100 < E + d" "py_index 25 L = Some i"
  note st = animate_gameover_step [OF assms(2) e(2) [unfolded L_def] e(1) [unfolded E_def]]
  {
    assume "\<not> blank_at (grid (ts_board s)) i"
    with st assms(1) show "tsession_update d s = Inr ([], s\<lparr>ts_board := (ts_board s)\<lparr>grid := grey_row i (grid (ts_board s)),
        anim_elapsed_ms := E + d - 100, anim_target_line := L - 1\<rparr>\<rparr>)"
      by (simp add: tsession_update_def E_def L_def)
  next
    assume "blank_at (grid (ts_board s)) i"
    with st assms(1,2) py_index_SomeD [OF e(2)]
    show "\<exists>s'. tsession_update d s = Inr ([], s') \<and> after_gameover s' \<and> is_single s' = is_single s"
      by (cases "is_single s")
        (simp_all add: tsession_update_def tsession_reset_def board_reset_spec after_gameover_def wf_grey_row Let_def)
  }
qed

lemma blank_at_grey:
  "wf_grid g \<Longrightarrow> i < 25 \<Longrightarrow> k < 25 \<Longrightarrow> blank_at (grey_row i g) k = blank_at g k"
  by (auto simp: blank_at_def list_all_length grey_row_cell wf_grey_row grey_def)

lemma animation_ends:
  assumes "ts_state s = GAMEOVER_ANIMATING" "wf_grid (grid (ts_board s))" "blank_at (grid (ts_board s)) 0"
    and "0 \<le> anim_target_line (ts_board s)" "anim_target_line (ts_board s) < 25"
    and "0 \<le> anim_elapsed_ms (ts_board s)" "anim_elapsed_ms (ts_board s) \<le> 100"
    and "\<And>d. d \<in> set ds \<Longrightarrow> 0 \<le> d \<and> d \<le> 100"
    and "100 * (of_int (anim_target_line (ts_board s)) + 1) < anim_elapsed_ms (ts_board s) + sum_list ds"
  shows "\<exists>s'. frames ds s = Inr s' \<and> after_gameover s' \<and> is_single s' = is_single s"
  using assms
proof (induction ds arbitrary: s)
  case Nil
  have "(0 :: rat) \<le> of_int (anim_target_line (ts_board s))" using Nil(4) by simp
  with Nil(7,9) show ?case by simp
next
  case (Cons d ds)
  let ?b = "ts_board s"
  let ?E = "anim_elapsed_ms ?b" and ?L = "anim_target_line ?b"
  note up = update_animating [OF Cons.prems(1,2)]
  have d: "0 \<le> d" "d \<le> 100" using Cons.prems(8) [of d] by auto
  have ix: "py_index 25 ?L = Some (nat ?L)" using Cons.prems(4,5) by (simp add: py_index_nonneg)
  consider "?E + d \<le> 100" | "100 < ?E + d" "blank_at (grid ?b) (nat ?L)"
    | "100 < ?E + d" "\<not> blank_at (grid ?b) (nat ?L)" by linarith
  then show ?case
  proof cases
    case 1
    let ?s = "s\<lparr>ts_board := ?b\<lparr>anim_elapsed_ms := ?E + d\<rparr>\<rparr>"
    have "\<exists>s'. frames ds ?s = Inr s' \<and> after_gameover s' \<and> is_single s' = is_single ?s"
      by (rule Cons.IH) (use Cons.prems d 1 in \<open>auto simp: add.assoc\<close>)
    with up(1) [OF 1] show ?thesis by simp
  next
    case 2
    from up(4) [OF 2(1) ix 2(2)] obtain s' where s': "tsession_update d s = Inr ([], s')" "after_gameover s'"
      "is_single s' = is_single s" by blast
    then have "frames ds s' = Inr s'" by (intro frames_idle) (auto simp: after_gameover_def split: if_splits)
    with s' show ?thesis by simp
  next
    case 3
    let ?s = "s\<lparr>ts_board := ?b\<lparr>grid := grey_row (nat ?L) (grid ?b), anim_elapsed_ms := ?E + d - 100,
      anim_target_line := ?L - 1\<rparr>\<rparr>"
    have E: "?E + d \<le> 200" using Cons.prems(7) d by simp
    have L: "0 < ?L" using 3(2) Cons.prems(3,4) by (cases "?L = 0") auto
    have "\<exists>s'. frames ds ?s = Inr s' \<and> after_gameover s' \<and> is_single s' = is_single ?s"
      by (rule Cons.IH)
        (use Cons.prems d 3 L E in \<open>auto simp: wf_grey_row blank_at_grey algebra_simps\<close>)
    with up(3) [OF 3(1) ix 3(2)] show ?thesis by simp
  qed
qed

lemma animation_crashes:
  assumes "ts_state s = GAMEOVER_ANIMATING" "wf_grid (grid (ts_board s))"
    and "\<And>k. k < 25 \<Longrightarrow> \<not> blank_at (grid (ts_board s)) k"
    and "- 26 \<le> anim_target_line (ts_board s)" "anim_target_line (ts_board s) < 25"
    and "0 \<le> anim_elapsed_ms (ts_board s)" "anim_elapsed_ms (ts_board s) \<le> 100"
    and "\<And>d. d \<in> set ds \<Longrightarrow> 0 \<le> d \<and> d \<le> 100"
    and "100 * (of_int (anim_target_line (ts_board s)) + 27) < anim_elapsed_ms (ts_board s) + sum_list ds"
  shows "frames ds s = Inl IndexError"
  using assms
proof (induction ds arbitrary: s)
  case Nil
  have "(-26 :: rat) \<le> of_int (anim_target_line (ts_board s))" 
  proof -
    have "(of_int (- 26) :: rat) \<le> of_int (anim_target_line (ts_board s))"
      using Nil(4) by (simp only: of_int_le_iff)
    then show ?thesis by simp
  qed
  with Nil(7,9) show ?case by simp
next
  case (Cons d ds)
  let ?b = "ts_board s"
  let ?E = "anim_elapsed_ms ?b" and ?L = "anim_target_line ?b"
  note up = update_animating [OF Cons.prems(1,2)]
  have d: "0 \<le> d" "d \<le> 100" using Cons.prems(8) [of d] by auto
  consider "?E + d \<le> 100" | "100 < ?E + d" "py_index 25 ?L = None"
    | i where "100 < ?E + d" "py_index 25 ?L = Some i" by (metis not_le option.exhaust)
  then show ?case
  proof cases
    case 1
    let ?s = "s\<lparr>ts_board := ?b\<lparr>anim_elapsed_ms := ?E + d\<rparr>\<rparr>"
    have "frames ds ?s = Inl IndexError"
      by (rule Cons.IH) (use Cons.prems d 1 in \<open>auto simp: add.assoc\<close>)
    with up(1) [OF 1] show ?thesis by simp
  next
    case 2
    with up(2) [OF 2] show ?thesis by simp
  next
    case (3 i)
    let ?s = "s\<lparr>ts_board := ?b\<lparr>grid := grey_row i (grid ?b), anim_elapsed_ms := ?E + d - 100,
      anim_target_line := ?L - 1\<rparr>\<rparr>"
    have E: "?E + d \<le> 200" using Cons.prems(7) d by simp
    from 3(2) have i: "i < 25" "- 25 \<le> ?L" by (auto simp: py_index_def split: if_splits)
    have "frames ds ?s = Inl IndexError"
    proof (rule Cons.IH)
      show "\<not> blank_at (grid (ts_board ?s)) k" if "k < 25" for k
        using Cons.prems(2) Cons.prems(3) [OF that] i(1) that by (simp add: blank_at_grey)
      show "wf_grid (grid (ts_board ?s))" using Cons.prems(2) i(1) by (simp add: wf_grey_row)
      show "\<And>d. d \<in> set ds \<Longrightarrow> 0 \<le> d \<and> d \<le> 100" using Cons.prems(8) by simp
    qed (use Cons.prems(1,4,5,9) 3(1) i(2) E in \<open>simp_all add: algebra_simps\<close>)
    with up(3) [OF 3 Cons.prems(3) [OF i(1)]] show ?thesis by simp
  qed
qed

lemma blank_at_blank: "i < 25 \<Longrightarrow> blank_at blank_grid i"
  by (simp add: blank_at_def list_all_length)

lemma process_gameover_spec:
  assumes "wf_grid (grid (ts_board s))"
  shows "\<exists>l. process_gameover s = Inr (s\<lparr>ts_state := GAMEOVER_ANIMATING,
    ts_board := (ts_board s)\<lparr>anim_target_line := l\<rparr>\<rparr>) \<and> 0 \<le> l \<and> l < 25"
proof -
  have "(0 :: int) \<le> 24" "(24 :: int) < 25" by simp_all
  from find_line_spec [OF assms this] obtain l where
    "find_line (grid (ts_board s)) 24 = Inr l" "0 \<le> l" "l \<le> 24" by blast
  then show ?thesis
    by (intro exI [of _ l])
      (simp add: process_gameover_def find_anim_start_line_def board_consts del: find_line.simps)
qed

text \<open>
  C18: the game-over animation comes to an end. On a board whose top row is blank, whatever the
  lengths of the frames (at most 100 ms each), once they add up to more than 2500 ms the session has
  left the animation: in single play it is reset and waits on a blank board, in multi play it is in
  state \<open>GAMEOVER\<close>.
\<close>

theorem gameover_animation_ends:
  assumes "wf_grid (grid (ts_board s))" "blank_at (grid (ts_board s)) 0" "anim_elapsed_ms (ts_board s) = 0"
    and "\<And>d. d \<in> set ds \<Longrightarrow> 0 \<le> d \<and> d \<le> 100" "2500 < sum_list ds"
  shows "\<exists>s'. py_bind (process_gameover s) (frames ds) = Inr s' \<and> is_single s' = is_single s \<and>
    (if is_single s then ts_state s' = WAIT \<and> grid (ts_board s') = blank_grid else ts_state s' = GAMEOVER)"
proof -
  from process_gameover_spec [OF assms(1)] obtain l where
    p: "process_gameover s = Inr (s\<lparr>ts_state := GAMEOVER_ANIMATING, ts_board := (ts_board s)\<lparr>anim_target_line := l\<rparr>\<rparr>)"
    and l: "0 \<le> l" "l < 25" by blast
  let ?s = "s\<lparr>ts_state := GAMEOVER_ANIMATING, ts_board := (ts_board s)\<lparr>anim_target_line := l\<rparr>\<rparr>"
  have "(of_int l :: rat) \<le> of_int 24" using l(2) by (simp only: of_int_le_iff)
  then have "\<exists>s'. frames ds ?s = Inr s' \<and> after_gameover s' \<and> is_single s' = is_single ?s"
    using assms l by (intro animation_ends) (auto simp: algebra_simps)
  then show ?thesis unfolding p by (auto simp: after_gameover_def)
qed

theorem gameover_animation_ends_witness:
  "\<exists>s'. py_bind (process_gameover (tsession_layout 250 20 \<lparr>rect_x = 0, rect_y = 0, rect_w = 150, rect_h = 280\<rparr> False))
     (frames (replicate 157 16)) = Inr s' \<and> ts_state s' = GAMEOVER"
proof -
  let ?s = "tsession_layout 250 20 \<lparr>rect_x = 0, rect_y = 0, rect_w = 150, rect_h = 280\<rparr> False"
  have "wf_grid (grid (ts_board ?s))" "blank_at (grid (ts_board ?s)) 0" "anim_elapsed_ms (ts_board ?s) = 0"
    "\<not> is_single ?s"
    by (simp_all add: tsession_layout_def Let_def blank_at_blank)
      (simp add: TetrisBoard_def set_layout_def Let_def)
  moreover have "0 \<le> d \<and> d \<le> 100" if "d \<in> set (replicate 157 16)" for d :: rat using that by simp
  moreover have "2500 < sum_list (replicate 157 (16 :: rat))" by (simp add: sum_list_replicate)
  ultimately show ?thesis using gameover_animation_ends [of ?s "replicate 157 16"] by auto
qed

text \<open>
  C19: the animation relies on a blank row. If no row of the board is blank, it runs past the top,
  wraps around through Python's negative indices, and once the frames add up to more than 5100 ms
  an \<open>IndexError\<close> has escaped from \<open>update\<close>.
\<close>

theorem gameover_needs_blank_row:
  assumes "wf_grid (grid (ts_board s))" "\<And>k. k < 25 \<Longrightarrow> \<not> blank_at (grid (ts_board s)) k"
    and "anim_elapsed_ms (ts_board s) = 0"
    and "\<And>d. d \<in> set ds \<Longrightarrow> 0 \<le> d \<and> d \<le> 100" "5100 < sum_list ds"
  shows "py_bind (process_gameover s) (frames ds) = Inl IndexError"
proof -
  from process_gameover_spec [OF assms(1)] obtain l where
    p: "process_gameover s = Inr (s\<lparr>ts_state := GAMEOVER_ANIMATING, ts_board := (ts_board s)\<lparr>anim_target_line := l\<rparr>\<rparr>)"
    and l: "0 \<le> l" "l < 25" by blast
  have "(of_int l :: rat) \<le> of_int 24" using l(2) by (simp only: of_int_le_iff)
  then show ?thesis unfolding p py_bind_Inr
    using assms l by (intro animation_crashes) (simp_all add: algebra_simps)
qed

theorem gameover_needs_blank_row_witness:
  "py_bind (process_gameover (tsession_layout 250 20 \<lparr>rect_x = 0, rect_y = 0, rect_w = 150, rect_h = 280\<rparr> False
       \<lparr>ts_board := TetrisBoard \<lparr>rect_x = 0, rect_y = 0, rect_w = 150, rect_h = 250\<rparr>
          \<lparr>grid := replicate 25 (replicate 10 (Some KO))\<rparr>\<rparr>))
     (frames (replicate 52 100)) = Inl IndexError"
proof -
  let ?b = "TetrisBoard \<lparr>rect_x = 0, rect_y = 0, rect_w = 150, rect_h = 250\<rparr>
          \<lparr>grid := replicate 25 (replicate 10 (Some KO))\<rparr>"
  let ?s = "tsession_layout 250 20 \<lparr>rect_x = 0, rect_y = 0, rect_w = 150, rect_h = 280\<rparr> False\<lparr>ts_board := ?b\<rparr>"
  have "wf_grid (grid (ts_board ?s))" by (simp add: wf_grid_def list_all_iff)
  moreover have "\<not> blank_at (grid (ts_board ?s)) k" if "k < 25" for k
    using that by (simp add: blank_at_def list_all_iff)
  moreover have "anim_elapsed_ms (ts_board ?s) = 0" by (simp add: TetrisBoard_def set_layout_def Let_def)
  moreover have "5100 < sum_list (replicate 52 (100 :: rat))" by (simp add: sum_list_replicate)
  ultimately show ?thesis using gameover_needs_blank_row [of ?s "replicate 52 100"] by auto
qed

lemma events_outside_play:
  assumes "ts_state s \<noteq> PLAY"
  shows "ts_controller (snd (tsession_handle_event collide ev s)) = ts_controller s \<and>
    ts_state (snd (tsession_handle_event collide ev s)) = ts_state s"
  using assms by (simp add: tsession_handle_event_def Let_def split: prod.split)

lemma inputs_outside_play:
  assumes "ts_state s \<noteq> PLAY" "py_for (ts_step collide) (map Input evs) s = Inr s'"
  shows "ts_controller s' = ts_controller s \<and> ts_board s' = ts_board s \<and> ts_state s' \<noteq> PLAY"
  using assms
proof (induction evs arbitrary: s)
  case (Cons ev evs)
  from Cons.IH [of "snd (tsession_handle_event collide ev s)"] Cons.prems
    events_outside_play [OF Cons.prems(1), of collide ev]
  show ?case by simp
qed simp



end
