(* ===== verification/Scenes.thy ===== *)
theory Scenes
  imports GameSession
begin

text \<open>
  What the scenes of the client share: \<open>BaseState\<close> (\<^verbatim>\<open>client/tetris/states/base_state.py\<close>)
  with its fades and the pending next scene, the requests a scene hands to the network worker, and
  the texts of error_types.py and info_types.py. The classes derived from \<open>BaseState\<close> are
  record extensions of \<open>base_state\<close>.
\<close>

subsection \<open>Screen and texts\<close>

definition BASE_SCREEN_WIDTH :: int where "BASE_SCREEN_WIDTH = 1600"
definition BASE_SCREEN_HEIGHT :: int where "BASE_SCREEN_HEIGHT = 900"
definition INITIAL_SCALE :: rat where "INITIAL_SCALE = 95 / 100"

text \<open>\<open>int(a * f)\<close>, and what a rectangle keeps of a product with a float.\<close>

definition scaled :: "int \<Rightarrow> rat \<Rightarrow> int" where
  "scaled a f = py_trunc (of_int a * f)"

text \<open>What \<open>screen.get_size()\<close> returns.\<close>

definition screen_size :: "int \<times> int" where
  "screen_size = (scaled BASE_SCREEN_WIDTH INITIAL_SCALE, scaled BASE_SCREEN_HEIGHT INITIAL_SCALE)"

definition ERROR_MESSAGES :: "(int \<times> pystr) list" where
  "ERROR_MESSAGES =
    [(1, [0xC11C, 0xBC84, 0xC640, 0xC758, 32, 0xC0C1, 0xD0DC, 0xAC00, 32, 0xC6D0, 0xD65C, 0xD558, 0xC9C0, 32, 0xC54A, 0xC2B5, 0xB2C8, 0xB2E4, 46]),
     (2, [0xC798, 0xBABB, 0xB41C, 32, 0xC694, 0xCCAD, 0xC785, 0xB2C8, 0xB2E4, 46]),
     (3, [0xC544, 0xC774, 0xB514, 0xB098, 32, 0xBE44, 0xBC00, 0xBC88, 0xD638, 0xB97C, 32, 0xB2E4, 0xC2DC, 32, 0xD655, 0xC778, 0xD558, 0xC138, 0xC694]),
     (4, [0xC774, 0xBBF8, 32, 0xB85C, 0xADF8, 0xC778, 0xB41C, 32, 0xACC4, 0xC815, 0xC785, 0xB2C8, 0xB2E4, 46]),
     (10, [0xC874, 0xC7AC, 0xD558, 0xC9C0, 32, 0xC54A, 0xB294, 32, 0xBC29, 0xC785, 0xB2C8, 0xB2E4, 46]),
     (11, [0xBC29, 0xC774, 32, 0xAF49, 32, 0xCC3C, 0xC2B5, 0xB2C8, 0xB2E4, 46]),
     (12, [0xC774, 0xBBF8, 32, 0xC2DC, 0xC791, 0xB41C, 32, 0xBC29, 0xC785, 0xB2C8, 0xB2E4, 46]),
     (13, [0xCC38, 0xAC00, 32, 0xAC00, 0xB2A5, 0xD55C, 32, 0xBC29, 0xC744, 32, 0xCC3E, 0xC744, 32, 0xC218, 32, 0xC5C6, 0xC2B5, 0xB2C8, 0xB2E4, 46]),
     (20, [0xBAA8, 0xB450, 32, 0xC900, 0xBE44, 0xD574, 0xC57C, 32, 0xC2DC, 0xC791, 0xD560, 32, 0xC218, 32, 0xC788, 0xC2B5, 0xB2C8, 0xB2E4, 46]),
     (21, [0xCD5C, 0xC18C, 32, 50, 0xBA85, 0xC774, 32, 0xBAA8, 0xC5EC, 0xC57C, 32, 0xC2DC, 0xC791, 0xD560, 32, 0xC218, 32, 0xC788, 0xC2B5, 0xB2C8, 0xB2E4, 46]),
     (22, [0xBC29, 32, 0xBE44, 0xBC00, 0xBC88, 0xD638, 0xC640, 32, 0xC77C, 0xCE58, 0xD558, 0xC9C0, 32, 0xC54A, 0xC2B5, 0xB2C8, 0xB2E4, 46]),
     (30, [0xC720, 0xC800, 0xB97C, 32, 0xCC3E, 0xC744, 32, 0xC218, 32, 0xC5C6, 0xC2B5, 0xB2C8, 0xB2E4, 46]),
     (40, [0xBC29, 32, 0xC774, 0xB984, 0xC740, 32, 0xCD5C, 0xC18C, 32, 52, 0xC790, 32, 0xC774, 0xC0C1, 0xC774, 0xC5B4, 0xC57C, 32, 0xD569, 0xB2C8, 0xB2E4]),
     (41, [0xBE44, 0xBC00, 0xBC88, 0xD638, 0xB294, 32, 0xCD5C, 0xC18C, 32, 52, 0xC790, 32, 0xC774, 0xC0C1, 0xC774, 0xC5B4, 0xC57C, 32, 0xD569, 0xB2C8, 0xB2E4])]"

definition INFO_MESSAGES :: "(int \<times> pystr) list" where
  "INFO_MESSAGES = [(0, [0xBC29, 0xC7A5, 0xC5D0, 32, 0xC758, 0xD574, 32, 0xAC15, 0xC81C, 0xD1F4, 0xC7A5, 32, 0xB418, 0xC5C8, 0xC2B5, 0xB2C8, 0xB2E4, 46])]"

definition OK_TEXT :: pystr where "OK_TEXT = [0xD655, 0xC778]"

subsection \<open>BaseState\<close>

text \<open>
  The scene a transition leads to, by the arguments of its constructor. \<open>LobbyState\<close> and
  \<open>RankingState\<close> send requests while they are constructed, which is when the transition is
  queued: \<open>entry_requests\<close>.
\<close>

datatype scene =
    To_lobby
  | To_single pystr "pystr option"
  | To_multi pystr int "pystr option"
  | To_ranking

fun entry_requests :: "scene \<Rightarrow> request list" where
  "entry_requests To_lobby = [Room_list, Lobby_user_list, Friend_list]"
| "entry_requests To_ranking = [Ranking]"
| "entry_requests _ = []"

datatype fade = Fade_in | Fade_out

text \<open>
  \<open>sent\<close> lists the requests handed to \<open>net_worker.send_packet\<close>; \<open>my_session\<close> is the object
  \<open>self.session\<close> that all scenes share.
\<close>

record base_state =
  next_state :: "scene option"
  fade_mode :: "fade option"
  fade_elapsed_ms :: rat
  my_session :: session
  sent :: "request list"

definition FADE_DURATION_MS :: rat where "FADE_DURATION_MS = 500"

definition BaseState :: "session \<Rightarrow> base_state" where
  "BaseState se = \<lparr>next_state = None, fade_mode = None, fade_elapsed_ms = 0, my_session = se, sent = []\<rparr>"

definition start_fade_in :: "'a base_state_scheme \<Rightarrow> 'a base_state_scheme" where
  "start_fade_in s = s\<lparr>fade_mode := Some Fade_in, fade_elapsed_ms := 0\<rparr>"

definition start_fade_out :: "'a base_state_scheme \<Rightarrow> 'a base_state_scheme" where
  "start_fade_out s = s\<lparr>fade_mode := Some Fade_out, fade_elapsed_ms := 0\<rparr>"

text \<open>\<open>queue_state(S(...))\<close>: the argument is constructed first, whatever is pending.\<close>

definition queue_state :: "scene \<Rightarrow> 'a base_state_scheme \<Rightarrow> 'a base_state_scheme" where
  "queue_state sc s =
     (let s = s\<lparr>sent := sent s @ entry_requests sc\<rparr> in
      if next_state s = None then start_fade_out (s\<lparr>next_state := Some sc\<rparr>) else s)"

definition consume_state :: "'a base_state_scheme \<Rightarrow> scene option \<times> 'a base_state_scheme" where
  "consume_state s =
     (if next_state s \<noteq> None \<and> fade_mode s = Some Fade_out \<and> FADE_DURATION_MS \<le> fade_elapsed_ms s
      then (next_state s, s\<lparr>next_state := None\<rparr>) else (None, s))"

definition update_fade :: "rat \<Rightarrow> 'a base_state_scheme \<Rightarrow> 'a base_state_scheme" where
  "update_fade dt_ms s =
     (if fade_mode s = None then s
      else let s = s\<lparr>fade_elapsed_ms := min (fade_elapsed_ms s + dt_ms) FADE_DURATION_MS\<rparr> in
        if fade_mode s = Some Fade_in \<and> FADE_DURATION_MS \<le> fade_elapsed_ms s
        then s\<lparr>fade_mode := None\<rparr> else s)"

definition is_input_blocked :: "'a base_state_scheme \<Rightarrow> bool" where
  "is_input_blocked s \<longleftrightarrow> fade_mode s \<noteq> None"

text \<open>The alpha value of \<open>draw_fade\<close>.\<close>

definition fade_alpha :: "'a base_state_scheme \<Rightarrow> int option" where
  "fade_alpha s = (case fade_mode s of
     None \<Rightarrow> None
   | Some m \<Rightarrow> let progress = fade_elapsed_ms s / FADE_DURATION_MS in
       Some (if m = Fade_in then py_trunc (255 * (1 - progress)) else py_trunc (255 * progress)))"

text \<open>\<open>net_worker.send_packet(builder.build_...(...))\<close>: an exception of the builder escapes.\<close>

definition send :: "request \<Rightarrow> 'a base_state_scheme \<Rightarrow> 'a base_state_scheme py" where
  "send r s = py_bind (build r) (\<lambda>_. Inr (s\<lparr>sent := sent s @ [r]\<rparr>))"

definition send_all :: "request list \<Rightarrow> 'a base_state_scheme \<Rightarrow> 'a base_state_scheme py" where
  "send_all = py_for send"

lemma send_frame: "send r s = Inr s' \<Longrightarrow> s' = s\<lparr>sent := sent s @ [r]\<rparr>"
  by (auto simp: send_def py_bind_eq_Inr)

lemma send_all_frame: "send_all rs s = Inr s' \<Longrightarrow> \<exists>l. s' = s\<lparr>sent := l\<rparr>"
  unfolding send_all_def
proof (induction rs arbitrary: s)
  case Nil
  then have "s' = s\<lparr>sent := sent s\<rparr>" by (cases s) simp
  then show ?case ..
next
  case (Cons r rs)
  then obtain s1 where s1: "send r s = Inr s1" "py_for send rs s1 = Inr s'" by (auto simp: py_bind_eq_Inr)
  from Cons.IH [OF s1(2)] send_frame [OF s1(1)] show ?case by auto
qed

subsection \<open>Properties\<close>

text \<open>What a scene does with its transition: queue one, or let a frame pass.\<close>

datatype transition_op = Queue scene | Frame rat

fun fade_op :: "transition_op \<Rightarrow> 'a base_state_scheme \<Rightarrow> scene option \<times> 'a base_state_scheme" where
  "fade_op (Queue sc) s = (None, queue_state sc s)"
| "fade_op (Frame dt) s = consume_state (update_fade dt s)"

text \<open>The scenes the frames of a run return, in order.\<close>

fun fade_run :: "transition_op list \<Rightarrow> 'a base_state_scheme \<Rightarrow> scene list \<times> 'a base_state_scheme" where
  "fade_run [] s = ([], s)"
| "fade_run (e # es) s =
     (let (r, s1) = fade_op e s; (rs, s2) = fade_run es s1
      in (case r of None \<Rightarrow> rs | Some sc \<Rightarrow> sc # rs, s2))"

fun op_time :: "transition_op \<Rightarrow> rat" where
  "op_time (Queue sc) = 0"
| "op_time (Frame dt) = dt"

lemma fade_run_append:
  "fade_run (es @ fs) s = (let (r1, s1) = fade_run es s; (r2, s2) = fade_run fs s1 in (r1 @ r2, s2))"
  by (induction es arbitrary: s) (auto simp: Let_def split: prod.splits option.splits)

lemma op_times_nonneg: "(\<And>dt. Frame dt \<in> set es \<Longrightarrow> 0 \<le> dt) \<Longrightarrow> 0 \<le> sum_list (map op_time es)"
proof (induction es)
  case (Cons e es)
  then show ?case by (cases e) auto
qed simp

lemma waiting_run:
  assumes "next_state s = Some sc" "fade_mode s = Some Fade_out" "0 \<le> fade_elapsed_ms s"
    and "\<And>dt. Frame dt \<in> set es \<Longrightarrow> 0 \<le> dt" "fade_elapsed_ms s + sum_list (map op_time es) < 500"
  shows "\<exists>s'. fade_run es s = ([], s') \<and> next_state s' = Some sc \<and> fade_mode s' = Some Fade_out \<and>
    fade_elapsed_ms s' = fade_elapsed_ms s + sum_list (map op_time es)"
  using assms
proof (induction es arbitrary: s)
  case (Cons e es)
  have rest: "0 \<le> sum_list (map op_time es)"
    using Cons.prems(4) by (intro op_times_nonneg) simp
  show ?case
  proof (cases e)
    case (Queue sc')
    let ?s = "s\<lparr>sent := sent s @ entry_requests sc'\<rparr>"
    from Queue Cons.prems(1) have "fade_op e s = (None, ?s)" by (simp add: queue_state_def)
    with Cons.IH [of ?s] Cons.prems Queue show ?thesis by simp
  next
    case (Frame dt)
    let ?s = "s\<lparr>fade_elapsed_ms := fade_elapsed_ms s + dt\<rparr>"
    from Cons.prems(4,5) Frame rest have dt: "0 \<le> dt" "fade_elapsed_ms s + dt < 500" by auto
    with Cons.prems Frame have "fade_op e s = (None, ?s)"
      by (simp add: update_fade_def consume_state_def FADE_DURATION_MS_def min_def)
    with Cons.IH [of ?s] Cons.prems dt Frame show ?thesis by (simp add: add.assoc)
  qed
qed simp

text \<open>
  C26: the first transition queued wins and takes half a second. From a scene with nothing
  pending, whatever is queued after the first transition and however the frames fall, no frame
  returns a next scene before 500 ms have passed, the frame that completes them returns the first
  scene queued, and until then the input is blocked.
\<close>

theorem first_transition_wins:
  assumes "next_state s = None" "\<And>d. Frame d \<in> set es \<Longrightarrow> 0 \<le> d"
    and "sum_list (map op_time es) < 500" "500 \<le> sum_list (map op_time es) + dt"
  shows "\<exists>s' s''. fade_run (Queue sc # es) s = ([], s') \<and> is_input_blocked s' \<and> next_state s' = Some sc \<and>
    fade_op (Frame dt) s' = (Some sc, s'') \<and> next_state s'' = None"
proof -
  let ?s = "queue_state sc s"
  have q: "next_state ?s = Some sc" "fade_mode ?s = Some Fade_out" "fade_elapsed_ms ?s = 0"
    using assms(1) by (simp_all add: queue_state_def start_fade_out_def)
  from waiting_run [OF q(1,2), of es] q(3) assms(2,3) obtain s' where
    s': "fade_run es ?s = ([], s')" "next_state s' = Some sc" "fade_mode s' = Some Fade_out"
      "fade_elapsed_ms s' = sum_list (map op_time es)" by auto
  with assms(4) show ?thesis
    by (auto simp: is_input_blocked_def update_fade_def consume_state_def FADE_DURATION_MS_def min_def)
qed

theorem first_transition_wins_witness:
  "\<exists>s' s''. fade_run [Queue To_lobby, Frame 300, Queue To_ranking, Frame 100] (BaseState Session) = ([], s') \<and>
     is_input_blocked s' \<and> next_state s' = Some To_lobby \<and>
     fade_op (Frame 100) s' = (Some To_lobby, s'') \<and> next_state s'' = None"
  by (rule first_transition_wins) (auto simp: BaseState_def)

end
