(* ===== verification/Textinput.thy ===== *)
theory Textinput
  imports Scenes
begin

text \<open>
  The text field \<open>InputBox\<close> (\<^verbatim>\<open>client/tetris/ui/inputbox.py\<close>): typing, deleting with key
  repeat, the text being composed, and the part of the text that is shown. Which characters
  \<open>str.isprintable\<close> accepts and the width of a text in the font are parameters.
\<close>

subsection \<open>State\<close>

record input_box =
  ib_rect :: rect
  placeholder :: pystr
  text_h :: int
  ib_text :: pystr
  editing_text :: pystr
  ib_active :: bool
  is_password :: bool
  allow_korean :: bool
  max_input_len :: "int option"
  ib_padding :: int
  cursor_visible :: bool
  cursor_timer_ms :: rat
  backspace_pressed :: bool
  backspace_repeat_timer :: rat
  backspace_repeat_time1_active :: bool
  backspace_repeat_time2_active :: bool

definition cursor_blink_ms :: rat where "cursor_blink_ms = 500"
definition backspace_repeat_time1 :: rat where "backspace_repeat_time1 = 500"
definition backspace_repeat_time2 :: rat where "backspace_repeat_time2 = 50"

definition InputBox :: "rect \<Rightarrow> pystr \<Rightarrow> int option \<Rightarrow> bool \<Rightarrow> bool \<Rightarrow> input_box" where
  "InputBox r holder max_len password korean =
     (let h = scaled (rect_h r) (7 / 10) in
      \<lparr>ib_rect = r, placeholder = holder, text_h = h, ib_text = [], editing_text = [], ib_active = False,
       is_password = password, allow_korean = korean, max_input_len = max_len,
       ib_padding = scaled h (1 / 2), cursor_visible = True, cursor_timer_ms = 0,
       backspace_pressed = False, backspace_repeat_timer = 0,
       backspace_repeat_time1_active = True, backspace_repeat_time2_active = False\<rparr>)"

definition reset_text :: "input_box \<Rightarrow> input_box" where
  "reset_text b = b\<lparr>ib_text := [], editing_text := []\<rparr>"

definition reset_cursor :: "input_box \<Rightarrow> input_box" where
  "reset_cursor b = b\<lparr>backspace_repeat_timer := 0, backspace_repeat_time1_active := True,
     backspace_repeat_time2_active := False, backspace_pressed := False\<rparr>"

text \<open>\<open>len(self.text) < self.max_input_len\<close>; comparing with \<open>None\<close> raises.\<close>

definition below_max :: "input_box \<Rightarrow> bool py" where
  "below_max b = (case max_input_len b of
     None \<Rightarrow> Inl TypeError | Some m \<Rightarrow> Inr (int (length (ib_text b)) < m))"

definition get_total_text :: "input_box \<Rightarrow> pystr py" where
  "get_total_text b = py_bind (below_max b) (\<lambda>below.
     Inr (if below then ib_text b @ editing_text b else ib_text b))"

definition extract_text :: "input_box \<Rightarrow> (pystr \<times> input_box) py" where
  "extract_text b = py_bind (get_total_text b) (\<lambda>txt. Inr (txt, reset_cursor (reset_text b)))"

definition isascii :: "pystr \<Rightarrow> bool" where
  "isascii ch \<longleftrightarrow> list_all (\<lambda>c. c < 128) ch"

definition add_char :: "(nat \<Rightarrow> bool) \<Rightarrow> pystr \<Rightarrow> input_box \<Rightarrow> input_box" where
  "add_char isprintable ch b =
     (if \<not> ib_active b then b
      else if ch = [] \<or> \<not> list_all isprintable ch then b
      else if \<not> allow_korean b \<and> \<not> isascii ch then b
      else if (case max_input_len b of None \<Rightarrow> False | Some m \<Rightarrow> m \<le> int (length (ib_text b))) then b
      else let b = (if isascii ch then b
          else b\<lparr>backspace_repeat_time1_active := False, backspace_repeat_time2_active := True\<rparr>)
        in b\<lparr>ib_text := ib_text b @ ch\<rparr>)"

definition delete_char :: "input_box \<Rightarrow> input_box" where
  "delete_char b = (if \<not> ib_active b then b else b\<lparr>ib_text := butlast (ib_text b)\<rparr>)"

subsection \<open>The shown part\<close>

text \<open>
  The search for a suffix that fits: \<open>n\<close> is \<open>len(self.text) - offset\<close>, so that the bound of the
  loop is its structure. \<open>offset >= len(self.text)\<close> after the increment ends it with \<open>""\<close>.
\<close>

fun render_suffix :: "(pystr \<Rightarrow> int) \<Rightarrow> int \<Rightarrow> pystr \<Rightarrow> nat \<Rightarrow> pystr" where
  "render_suffix width box rest n =
     (if width rest \<le> box then rest
      else case n of 0 \<Rightarrow> [] | Suc 0 \<Rightarrow> [] | Suc n' \<Rightarrow> render_suffix width box (drop 1 rest) n')"

definition get_render_text :: "(pystr \<Rightarrow> int) \<Rightarrow> input_box \<Rightarrow> pystr py" where
  "get_render_text width b = py_bind (below_max b) (\<lambda>below.
     let (render_text, text_px_len) =
           (if below then (ib_text b @ editing_text b, width (ib_text b) + width (editing_text b))
            else (ib_text b, width (ib_text b)));
         box_px_len = rect_w (ib_rect b) - ib_padding b * 2;
         render_text = (if is_password b
            then replicate (length (ib_text b) + length (editing_text b)) 42 else render_text)
     in Inr (if text_px_len \<le> box_px_len then render_text
        else render_suffix width box_px_len render_text (length (ib_text b))))"

subsection \<open>Events and frames\<close>

text \<open>\<open>Some txt\<close> is the text the return key takes out.\<close>

fun input_handle_event :: "(nat \<Rightarrow> bool) \<Rightarrow> collide \<Rightarrow> event \<Rightarrow> input_box \<Rightarrow> (pystr option \<times> input_box) py" where
  "input_handle_event isprintable collide (MOUSEBUTTONDOWN n p) b =
     Inr (None, if n = 1 then b\<lparr>ib_active := collide (ib_rect b) p\<rparr> else b)"
| "input_handle_event isprintable collide (TEXTEDITING t) b =
     Inr (None, if ib_active b \<and> allow_korean b then b\<lparr>editing_text := t\<rparr> else b)"
| "input_handle_event isprintable collide (TEXTINPUT t) b = Inr (None, add_char isprintable t b)"
| "input_handle_event isprintable collide (KEYDOWN k) b =
     (if k = K_BACKSPACE then Inr (None, (delete_char b)\<lparr>backspace_pressed := True\<rparr>)
      else if k = K_RETURN then py_bind (extract_text b) (\<lambda>(txt, b). Inr (Some txt, b))
      else Inr (None, b))"
| "input_handle_event isprintable collide (KEYUP k) b =
     Inr (None, if k = K_BACKSPACE then reset_cursor b else b)"
| "input_handle_event isprintable collide _ b = Inr (None, b)"

definition input_update :: "rat \<Rightarrow> input_box \<Rightarrow> input_box" where
  "input_update dt_ms b =
     (if ib_active b then
        let b = b\<lparr>cursor_timer_ms := cursor_timer_ms b + dt_ms\<rparr>;
            b = (if cursor_blink_ms \<le> cursor_timer_ms b
                 then b\<lparr>cursor_timer_ms := cursor_timer_ms b - cursor_blink_ms,
                        cursor_visible := \<not> cursor_visible b\<rparr> else b)
        in if backspace_repeat_time1_active b \<and> backspace_pressed b then
             let b = b\<lparr>backspace_repeat_timer := backspace_repeat_timer b + dt_ms\<rparr> in
             if backspace_repeat_time1 \<le> backspace_repeat_timer b
             then delete_char (b\<lparr>backspace_repeat_timer := backspace_repeat_timer b - backspace_repeat_time1,
                    backspace_repeat_time1_active := False, backspace_repeat_time2_active := True\<rparr>)
             else b
           else if backspace_repeat_time2_active b \<and> backspace_pressed b then
             let b = b\<lparr>backspace_repeat_timer := backspace_repeat_timer b + dt_ms\<rparr> in
             if backspace_repeat_time2 \<le> backspace_repeat_timer b
             then delete_char (b\<lparr>backspace_repeat_timer := backspace_repeat_timer b - backspace_repeat_time2\<rparr>)
             else b
           else b
      else b\<lparr>cursor_visible := False, cursor_timer_ms := 0, backspace_repeat_timer := 0,
             backspace_repeat_time1_active := True, backspace_repeat_time2_active := False\<rparr>)"

subsection \<open>Lemmas\<close>

text \<open>The operations of a field as those of a machine; the texts taken out are collected.\<close>

datatype input_op = Box_event event | Box_frame rat

fun input_step :: "(nat \<Rightarrow> bool) \<Rightarrow> collide \<Rightarrow> input_op \<Rightarrow> input_box \<times> pystr list
    \<Rightarrow> (input_box \<times> pystr list) py" where
  "input_step isprintable collide (Box_event ev) (b, out) =
     py_bind (input_handle_event isprintable collide ev b) (\<lambda>(r, b).
       Inr (b, case r of None \<Rightarrow> out | Some t \<Rightarrow> out @ [t]))"
| "input_step isprintable collide (Box_frame dt) (b, out) = Inr (input_update dt b, out)"

text \<open>The characters a field accepts, and the events in which an input method commits one character.\<close>

definition accepted :: "(nat \<Rightarrow> bool) \<Rightarrow> bool \<Rightarrow> nat \<Rightarrow> bool" where
  "accepted isprintable korean c \<longleftrightarrow> isprintable c \<and> (korean \<or> c < 128)"

definition fitting :: "(nat \<Rightarrow> bool) \<Rightarrow> bool \<Rightarrow> int \<Rightarrow> pystr \<Rightarrow> bool" where
  "fitting isprintable korean m txt \<longleftrightarrow> list_all (accepted isprintable korean) txt \<and> int (length txt) \<le> m"

definition wf_input :: "(nat \<Rightarrow> bool) \<Rightarrow> bool \<Rightarrow> int \<Rightarrow> input_box \<times> pystr list \<Rightarrow> bool" where
  "wf_input isprintable korean m = (\<lambda>(b, out). max_input_len b = Some m \<and> allow_korean b = korean \<and>
     fitting isprintable korean m (ib_text b) \<and> (\<not> korean \<longrightarrow> editing_text b = []) \<and>
     (\<not> korean \<longrightarrow> list_all (fitting isprintable korean m) out))"

fun single_chars :: "input_op \<Rightarrow> bool" where
  "single_chars (Box_event (TEXTINPUT t)) = (length t \<le> 1)"
| "single_chars _ = True"

lemma fitting_butlast: "fitting isp k m txt \<Longrightarrow> fitting isp k m (butlast txt)"
  by (auto simp: fitting_def list_all_iff dest: in_set_butlastD)

lemma wf_input_delete: "wf_input isp k m (b, out) \<Longrightarrow> wf_input isp k m (delete_char b, out)"
  by (simp add: wf_input_def delete_char_def fitting_butlast)

lemma wf_input_fields [simp]:
  "wf_input isp k m (b\<lparr>ib_active := v\<rparr>, out) = wf_input isp k m (b, out)"
  "wf_input isp k m (b\<lparr>backspace_pressed := v\<rparr>, out) = wf_input isp k m (b, out)"
  "wf_input isp k m (b\<lparr>cursor_timer_ms := t\<rparr>, out) = wf_input isp k m (b, out)"
  "wf_input isp k m (b\<lparr>cursor_visible := v\<rparr>, out) = wf_input isp k m (b, out)"
  "wf_input isp k m (b\<lparr>backspace_repeat_timer := t\<rparr>, out) = wf_input isp k m (b, out)"
  "wf_input isp k m (b\<lparr>backspace_repeat_time1_active := v\<rparr>, out) = wf_input isp k m (b, out)"
  "wf_input isp k m (b\<lparr>backspace_repeat_time2_active := v\<rparr>, out) = wf_input isp k m (b, out)"
  "k \<Longrightarrow> wf_input isp k m (b\<lparr>editing_text := e\<rparr>, out) = wf_input isp k m (b, out)"
  by (auto simp: wf_input_def)

lemma wf_input_update: "wf_input isp k m (b, out) \<Longrightarrow> wf_input isp k m (input_update dt b, out)"
  by (simp add: input_update_def Let_def wf_input_delete)

lemma wf_input_add:
  assumes "wf_input isp k m (b, out)" "length ch \<le> 1"
  shows "wf_input isp k m (add_char isp ch b, out)"
  using assms
  by (auto simp: add_char_def wf_input_def fitting_def accepted_def isascii_def list_all_iff Let_def length_Suc_conv
      le_Suc_eq)

lemma wf_input_extract:
  assumes "extract_text b = Inr (txt, b')" "wf_input isp k m (b, out)"
  shows "wf_input isp k m (b', out @ [txt])"
  using assms
  by (auto simp: extract_text_def get_total_text_def below_max_def py_bind_eq_Inr wf_input_def reset_cursor_def
      reset_text_def fitting_def)

lemma wf_input_step:
  assumes "input_step isp collide e s = Inr s'" "single_chars e" "wf_input isp k m s"
  shows "wf_input isp k m s'"
proof -
  obtain b out where s: "s = (b, out)" by fastforce
  show ?thesis
  proof (cases e)
    case (Box_frame dt)
    with assms s show ?thesis by (auto simp: wf_input_update)
  next
    case (Box_event ev)
    with assms(1) s obtain r b' where h: "input_handle_event isp collide ev b = Inr (r, b')"
      and s': "s' = (b', case r of None \<Rightarrow> out | Some t \<Rightarrow> out @ [t])" by (auto simp: py_bind_eq_Inr)
    have k: "allow_korean b = k" using assms(3) s by (simp add: wf_input_def)
    show ?thesis
    proof (cases ev)
      case (KEYDOWN key)
      with h s s' assms(3) show ?thesis
        by (auto simp: py_bind_eq_Inr wf_input_delete dest: wf_input_extract split: if_splits)
    next
      case (TEXTINPUT t)
      with h s s' assms Box_event show ?thesis by (auto simp: wf_input_add)
    next
      case (KEYUP key)
      with h s s' assms(3) show ?thesis by (auto simp: reset_cursor_def)
    qed (use h s s' assms(3) k in \<open>auto split: if_splits\<close>)
  qed
qed

subsection \<open>Properties\<close>

text \<open>
  C31: a text field with a length limit keeps it, when the input method commits one character at
  a time. Whatever is typed, deleted, clicked, held down or composed, and however long frames take,
  nothing raises, the text has at most the allowed number of characters, all printable and, in a field
  that does not take Korean, all ASCII; and there every text the return key takes out is of that kind.
\<close>

theorem input_box_bounded:
  assumes "0 \<le> m" "\<And>e. e \<in> set es \<Longrightarrow> single_chars e"
  shows "\<exists>b out. py_for (input_step isprintable collide) es (InputBox r holder (Some m) password korean, []) = Inr (b, out) \<and>
    int (length (ib_text b)) \<le> m \<and> list_all (accepted isprintable korean) (ib_text b) \<and>
    (\<not> korean \<longrightarrow> (\<forall>t \<in> set out. int (length t) \<le> m \<and> list_all (accepted isprintable korean) t))"
proof -
  let ?P = "wf_input isprintable korean m"
  have "\<exists>s'. py_for (input_step isprintable collide) es (InputBox r holder (Some m) password korean, []) = Inr s' \<and> ?P s'"
  proof (rule py_for_defined)
    show "?P (InputBox r holder (Some m) password korean, [])"
      using assms(1) by (simp add: wf_input_def InputBox_def fitting_def Let_def)
    fix e s assume e: "e \<in> set es" and wf: "?P s"
    obtain b out where s: "s = (b, out)" by fastforce
    have "max_input_len b = Some m" using wf s by (simp add: wf_input_def)
    then have x: "\<exists>txt b'. extract_text b = Inr (txt, b')"
      by (simp add: extract_text_def get_total_text_def below_max_def)
    have "\<exists>r b'. input_handle_event isprintable collide ev b = Inr (r, b')" for ev
      using x by (cases "(isprintable, collide, ev, b)" rule: input_handle_event.cases) auto
    then have "\<exists>s'. input_step isprintable collide e s = Inr s'"
      unfolding s by (cases e) (auto, metis py_bind_Inr case_prod_conv)
    with wf_input_step [OF _ assms(2) [OF e] wf] show "\<exists>s'. input_step isprintable collide e s = Inr s' \<and> ?P s'"
      by blast
  qed
  then show ?thesis by (auto simp: wf_input_def fitting_def list_all_iff)
qed

theorem input_box_bounded_witness:
  "\<exists>b out. py_for (input_step (\<lambda>c. 32 \<le> c) (\<lambda>_ _. True))
      [Box_event (MOUSEBUTTONDOWN 1 (0, 0)), Box_event (TEXTINPUT [65]), Box_event (TEXTINPUT [0xAC00]),
       Box_event (TEXTINPUT [66]), Box_frame 16, Box_event (KEYDOWN K_RETURN)]
      (InputBox \<lparr>rect_x = 0, rect_y = 0, rect_w = 100, rect_h = 30\<rparr> [] (Some 1) False False, []) = Inr (b, out) \<and>
     out = [[65]] \<and> (\<forall>t \<in> set out. int (length t) \<le> 1)"
  using input_box_bounded [of 1 "[Box_event (MOUSEBUTTONDOWN 1 (0, 0)), Box_event (TEXTINPUT [65]),
      Box_event (TEXTINPUT [0xAC00]), Box_event (TEXTINPUT [66]), Box_frame 16, Box_event (KEYDOWN K_RETURN)]"
      "\<lambda>c. 32 \<le> c" "\<lambda>_ _. True" "\<lparr>rect_x = 0, rect_y = 0, rect_w = 100, rect_h = 30\<rparr>" "[]" False False]
  by (auto simp: InputBox_def Let_def add_char_def isascii_def extract_text_def get_total_text_def below_max_def
      input_update_def cursor_blink_ms_def reset_text_def reset_cursor_def)

end
