(* ===== verification/Scroll.thy ===== *)
theory Scroll
  imports Textinput
begin

text \<open>
  The scrolling windows' base class \<open>ScrollWindowBase\<close>
  (\<^verbatim>\<open>client/tetris/ui/scroll_window_base.py\<close>): the thumb, what moves it, and the range of
  lines shown. The abstract \<open>get_items_len\<close> is an argument \<open>n\<close> of the operations that call it,
  and the subclasses, which define it, implement the interface \<open>scrolled\<close>.
\<close>

subsection \<open>State\<close>

definition SCROLL_WIDTH :: int where "SCROLL_WIDTH = 20"

text \<open>Positions that the code computes as floats are rationals. \<open>scroll_h\<close> is always an integer.\<close>

record scroll_window =
  window_rect :: rect
  bg_scroll_rect :: rect
  scroll_rect :: rect
  scroll_y :: rat
  scroll_h :: int
  line_height :: int
  show_lines :: int
  min_h :: int
  max_scrollable_line :: int
  scrollable_line :: int
  scrollable_px :: int
  scroll_px :: rat
  prev_y :: int
  can_drag :: bool
  can_scroll :: bool
  show_start :: int
  show_end :: int

definition set_show_lines :: "int \<Rightarrow> int \<Rightarrow> int" where
  "set_show_lines window_h line_h = (let lines = window_h div line_h in if lines < 1 then 1 else lines)"

definition set_scroll_info :: "int \<Rightarrow> 'a scroll_window_scheme \<Rightarrow> 'a scroll_window_scheme" where
  "set_scroll_info n s =
     (let s = s\<lparr>max_scrollable_line := n\<rparr>;
          s = s\<lparr>scrollable_line := (if 0 < max_scrollable_line s - show_lines s
                then max_scrollable_line s - show_lines s else 0),
                scrollable_px := rect_h (bg_scroll_rect s) - min_h s\<rparr>
      in s\<lparr>scroll_px := (if 0 < max_scrollable_line s
             then of_int (scrollable_px s) / of_int (max_scrollable_line s) else 0)\<rparr>)"

definition ScrollWindowBase :: "rect \<Rightarrow> int \<Rightarrow> int \<Rightarrow> scroll_window" where
  "ScrollWindowBase r line_h n =
     (let bg = \<lparr>rect_x = rect_x r + rect_w r, rect_y = rect_y r, rect_w = SCROLL_WIDTH, rect_h = rect_h r\<rparr>
      in set_scroll_info n \<lparr>window_rect = r, bg_scroll_rect = bg, scroll_rect = bg, scroll_y = of_int (rect_y r),
           scroll_h = rect_h r, line_height = line_h, show_lines = set_show_lines (rect_h r) line_h,
           min_h = line_h, max_scrollable_line = 0, scrollable_line = 0,
           scrollable_px = rect_h r - line_h, scroll_px = 0, prev_y = 0, can_drag = False,
           can_scroll = False, show_start = 0, show_end = 0\<rparr>)"

text \<open>The top and the lowest position of the thumb, and the thumb's rectangle at \<open>scroll_y\<close>.\<close>

definition track_top :: "'a scroll_window_scheme \<Rightarrow> int" where
  "track_top s = rect_y (bg_scroll_rect s)"

definition track_bottom :: "'a scroll_window_scheme \<Rightarrow> int" where
  "track_bottom s = rect_y (bg_scroll_rect s) + rect_h (bg_scroll_rect s) - scroll_h s"

definition set_scroll_rect :: "'a scroll_window_scheme \<Rightarrow> 'a scroll_window_scheme" where
  "set_scroll_rect s = s\<lparr>scroll_rect := \<lparr>rect_x = rect_x (bg_scroll_rect s), rect_y = py_trunc (scroll_y s),
     rect_w = SCROLL_WIDTH, rect_h = scroll_h s\<rparr>\<rparr>"

definition scroll_to_bottom :: "'a scroll_window_scheme \<Rightarrow> 'a scroll_window_scheme" where
  "scroll_to_bottom s =
     (let s = s\<lparr>show_start := scrollable_line s\<rparr>; bottom_scroll_y = track_bottom s
      in s\<lparr>scroll_y := of_int bottom_scroll_y, scroll_rect := (scroll_rect s)\<lparr>rect_y := bottom_scroll_y\<rparr>\<rparr>)"

definition set_scroll_len :: "'a scroll_window_scheme \<Rightarrow> 'a scroll_window_scheme" where
  "set_scroll_len s =
     (let bg_h = rect_h (bg_scroll_rect s);
          s = (if scrollable_line s \<le> 0 then s\<lparr>scroll_h := bg_h\<rparr>
               else let s = s\<lparr>scroll_h := bg_h - py_trunc (scroll_px s * of_int (scrollable_line s))\<rparr>
                 in if scroll_h s < min_h s then s\<lparr>scroll_h := min_h s\<rparr> else s);
          s = (if of_int (track_bottom s) < scroll_y s then s\<lparr>scroll_y := of_int (track_bottom s)\<rparr> else s);
          s = (if scroll_y s < of_int (track_top s) then s\<lparr>scroll_y := of_int (track_top s)\<rparr> else s)
      in set_scroll_rect s)"

definition set_show_start_index :: "'a scroll_window_scheme \<Rightarrow> 'a scroll_window_scheme" where
  "set_show_start_index s =
     (if scrollable_line s \<le> 0 then s\<lparr>show_start := 0\<rparr>
      else if track_bottom s \<le> track_top s then s\<lparr>show_start := 0\<rparr>
      else let ratio = (scroll_y s - of_int (track_top s)) / of_int (track_bottom s - track_top s);
               ratio = (if ratio < 0 then 0 else if 1 < ratio then 1 else ratio);
               start = py_trunc (ratio * of_int (scrollable_line s));
               start = (if start < 0 then 0 else start);
               start = (if scrollable_line s < start then scrollable_line s else start)
        in s\<lparr>show_start := start\<rparr>)"

text \<open>The range \<open>draw\<close> shows, which the subclasses compute in the same way.\<close>

definition set_show_range :: "int \<Rightarrow> 'a scroll_window_scheme \<Rightarrow> 'a scroll_window_scheme" where
  "set_show_range n s =
     (if 0 < scrollable_line s then
        let e = show_start s + show_lines s in s\<lparr>show_end := (if n < e then n else e)\<rparr>
      else s\<lparr>show_start := 0, show_end := n\<rparr>)"

definition scroll_clear :: "int \<Rightarrow> 'a scroll_window_scheme \<Rightarrow> 'a scroll_window_scheme" where
  "scroll_clear n s =
     (let s = s\<lparr>scrollable_line := 0, show_start := 0, show_end := 0, scroll_y := of_int (track_top s),
                scroll_h := rect_h (bg_scroll_rect s)\<rparr>
      in set_scroll_info n (set_scroll_rect s))"

subsection \<open>Events\<close>

definition scroll_press :: "collide \<Rightarrow> pos \<Rightarrow> 'a scroll_window_scheme \<Rightarrow> 'a scroll_window_scheme" where
  "scroll_press collide p s =
     (let pos_y = snd p;
          s = (if collide (bg_scroll_rect s) p then
                 if collide (scroll_rect s) p then s\<lparr>prev_y := pos_y, can_drag := True, can_scroll := True\<rparr>
                 else
                   let y = of_int pos_y - of_int (scroll_h s) / 2;
                       y = (if y \<le> of_int (track_top s) then of_int (track_top s)
                            else if of_int (track_top s) < y \<and> y < of_int (track_bottom s) then y
                            else of_int (track_bottom s))
                   in s\<lparr>scroll_y := y, prev_y := pos_y, can_drag := True, can_scroll := True\<rparr>
               else if collide (window_rect s) p then s\<lparr>can_scroll := True, can_drag := False\<rparr>
               else s\<lparr>can_drag := False, can_scroll := False\<rparr>)
      in set_show_start_index (set_scroll_rect s))"

definition scroll_motion :: "int \<Rightarrow> 'a scroll_window_scheme \<Rightarrow> 'a scroll_window_scheme" where
  "scroll_motion pos_y s =
     (let top = track_top s; bg_bottom = rect_y (bg_scroll_rect s) + rect_h (bg_scroll_rect s);
          s = (if \<not> can_drag s then s
               else if pos_y \<le> top then s\<lparr>scroll_y := of_int top, prev_y := top\<rparr>
               else if top < pos_y \<and> pos_y < bg_bottom then
                 let px_diff = of_int (pos_y - prev_y s);
                     y = (if of_int bg_bottom < scroll_y s + px_diff + of_int (scroll_h s) then of_int (track_bottom s)
                          else if scroll_y s + px_diff < of_int top then of_int top
                          else scroll_y s + px_diff)
                 in s\<lparr>scroll_y := y, prev_y := pos_y\<rparr>
               else s\<lparr>scroll_y := of_int (track_bottom s), prev_y := bg_bottom\<rparr>)
      in set_show_start_index (set_scroll_rect s))"

definition scroll_wheel :: "int \<Rightarrow> 'a scroll_window_scheme \<Rightarrow> 'a scroll_window_scheme" where
  "scroll_wheel ev_y s =
     (let max_scroll_y = of_int (track_bottom s);
          y = (if 0 < ev_y then
                 if of_int (track_top s) < scroll_y s - scroll_px s then scroll_y s - scroll_px s
                 else of_int (track_top s)
               else if scroll_y s + scroll_px s < max_scroll_y then scroll_y s + scroll_px s else max_scroll_y)
      in set_scroll_rect (set_show_start_index (s\<lparr>scroll_y := y\<rparr>)))"

fun scroll_handle_event :: "collide \<Rightarrow> event \<Rightarrow> 'a scroll_window_scheme \<Rightarrow> 'a scroll_window_scheme" where
  "scroll_handle_event collide (MOUSEBUTTONDOWN b p) s = (if b = 1 then scroll_press collide p s else s)"
| "scroll_handle_event collide (MOUSEMOTION p) s = scroll_motion (snd p) s"
| "scroll_handle_event collide (MOUSEBUTTONUP b p) s = s\<lparr>can_drag := False\<rparr>"
| "scroll_handle_event collide (MOUSEWHEEL y) s = (if can_scroll s then scroll_wheel y s else s)"
| "scroll_handle_event collide _ s = s"

subsection \<open>Invariant\<close>

text \<open>
  For \<open>n\<close> items: the lines that can be scrolled away are those that do not fit, the first line
  shown is one of them, and the thumb lies on its track.
\<close>

definition wf_track :: "'a scroll_window_scheme \<Rightarrow> bool" where
  "wf_track s \<longleftrightarrow> 0 < min_h s \<and> min_h s \<le> rect_h (bg_scroll_rect s) \<and> 1 \<le> show_lines s \<and>
     of_int (track_top s) \<le> scroll_y s \<and> scroll_y s \<le> of_int (track_bottom s)"

definition wf_scroll :: "int \<Rightarrow> 'a scroll_window_scheme \<Rightarrow> bool" where
  "wf_scroll n s \<longleftrightarrow> wf_track s \<and> 0 \<le> scroll_px s \<and>
     scrollable_line s = max 0 (n - show_lines s) \<and> 0 \<le> show_start s \<and> show_start s \<le> scrollable_line s"

named_theorems scroll_frame \<open>fields an operation of the scroll window leaves alone\<close>

lemma set_scroll_rect_fields [scroll_frame]:
  "wf_track (set_scroll_rect s) = wf_track s" "wf_scroll n (set_scroll_rect s) = wf_scroll n s"
  by (simp_all add: set_scroll_rect_def wf_track_def wf_scroll_def track_top_def track_bottom_def)

lemma wf_scroll_drag [scroll_frame]:
  "wf_scroll n (s\<lparr>can_drag := v\<rparr>) = wf_scroll n s" "wf_scroll n (s\<lparr>can_scroll := v\<rparr>) = wf_scroll n s"
  "wf_scroll n (s\<lparr>prev_y := y\<rparr>) = wf_scroll n s" "wf_scroll n (s\<lparr>show_end := e\<rparr>) = wf_scroll n s"
  by (simp_all add: wf_track_def wf_scroll_def track_top_def track_bottom_def)

lemma show_start_index_range:
  "scrollable_line s = max 0 m \<Longrightarrow>
   0 \<le> show_start (set_show_start_index s) \<and> show_start (set_show_start_index s) \<le> scrollable_line s"
  by (auto simp: set_show_start_index_def Let_def)

lemma show_start_index_frame:
  "set_show_start_index s = s\<lparr>show_start := show_start (set_show_start_index s)\<rparr>"
  by (simp add: set_show_start_index_def Let_def)

lemma wf_show_start_index:
  assumes "wf_scroll n s"
  shows "wf_scroll n (set_show_start_index s)"
proof -
  have "wf_scroll n (s\<lparr>show_start := k\<rparr>)" if "0 \<le> k" "k \<le> scrollable_line s" for k
    using assms that by (simp add: wf_scroll_def wf_track_def track_top_def track_bottom_def)
  moreover have "scrollable_line s = max 0 (n - show_lines s)" using assms by (simp add: wf_scroll_def)
  ultimately show ?thesis
    using show_start_index_range by (subst show_start_index_frame) blast
qed

lemma wf_scroll_y:
  "wf_scroll n s \<Longrightarrow> of_int (track_top s) \<le> y \<Longrightarrow> y \<le> of_int (track_bottom s) \<Longrightarrow> wf_scroll n (s\<lparr>scroll_y := y\<rparr>)"
  by (simp add: wf_scroll_def wf_track_def track_top_def track_bottom_def)

lemma wf_trackD: "wf_scroll n s \<Longrightarrow> of_int (track_top s) \<le> (of_int (track_bottom s) :: rat)"
  unfolding wf_scroll_def wf_track_def by linarith

lemma wf_scroll_press: "wf_scroll n s \<Longrightarrow> wf_scroll n (scroll_press collide p s)"
  unfolding scroll_press_def Let_def
  by (intro wf_show_start_index) (auto simp: scroll_frame intro!: wf_scroll_y dest: wf_trackD)

lemma wf_scroll_motion: "wf_scroll n s \<Longrightarrow> wf_scroll n (scroll_motion y s)"
  unfolding scroll_motion_def Let_def
  by (intro wf_show_start_index)
    (auto simp: scroll_frame intro!: wf_scroll_y dest: wf_trackD simp: track_bottom_def track_top_def not_less)

lemma wf_scroll_wheel: "wf_scroll n s \<Longrightarrow> wf_scroll n (scroll_wheel y s)"
  unfolding scroll_wheel_def Let_def scroll_frame
  by (intro wf_show_start_index wf_scroll_y)
    (auto simp: wf_scroll_def wf_track_def)

lemma wf_scroll_event: "wf_scroll n s \<Longrightarrow> wf_scroll n (scroll_handle_event collide ev s)"
  by (cases ev) (simp_all add: wf_scroll_press wf_scroll_motion wf_scroll_wheel scroll_frame)

subsection \<open>Changing the number of items\<close>

text \<open>\<open>set_scroll_info\<close> followed by \<open>set_scroll_len\<close>, as every change of the items does.\<close>

definition resized :: "int \<Rightarrow> 'a scroll_window_scheme \<Rightarrow> 'a scroll_window_scheme" where
  "resized n s = set_scroll_len (set_scroll_info n s)"

definition wf_frame :: "'a scroll_window_scheme \<Rightarrow> bool" where
  "wf_frame s \<longleftrightarrow> 0 < min_h s \<and> min_h s \<le> rect_h (bg_scroll_rect s) \<and> 1 \<le> show_lines s"

lemma wf_scroll_frame: "wf_scroll n s \<Longrightarrow> wf_frame s"
  by (simp add: wf_scroll_def wf_track_def wf_frame_def)

lemma py_trunc_nonneg: "0 \<le> x \<Longrightarrow> 0 \<le> py_trunc x"
  by (simp add: py_trunc_def)

lemma scroll_info_spec:
  assumes "wf_frame s" "0 \<le> n"
  shows "wf_frame (set_scroll_info n s) \<and> 0 \<le> scroll_px (set_scroll_info n s) \<and>
    scrollable_line (set_scroll_info n s) = max 0 (n - show_lines s) \<and>
    show_lines (set_scroll_info n s) = show_lines s \<and> show_start (set_scroll_info n s) = show_start s \<and>
    scroll_y (set_scroll_info n s) = scroll_y s \<and> scroll_h (set_scroll_info n s) = scroll_h s \<and>
    bg_scroll_rect (set_scroll_info n s) = bg_scroll_rect s"
  using assms by (auto simp: set_scroll_info_def wf_frame_def Let_def)

lemma scroll_len_spec:
  assumes "wf_frame s" "0 \<le> scroll_px s"
  shows "wf_track (set_scroll_len s) \<and> scroll_px (set_scroll_len s) = scroll_px s \<and>
    scrollable_line (set_scroll_len s) = scrollable_line s \<and> show_start (set_scroll_len s) = show_start s \<and>
    show_lines (set_scroll_len s) = show_lines s"
proof -
  let ?bg = "rect_h (bg_scroll_rect s)"
  define h where "h = (if scrollable_line s \<le> 0 then ?bg
    else if ?bg - py_trunc (scroll_px s * of_int (scrollable_line s)) < min_h s then min_h s
    else ?bg - py_trunc (scroll_px s * of_int (scrollable_line s)))"
  have h: "h \<le> ?bg"
    using assms py_trunc_nonneg [of "scroll_px s * of_int (scrollable_line s)"]
    by (auto simp: h_def wf_frame_def)
  let ?s = "s\<lparr>scroll_h := h\<rparr>"
  have "(if scrollable_line s \<le> 0 then s\<lparr>scroll_h := ?bg\<rparr>
         else let s = s\<lparr>scroll_h := ?bg - py_trunc (scroll_px s * of_int (scrollable_line s))\<rparr>
              in if scroll_h s < min_h s then s\<lparr>scroll_h := min_h s\<rparr> else s) = ?s"
    by (simp add: h_def Let_def)
  then have len: "set_scroll_len s = (let
      s = (if of_int (track_bottom ?s) < scroll_y ?s then ?s\<lparr>scroll_y := of_int (track_bottom ?s)\<rparr> else ?s);
      s = (if scroll_y s < of_int (track_top s) then s\<lparr>scroll_y := of_int (track_top s)\<rparr> else s)
    in set_scroll_rect s)"
    by (simp only: set_scroll_len_def Let_def)
  have "of_int (track_top ?s) \<le> (of_int (track_bottom ?s) :: rat)"
    using h by (simp add: track_top_def track_bottom_def)
  then show ?thesis using assms(1) unfolding len
    by (simp add: Let_def scroll_frame wf_frame_def wf_track_def)
      (auto simp: track_top_def track_bottom_def set_scroll_rect_def)
qed

lemma resized_spec:
  assumes "wf_frame s" "0 \<le> n"
  shows "wf_track (resized n s) \<and> 0 \<le> scroll_px (resized n s) \<and>
    scrollable_line (resized n s) = max 0 (n - show_lines (resized n s)) \<and>
    show_start (resized n s) = show_start s \<and> show_lines (resized n s) = show_lines s"
  using scroll_info_spec [OF assms] scroll_len_spec [of "set_scroll_info n s"] by (simp add: resized_def)

lemma wf_resized_grow:
  assumes "wf_scroll m s" "0 \<le> m" "m \<le> n"
  shows "wf_scroll n (resized n s)"
  using resized_spec [OF wf_scroll_frame [OF assms(1)], of n] assms by (auto simp: wf_scroll_def)

lemma wf_resized_start:
  assumes "wf_frame s" "0 \<le> n"
  shows "wf_scroll n (set_show_start_index (resized n s))"
proof -
  obtain k where k: "set_show_start_index (resized n s) = (resized n s)\<lparr>show_start := k\<rparr>"
    using show_start_index_frame by metis
  from resized_spec [OF assms] show_start_index_range [of "resized n s" "n - show_lines (resized n s)"]
  show ?thesis unfolding k by (simp add: wf_scroll_def wf_track_def track_top_def track_bottom_def)
qed

lemma wf_resized_bottom:
  assumes "wf_frame s" "0 \<le> n"
  shows "wf_scroll n (scroll_to_bottom (resized n s))"
  using resized_spec [OF assms]
  by (auto simp: wf_scroll_def wf_track_def scroll_to_bottom_def track_top_def track_bottom_def Let_def)

lemma wf_scroll_clear:
  assumes "wf_frame s"
  shows "wf_scroll 0 (scroll_clear 0 s)"
  using assms
  by (auto simp: scroll_clear_def set_scroll_info_def set_scroll_rect_def wf_frame_def wf_scroll_def wf_track_def
      track_top_def track_bottom_def Let_def)

lemma wf_ScrollWindowBase:
  "0 < line_h \<Longrightarrow> line_h \<le> rect_h r \<Longrightarrow> wf_scroll 0 (ScrollWindowBase r line_h 0)"
  by (auto simp: ScrollWindowBase_def set_scroll_info_def set_show_lines_def wf_scroll_def wf_track_def
      track_top_def track_bottom_def Let_def)

text \<open>The range that is drawn: existing lines, and as many as there are and fit.\<close>

definition view_ok :: "int \<Rightarrow> 'a scroll_window_scheme \<Rightarrow> bool" where
  "view_ok n s \<longleftrightarrow> 0 \<le> show_start s \<and> show_end s \<le> n \<and> show_end s - show_start s = min n (show_lines s)"

lemma show_range_ok:
  assumes "wf_scroll n s" "0 \<le> n"
  shows "view_ok n (set_show_range n s) \<and> wf_scroll n (set_show_range n s)"
  using assms
  by (auto simp: set_show_range_def wf_scroll_def wf_track_def view_ok_def track_top_def track_bottom_def Let_def)

text \<open>The interface of the subclasses: a machine whose items the window's state fits.\<close>

locale scrolled = machine step inv
  for step :: "'e \<Rightarrow> 's \<Rightarrow> 's py" and inv :: "'s \<Rightarrow> bool" +
  fixes win :: "'s \<Rightarrow> scroll_window" and items_len :: "'s \<Rightarrow> int"
  assumes inv_scroll: "inv s \<Longrightarrow> wf_scroll (items_len s) (win s)"
    and items_len_nonneg: "0 \<le> items_len s"
begin

lemma run_view:
  assumes "inv s" "py_for step es s = Inr s'"
  shows "view_ok (items_len s') (set_show_range (items_len s') (win s')) \<and>
    of_int (track_top (win s')) \<le> scroll_y (win s') \<and> scroll_y (win s') \<le> of_int (track_bottom (win s'))"
  using show_range_ok [OF inv_scroll items_len_nonneg] inv_scroll run_inv [OF assms]
  by (auto simp: wf_scroll_def wf_track_def)

end

end
