(* ===== verification/Chat.thy ===== *)
theory Chat
  imports Scroll
begin

text \<open>
  The chat window (\<^verbatim>\<open>client/tetris/ui/chat_window.py\<close>): a scrolling window whose items are
  the lines of the messages, cut to the window's width, above a text field. The width of a text in
  the font is the parameter \<open>px\<close>.
\<close>

definition CHAT_INPUT_HEIGHT :: int where "CHAT_INPUT_HEIGHT = 30"
definition CHAT_PADDING_Y :: int where "CHAT_PADDING_Y = 10"
definition MAX_MESSAGE_LINES :: int where "MAX_MESSAGE_LINES = 100"
definition FONT_SIZE :: int where "FONT_SIZE = 20"
definition LINE_PADDING :: int where "LINE_PADDING = 2"
definition LINE_HEIGHT :: int where "LINE_HEIGHT = FONT_SIZE + LINE_PADDING"
definition VISIBLE_LINES :: int where "VISIBLE_LINES = 10"
definition CHAT_SHOW_HEIGHT :: int where "CHAT_SHOW_HEIGHT = LINE_HEIGHT * VISIBLE_LINES"
definition OPTIMIZED_OFFSET :: nat where "OPTIMIZED_OFFSET = 10"
definition TEXT_START_OFFSET_X :: int where "TEXT_START_OFFSET_X = 2"
definition CHAT_HOLDER :: pystr where "CHAT_HOLDER = [0xCC44, 0xD305, 0xC744, 32, 0xC785, 0xB825, 0xD558, 0xC138, 0xC694]"

lemmas chat_consts = CHAT_INPUT_HEIGHT_def CHAT_PADDING_Y_def MAX_MESSAGE_LINES_def FONT_SIZE_def LINE_PADDING_def
  LINE_HEIGHT_def VISIBLE_LINES_def CHAT_SHOW_HEIGHT_def OPTIMIZED_OFFSET_def TEXT_START_OFFSET_X_def

record chat_window = scroll_window +
  texts :: "pystr list"
  chat_input :: input_box

definition ChatWindow :: "rect \<Rightarrow> chat_window" where
  "ChatWindow r =
     (let show_rect = r\<lparr>rect_h := CHAT_SHOW_HEIGHT\<rparr>;
          input_rect = r\<lparr>rect_y := rect_y show_rect + rect_h show_rect + CHAT_PADDING_Y, rect_h := CHAT_INPUT_HEIGHT\<rparr>;
          box = (InputBox input_rect CHAT_HOLDER (Some (int MAX_CHAT_INPUT)) False True)
            \<lparr>text_h := FONT_SIZE, ib_padding := TEXT_START_OFFSET_X\<rparr>;
          base = (ScrollWindowBase show_rect LINE_HEIGHT 0)\<lparr>show_lines := VISIBLE_LINES,
            max_scrollable_line := MAX_MESSAGE_LINES - VISIBLE_LINES\<rparr>
      in set_scroll_info 0 (scroll_window.extend base (chat_window.fields [] box)))"

definition chat_items_len :: "chat_window \<Rightarrow> int" where
  "chat_items_len c = int (length (texts c))"

subsection \<open>Cutting a message into lines\<close>

text \<open>The first inner loop advances by \<open>OPTIMIZED_OFFSET\<close> characters, the second by one.\<close>

function coarse_offset :: "(pystr \<Rightarrow> int) \<Rightarrow> int \<Rightarrow> pystr \<Rightarrow> nat \<Rightarrow> nat" where
  "coarse_offset px w remain offset =
     (if length remain \<le> offset + OPTIMIZED_OFFSET then offset
      else if w < px (take (offset + OPTIMIZED_OFFSET) remain) then offset
      else coarse_offset px w remain (offset + OPTIMIZED_OFFSET))"
  by pat_completeness auto
termination
  by (relation "measure (\<lambda>(px, w, remain, offset). length remain - offset)") (auto simp: OPTIMIZED_OFFSET_def)

function fine_offset :: "(pystr \<Rightarrow> int) \<Rightarrow> int \<Rightarrow> pystr \<Rightarrow> nat \<Rightarrow> nat" where
  "fine_offset px w remain offset =
     (if offset < length remain then
        if w < px (take (offset + 1) remain) then offset else fine_offset px w remain (offset + 1)
      else offset)"
  by pat_completeness auto
termination
  by (relation "measure (\<lambda>(px, w, remain, offset). length remain - offset)") auto

declare coarse_offset.simps [simp del] fine_offset.simps [simp del]

definition line_offset :: "(pystr \<Rightarrow> int) \<Rightarrow> int \<Rightarrow> pystr \<Rightarrow> nat" where
  "line_offset px w remain =
     (let offset = fine_offset px w remain (coarse_offset px w remain 0) in if offset = 0 then 1 else offset)"

function wrap_message :: "(pystr \<Rightarrow> int) \<Rightarrow> int \<Rightarrow> pystr \<Rightarrow> pystr list" where
  "wrap_message px w remain =
     (if remain = [] then []
      else if px remain \<le> w then [remain]
      else let offset = line_offset px w remain in take offset remain # wrap_message px w (drop offset remain))"
  by pat_completeness auto
termination
  by (relation "measure (\<lambda>(px, w, remain). length remain)") (auto simp: line_offset_def Let_def)

declare wrap_message.simps [simp del]

definition full_text :: "pystr \<Rightarrow> pystr \<Rightarrow> pystr" where
  "full_text user_name new_message = [91] @ user_name @ [93, 58, 32] @ new_message"

definition add_new_message :: "(pystr \<Rightarrow> int) \<Rightarrow> pystr \<Rightarrow> pystr \<Rightarrow> chat_window \<Rightarrow> chat_window" where
  "add_new_message px user_name new_message c =
     (let c = c\<lparr>texts := texts c @ wrap_message px (rect_w (window_rect c)) (full_text user_name new_message)\<rparr>;
          c = (if MAX_MESSAGE_LINES < chat_items_len c
               then c\<lparr>texts := drop (nat (chat_items_len c - MAX_MESSAGE_LINES)) (texts c)\<rparr> else c);
          c = set_scroll_len (set_scroll_info (chat_items_len c) c)
      in if can_drag c then set_show_start_index c else scroll_to_bottom c)"

definition chat_clear :: "chat_window \<Rightarrow> chat_window" where
  "chat_clear c = (let c = c\<lparr>texts := []\<rparr> in scroll_clear (chat_items_len c) c)"

definition chat_handle_event :: "(nat \<Rightarrow> bool) \<Rightarrow> collide \<Rightarrow> event \<Rightarrow> chat_window
    \<Rightarrow> (pystr option \<times> chat_window) py" where
  "chat_handle_event isprintable collide ev c =
     (let c = scroll_handle_event collide ev c in
      py_bind (input_handle_event isprintable collide ev (chat_input c)) (\<lambda>(r, box).
        Inr (r, c\<lparr>chat_input := box\<rparr>)))"

definition chat_update :: "rat \<Rightarrow> chat_window \<Rightarrow> chat_window" where
  "chat_update dt_ms c = c\<lparr>chat_input := input_update dt_ms (chat_input c)\<rparr>"

subsection \<open>Lines\<close>

lemma coarse_fits:
  "offset = 0 \<or> px (take offset remain) \<le> w \<Longrightarrow>
   coarse_offset px w remain offset = 0 \<or> px (take (coarse_offset px w remain offset) remain) \<le> w"
proof (induction px w remain offset rule: coarse_offset.induct)
  case (1 px w remain offset)
  then show ?case by (subst (1 2) coarse_offset.simps) (auto simp: not_less)
qed

lemma fine_fits:
  "offset = 0 \<or> px (take offset remain) \<le> w \<Longrightarrow>
   fine_offset px w remain offset = 0 \<or> px (take (fine_offset px w remain offset) remain) \<le> w"
proof (induction px w remain offset rule: fine_offset.induct)
  case (1 px w remain offset)
  then show ?case by (subst (1 2) fine_offset.simps) (auto simp: not_less)
qed

text \<open>The next character would not fit any more.\<close>

lemma fine_maximal:
  "fine_offset px w remain offset < length remain \<Longrightarrow>
   w < px (take (fine_offset px w remain offset + 1) remain)"
proof (induction px w remain offset rule: fine_offset.induct)
  case (1 px w remain offset)
  then show ?case by (subst fine_offset.simps, subst (asm) (3) fine_offset.simps) (auto split: if_splits)
qed

definition line_ok :: "(pystr \<Rightarrow> int) \<Rightarrow> int \<Rightarrow> pystr \<Rightarrow> bool" where
  "line_ok px w l \<longleftrightarrow> l \<noteq> [] \<and> (px l \<le> w \<or> length l = 1)"

lemma line_offset_ok:
  assumes "remain \<noteq> []"
  shows "line_ok px w (take (line_offset px w remain) remain)"
proof -
  let ?o = "fine_offset px w remain (coarse_offset px w remain 0)"
  have "?o = 0 \<or> px (take ?o remain) \<le> w" by (intro fine_fits coarse_fits) simp
  with assms show ?thesis by (cases remain) (auto simp: line_offset_def line_ok_def Let_def)
qed

lemma wrap_message_ok:
  "concat (wrap_message px w remain) = remain \<and> list_all (line_ok px w) (wrap_message px w remain)"
proof (induction px w remain rule: wrap_message.induct)
  case (1 px w remain)
  show ?case
  proof (cases "remain = [] \<or> px remain \<le> w")
    case True
    then show ?thesis by (subst (1 2) wrap_message.simps) (auto simp: line_ok_def)
  next
    case False
    with 1 [OF _ _ refl] line_offset_ok [of remain px w] show ?thesis
      by (subst (1 2) wrap_message.simps) (simp add: Let_def)
  qed
qed

subsection \<open>The window as a machine\<close>

datatype chat_op = Chat_message pystr pystr | Chat_clear | Chat_event event | Chat_frame rat

fun chat_step :: "(nat \<Rightarrow> bool) \<Rightarrow> collide \<Rightarrow> (pystr \<Rightarrow> int) \<Rightarrow> chat_op \<Rightarrow> chat_window \<Rightarrow> chat_window py" where
  "chat_step isprintable collide px (Chat_message u m) c = Inr (add_new_message px u m c)"
| "chat_step isprintable collide px Chat_clear c = Inr (chat_clear c)"
| "chat_step isprintable collide px (Chat_event ev) c =
     py_bind (chat_handle_event isprintable collide ev c) (\<lambda>(_, c). Inr c)"
| "chat_step isprintable collide px (Chat_frame dt) c = Inr (chat_update dt c)"

text \<open>At most a hundred lines, none wider than the window (unless a single character is).\<close>

definition wf_chat :: "(pystr \<Rightarrow> int) \<Rightarrow> int \<Rightarrow> chat_window \<Rightarrow> bool" where
  "wf_chat px w c \<longleftrightarrow> wf_scroll (chat_items_len c) c \<and> rect_w (window_rect c) = w \<and> show_lines c = VISIBLE_LINES \<and>
     chat_items_len c \<le> MAX_MESSAGE_LINES \<and> list_all (line_ok px w) (texts c)"

lemmas scroll_ops = scroll_press_def scroll_motion_def scroll_wheel_def set_scroll_rect_def
  set_show_start_index_def scroll_to_bottom_def set_scroll_len_def set_scroll_info_def scroll_clear_def

lemma scroll_event_fields:
  "texts (scroll_handle_event collide ev c) = texts c \<and> window_rect (scroll_handle_event collide ev c) = window_rect c \<and>
   show_lines (scroll_handle_event collide ev c) = show_lines c"
  by (cases ev) (simp_all add: scroll_ops Let_def)

lemma scroll_resize_fields:
  "texts (resized n c) = texts c \<and> window_rect (resized n c) = window_rect c \<and> show_lines (resized n c) = show_lines c \<and>
   can_drag (resized n c) = can_drag c"
  "texts (set_show_start_index c) = texts c \<and> window_rect (set_show_start_index c) = window_rect c \<and>
   show_lines (set_show_start_index c) = show_lines c"
  "texts (scroll_to_bottom c) = texts c \<and> window_rect (scroll_to_bottom c) = window_rect c \<and>
   show_lines (scroll_to_bottom c) = show_lines c"
  "texts (scroll_clear n c) = texts c \<and> window_rect (scroll_clear n c) = window_rect c \<and>
   show_lines (scroll_clear n c) = show_lines c"
  by (simp_all add: resized_def scroll_ops Let_def)

lemma wf_frame_texts [simp]: "wf_frame (c\<lparr>texts := ts\<rparr>) = wf_frame c"
  by (simp add: wf_frame_def)

text \<open>The lines after a message, and the state of the window with them.\<close>

definition lines_after :: "(pystr \<Rightarrow> int) \<Rightarrow> pystr \<Rightarrow> pystr \<Rightarrow> chat_window \<Rightarrow> pystr list" where
  "lines_after px u m c =
     (let ts = texts c @ wrap_message px (rect_w (window_rect c)) (full_text u m) in drop (length ts - 100) ts)"

lemma add_new_message_eq:
  "add_new_message px u m c =
    (let ts = lines_after px u m c; c' = resized (int (length ts)) (c\<lparr>texts := ts\<rparr>)
     in if can_drag c then set_show_start_index c' else scroll_to_bottom c')"
proof -
  have "(if MAX_MESSAGE_LINES < chat_items_len c then c\<lparr>texts := drop (nat (chat_items_len c - MAX_MESSAGE_LINES)) (texts c)\<rparr> else c)
      = c\<lparr>texts := drop (length (texts c) - 100) (texts c)\<rparr>" for c :: chat_window
    by (cases c) (simp add: chat_items_len_def chat_consts nat_diff_distrib)
  then show ?thesis
    by (simp add: add_new_message_def Let_def resized_def [symmetric] chat_items_len_def lines_after_def
        scroll_resize_fields del: drop_append)
qed

text \<open>The scrolling part of the invariant, which every operation keeps on its own.\<close>

definition chat_scrolls :: "chat_window \<Rightarrow> bool" where
  "chat_scrolls c \<longleftrightarrow> wf_scroll (chat_items_len c) c"

lemma scrolls_message:
  assumes "chat_scrolls c"
  shows "chat_scrolls (add_new_message px u m c)"
proof -
  define ts where "ts = lines_after px u m c"
  let ?n = "int (length ts)" and ?c = "c\<lparr>texts := ts\<rparr>"
  have "wf_frame c" using assms by (auto simp: chat_scrolls_def dest: wf_scroll_frame)
  then have "wf_scroll ?n (set_show_start_index (resized ?n ?c))" "wf_scroll ?n (scroll_to_bottom (resized ?n ?c))"
    by (simp_all add: wf_resized_start wf_resized_bottom)
  then show ?thesis
    unfolding add_new_message_eq ts_def [symmetric] by (simp add: chat_scrolls_def chat_items_len_def scroll_resize_fields Let_def)
qed

lemma scrolls_input [simp]: "chat_scrolls (c\<lparr>chat_input := b\<rparr>) = chat_scrolls c"
  by (simp add: chat_scrolls_def chat_items_len_def wf_scroll_def wf_track_def track_top_def track_bottom_def)

lemma scrolls_event: "chat_scrolls c \<Longrightarrow> chat_scrolls (scroll_handle_event collide ev c)"
  using wf_scroll_event [of "chat_items_len c" c collide ev]
  by (simp add: chat_scrolls_def chat_items_len_def scroll_event_fields)

lemma scrolls_update [simp]: "chat_scrolls (chat_update dt c) = chat_scrolls c"
  by (simp add: chat_update_def)

lemma scrolls_range: "chat_scrolls c \<Longrightarrow> chat_scrolls (set_show_range (chat_items_len c) c)"
proof -
  assume c: "chat_scrolls c"
  have "texts (set_show_range n c) = texts c" for n by (simp add: set_show_range_def Let_def)
  with c show_range_ok [of "chat_items_len c" c] show ?thesis by (simp add: chat_scrolls_def chat_items_len_def)
qed

lemma wf_chat_scrolls: "wf_chat px w c \<Longrightarrow> chat_scrolls c"
  by (simp add: wf_chat_def chat_scrolls_def)

lemma wf_chat_message:
  assumes "wf_chat px w c"
  shows "wf_chat px w (add_new_message px u m c)"
proof -
  define ts where "ts = lines_after px u m c"
  have c: "rect_w (window_rect c) = w" "show_lines c = VISIBLE_LINES" "list_all (line_ok px w) (texts c)"
    using assms by (auto simp: wf_chat_def)
  have "int (length ts) \<le> MAX_MESSAGE_LINES" by (simp add: ts_def lines_after_def Let_def chat_consts)
  moreover have "list_all (line_ok px w) ts"
    using c(3) wrap_message_ok [of px w "full_text u m"] c(1)
    by (auto simp: ts_def lines_after_def Let_def list_all_iff dest!: in_set_dropD simp del: drop_append)
  ultimately show ?thesis
    using c scrolls_message [OF wf_chat_scrolls [OF assms], of px u m] unfolding add_new_message_eq ts_def [symmetric]
    by (simp add: wf_chat_def chat_scrolls_def chat_items_len_def scroll_resize_fields Let_def)
qed

lemma wf_chat_step:
  assumes "wf_chat px w c" "chat_step isprintable collide px e c = Inr c'"
  shows "wf_chat px w c'"
proof (cases e)
  case (Chat_message u m)
  with assms show ?thesis by (auto simp: wf_chat_message)
next
  case Chat_clear
  with assms have "c' = scroll_clear 0 (c\<lparr>texts := []\<rparr>)" by (auto simp: chat_clear_def chat_items_len_def)
  with assms(1) show ?thesis
    by (auto simp: wf_chat_def chat_items_len_def scroll_resize_fields chat_consts wf_scroll_clear dest: wf_scroll_frame)
next
  case (Chat_event ev)
  with assms(2) obtain b where "c' = (scroll_handle_event collide ev c)\<lparr>chat_input := b\<rparr>"
    by (auto simp: chat_handle_event_def Let_def py_bind_eq_Inr)
  moreover from scrolls_event [OF wf_chat_scrolls [OF assms(1)], of collide ev]
  have "chat_scrolls ((scroll_handle_event collide ev c)\<lparr>chat_input := b\<rparr>)" by simp
  ultimately show ?thesis using assms(1)
    by (simp add: wf_chat_def chat_scrolls_def chat_items_len_def scroll_event_fields)
next
  case (Chat_frame dt)
  with assms show ?thesis
    by (auto simp: chat_update_def wf_chat_def wf_scroll_def wf_track_def track_top_def track_bottom_def chat_items_len_def)
qed

lemma truncate_scroll [simp]: "wf_scroll n (scroll_window.truncate s) = wf_scroll n s"
  by (simp add: wf_scroll_def wf_track_def track_top_def track_bottom_def scroll_window.truncate_def)

interpretation chat: scrolled "chat_step isprintable collide px" "wf_chat px w" scroll_window.truncate chat_items_len
  for isprintable collide px w
  by unfold_locales (auto simp: wf_chat_step chat_items_len_def, simp add: wf_chat_def chat_items_len_def)

lemma wf_ChatWindow: "wf_chat px (rect_w r) (ChatWindow r)"
  by (simp add: wf_chat_def ChatWindow_def ScrollWindowBase_def set_show_lines_def set_scroll_info_def Let_def chat_consts
      chat_items_len_def scroll_window.defs chat_window.defs wf_scroll_def wf_track_def track_top_def track_bottom_def)

subsection \<open>Properties\<close>

text \<open>
  C32: a chat message is shown whole. In a chat window with any history of messages, clicks,
  wheel turns and frames, a new message is cut into lines that put together are the message with its
  sender, each of which fits the window (or is one character); they go behind the lines there are, of
  which the last hundred are kept; and unless the user holds the thumb, the window then shows the last
  ten lines, all of which exist.
\<close>

theorem chat_message_shown:
  assumes "py_for (chat_step isprintable collide px) es (ChatWindow r) = Inr c" "\<not> can_drag c"
  shows "\<exists>ls. concat ls = full_text u m \<and> list_all (line_ok px (rect_w r)) ls \<and>
    (let c' = add_new_message px u m c; n = chat_items_len c'; v = set_show_range n c' in
       texts c' = drop (length (texts c @ ls) - 100) (texts c @ ls) \<and> n \<le> 100 \<and>
       show_end v = n \<and> show_start v = max 0 (n - 10))"
proof -
  from chat.run_inv [OF wf_ChatWindow assms(1)] have wf: "wf_chat px (rect_w r) c" .
  let ?ls = "wrap_message px (rect_w r) (full_text u m)" and ?c = "add_new_message px u m c"
  have w: "rect_w (window_rect c) = rect_w r" "wf_frame c" "show_lines c = VISIBLE_LINES"
    using wf by (auto simp: wf_chat_def dest: wf_scroll_frame)
  define ts where "ts = lines_after px u m c"
  let ?ts = ts
  have ts: "ts = drop (length (texts c @ ?ls) - 100) (texts c @ ?ls)" "int (length ts) \<le> 100"
    by (simp_all only: ts_def lines_after_def Let_def w) simp
  let ?r = "resized (int (length ?ts)) (c\<lparr>texts := ?ts\<rparr>)"
  have c': "?c = scroll_to_bottom ?r"
    using assms(2) by (simp add: add_new_message_eq Let_def ts_def)
  then have n: "texts ?c = ?ts" by (simp add: scroll_resize_fields)
  have "scrollable_line ?r = max 0 (int (length ?ts) - 10)"
    using resized_spec [of "c\<lparr>texts := ?ts\<rparr>" "int (length ?ts)"] w(2,3)
    by (simp add: scroll_resize_fields chat_consts)
  then have "show_start ?c = max 0 (int (length ?ts) - 10)" "scrollable_line ?c = max 0 (int (length ?ts) - 10)"
    unfolding c' by (simp_all add: scroll_to_bottom_def Let_def)
  moreover have "show_lines ?c = 10" unfolding c' using w(3) by (simp add: scroll_resize_fields chat_consts)
  ultimately show ?thesis using wrap_message_ok [of px "rect_w r" "full_text u m"]
    by (intro exI [of _ ?ls]) (simp add: Let_def n chat_items_len_def set_show_range_def, use ts in simp)
qed

theorem chat_message_shown_witness:
  "\<exists>ls. concat ls = full_text [65] [66, 67] \<and> list_all (line_ok (\<lambda>t. 10 * int (length t)) 30) ls"
proof -
  let ?r = "\<lparr>rect_x = 0, rect_y = 0, rect_w = 30, rect_h = 260\<rparr>"
  have "py_for (chat_step (\<lambda>_. True) (\<lambda>_ _. False) (\<lambda>t. 10 * int (length t))) [] (ChatWindow ?r) = Inr (ChatWindow ?r)"
    by simp
  moreover have "\<not> can_drag (ChatWindow ?r)"
    by (simp add: ChatWindow_def ScrollWindowBase_def set_scroll_info_def Let_def scroll_window.defs chat_window.defs)
  ultimately obtain ls where "concat ls = full_text [65] [66, 67]"
    "list_all (line_ok (\<lambda>t. 10 * int (length t)) (rect_w ?r)) ls"
    using chat_message_shown by meson
  then show ?thesis by auto
qed

end
