(* ===== verification/Lists.thy ===== *)
theory Lists
  imports Chat
begin

text \<open>
  The lists of the lobby: \<open>UserInfo\<close> and \<open>UserList\<close> (\<^verbatim>\<open>client/tetris/ui/user_info.py\<close>,
  user_list.py), \<open>RoomInfo\<close> and \<open>RoomList\<close> (room_info.py, room_list.py). Drawing moves
  the rectangles of the items, which decide what a click hits; what it shows is in \<open>Drawing\<close>.
\<close>

subsection \<open>Slices\<close>

text \<open>A loop over \<open>xs[a:b]\<close> that changes the elements; the index counts from the start of the slice.\<close>

definition slice_map :: "int \<Rightarrow> int \<Rightarrow> (int \<Rightarrow> 'a \<Rightarrow> 'a) \<Rightarrow> 'a list \<Rightarrow> 'a list" where
  "slice_map a b f xs =
     map (\<lambda>k. if a \<le> int k \<and> int k < b then f (int k - a) (xs ! k) else xs ! k) [0..<length xs]"

lemma length_slice_map [simp]: "length (slice_map a b f xs) = length xs"
  by (simp add: slice_map_def)

lemma map_slice_map: "(\<And>i x. g (f i x) = g x) \<Longrightarrow> map g (slice_map a b f xs) = map g xs"
  by (rule nth_equalityI) (auto simp: slice_map_def)

text \<open>The first element with a property, in place.\<close>

fun update_first :: "('a \<Rightarrow> bool) \<Rightarrow> ('a \<Rightarrow> 'a) \<Rightarrow> 'a list \<Rightarrow> 'a list" where
  "update_first P f [] = []"
| "update_first P f (x # xs) = (if P x then f x # xs else x # update_first P f xs)"

lemma update_first_none: "(\<And>x. x \<in> set xs \<Longrightarrow> \<not> P x) \<Longrightarrow> update_first P f xs = xs"
  by (induction xs) auto

lemma length_update_first [simp]: "length (update_first P f xs) = length xs"
  by (induction xs) auto

subsection \<open>UserInfo\<close>

record event_friend =
  ev_type :: pystr
  target_id :: int
  ev_pos :: pos

record user_info =
  ui_id :: int
  ui_nickname :: pystr
  ui_state :: bool
  ui_rect :: rect
  ui_nickname_rect :: rect
  ui_state_rect :: rect
  ui_nickname_text :: pystr
  ui_state_text :: pystr

definition NICKNAME_WIDTH_RATE :: rat where "NICKNAME_WIDTH_RATE = 7 / 10"
definition ONLINE_TEXT :: pystr where "ONLINE_TEXT = [0xC811, 0xC18D, 0xC911]"
definition OFFLINE_TEXT :: pystr where "OFFLINE_TEXT = [0xBBF8, 0xC811, 0xC18D]"

definition user_set_rect :: "rect \<Rightarrow> user_info \<Rightarrow> user_info" where
  "user_set_rect r u =
     (let nick = r\<lparr>rect_w := scaled (rect_w r) NICKNAME_WIDTH_RATE\<rparr>;
          st = r\<lparr>rect_x := rect_x nick + rect_w nick, rect_w := rect_w r - rect_w nick\<rparr>
      in u\<lparr>ui_rect := r, ui_nickname_rect := nick, ui_state_rect := st\<rparr>)"

definition user_update_info :: "user_info \<Rightarrow> user_info" where
  "user_update_info u = u\<lparr>ui_nickname_text := ui_nickname u,
     ui_state_text := if ui_state u then ONLINE_TEXT else OFFLINE_TEXT\<rparr>"

definition UserInfo :: "rect \<Rightarrow> int \<Rightarrow> pystr \<Rightarrow> bool \<Rightarrow> user_info" where
  "UserInfo r i nick st = user_update_info (user_set_rect r
     \<lparr>ui_id = i, ui_nickname = nick, ui_state = st, ui_rect = r, ui_nickname_rect = r, ui_state_rect = r,
      ui_nickname_text = [], ui_state_text = []\<rparr>)"

definition user_set_state :: "bool \<Rightarrow> user_info \<Rightarrow> user_info" where
  "user_set_state st u = user_update_info (u\<lparr>ui_state := st\<rparr>)"

definition user_set_nickname :: "pystr \<Rightarrow> user_info \<Rightarrow> user_info" where
  "user_set_nickname nick u = user_update_info (u\<lparr>ui_nickname := nick\<rparr>)"

fun user_info_handle_event :: "collide \<Rightarrow> event \<Rightarrow> user_info \<Rightarrow> event_friend option" where
  "user_info_handle_event collide (MOUSEBUTTONDOWN b p) u =
     (if b = 3 \<and> collide (ui_rect u) p then Some \<lparr>ev_type = [], target_id = ui_id u, ev_pos = p\<rparr> else None)"
| "user_info_handle_event collide _ u = None"

subsection \<open>UserList\<close>

definition HEADER_HEIGHT :: int where "HEADER_HEIGHT = 25"

record user_list = scroll_window +
  base_user_rect :: rect
  user_infos :: "user_info list"

definition user_items_len :: "user_list \<Rightarrow> int" where
  "user_items_len l = int (length (user_infos l))"

definition UserList :: "rect \<Rightarrow> user_list" where
  "UserList r =
     (let list_rect = r\<lparr>rect_y := rect_y r + HEADER_HEIGHT, rect_h := rect_h r - HEADER_HEIGHT\<rparr>;
          base = list_rect\<lparr>rect_h := HEADER_HEIGHT\<rparr>
      in set_scroll_len (set_scroll_info 0
           (scroll_window.extend (ScrollWindowBase list_rect (rect_h base) 0) (user_list.fields base []))))"

definition update_show_user_infos :: "user_list \<Rightarrow> user_list" where
  "update_show_user_infos l = set_show_range (user_items_len l) l"

definition user_row_rect :: "user_list \<Rightarrow> int \<Rightarrow> rect" where
  "user_row_rect l row = (base_user_rect l)\<lparr>rect_y := rect_y (base_user_rect l) + row * rect_h (base_user_rect l)\<rparr>"

definition user_list_add :: "int \<Rightarrow> pystr \<Rightarrow> bool \<Rightarrow> user_list \<Rightarrow> user_list" where
  "user_list_add i nick st l =
     (if \<exists>u \<in> set (user_infos l). ui_id u = i then
        l\<lparr>user_infos := update_first (\<lambda>u. ui_id u = i) (\<lambda>u. user_set_state st (user_set_nickname nick u)) (user_infos l)\<rparr>
      else
        let u = UserInfo (user_row_rect l (user_items_len l mod show_lines l)) i nick st;
            l = l\<lparr>user_infos := user_infos l @ [u]\<rparr>;
            l = set_scroll_len (set_scroll_info (user_items_len l) l)
        in update_show_user_infos l)"

definition update_user_infos :: "int \<Rightarrow> user_list \<Rightarrow> user_list" where
  "update_user_infos start_index l = l\<lparr>user_infos := slice_map start_index (user_items_len l)
     (\<lambda>k. user_set_rect (user_row_rect l ((start_index + k) mod show_lines l))) (user_infos l)\<rparr>"

definition user_list_delete :: "int \<Rightarrow> user_list \<Rightarrow> user_list" where
  "user_list_delete i l =
     (let l = (case List.find (\<lambda>k. ui_id (user_infos l ! k) = i) [0..<length (user_infos l)] of
            None \<Rightarrow> l
          | Some k \<Rightarrow> update_user_infos (int k)
              (l\<lparr>user_infos := take k (user_infos l) @ drop (Suc k) (user_infos l)\<rparr>));
          l = set_scroll_len (set_scroll_info (user_items_len l) l)
      in update_show_user_infos (set_show_start_index l))"

definition user_list_update :: "int \<Rightarrow> pystr \<Rightarrow> bool \<Rightarrow> user_list \<Rightarrow> user_list" where
  "user_list_update i nick st l = l\<lparr>user_infos :=
     update_first (\<lambda>u. ui_id u = i) (\<lambda>u. user_set_state st (user_set_nickname nick u)) (user_infos l)\<rparr>"

definition user_list_update_state :: "int \<Rightarrow> bool \<Rightarrow> user_list \<Rightarrow> user_list" where
  "user_list_update_state i st l = l\<lparr>user_infos :=
     update_first (\<lambda>u. ui_id u = i) (user_set_state st) (user_infos l)\<rparr>"

definition user_list_clear :: "user_list \<Rightarrow> user_list" where
  "user_list_clear l = (let l = l\<lparr>user_infos := []\<rparr> in scroll_clear (user_items_len l) l)"

text \<open>The users shown are asked in order; the first answer is returned.\<close>

definition shown_users :: "user_list \<Rightarrow> user_info list" where
  "shown_users l = take (nat (show_end l - show_start l)) (drop (nat (show_start l)) (user_infos l))"

definition user_list_handle_event :: "collide \<Rightarrow> event \<Rightarrow> user_list \<Rightarrow> event_friend option \<times> user_list" where
  "user_list_handle_event collide ev l =
     (let l = update_show_user_infos (scroll_handle_event collide ev l) in
      (case List.find (\<lambda>u. user_info_handle_event collide ev u \<noteq> None) (shown_users l) of
         None \<Rightarrow> None | Some u \<Rightarrow> user_info_handle_event collide ev u, l))"

text \<open>\<open>draw\<close> gives the users in view their rectangles, row by row; it reads them by index.\<close>

definition user_draw_item :: "int \<Rightarrow> int \<Rightarrow> user_list \<Rightarrow> user_list py" where
  "user_draw_item i draw_text_y l = py_bind (py_get (user_infos l) i) (\<lambda>u.
     py_bind (py_set (user_infos l) i (user_set_rect ((base_user_rect l)\<lparr>rect_y := draw_text_y\<rparr>) u)) (\<lambda>us.
       Inr (l\<lparr>user_infos := us\<rparr>)))"

definition user_list_draw :: "user_list \<Rightarrow> user_list py" where
  "user_list_draw l =
     (let l = set_show_range (user_items_len l) l in
      py_bind (py_for (\<lambda>i l. user_draw_item i (rect_y (window_rect l) + (i - show_start l) * line_height l) l)
        [show_start l..show_end l - 1] l) (\<lambda>l. Inr (update_show_user_infos l)))"

subsection \<open>RoomInfo\<close>

fun nat_str :: "nat \<Rightarrow> pystr" where
  "nat_str n = (if n < 10 then [48 + n] else nat_str (n div 10) @ [48 + n mod 10])"

declare nat_str.simps [simp del]

definition int_str :: "int \<Rightarrow> pystr" where
  "int_str i = (if i < 0 then 45 # nat_str (nat (- i)) else nat_str (nat i))"

record room_data =
  room_key :: int
  room_name :: pystr
  max_user :: int
  cur_user :: int
  is_private :: bool
  is_play :: bool

record room_info =
  ri_data :: room_data
  ri_rect :: rect
  ri_reactable :: bool
  ri_texts :: "pystr list"
  join_rect :: rect
  join_button :: "button option"

definition JOIN_TEXT :: pystr where "JOIN_TEXT = [0xCC38, 0xAC00]"

text \<open>The columns of a room's row; each width is a product with a float that the rectangle truncates.\<close>

definition room_join_rect :: "rect \<Rightarrow> rect" where
  "room_join_rect r =
     (let w = rect_w r;
          x = rect_x r + scaled w (2 / 10) + scaled w (4 / 10) + scaled w (2 / 10) + scaled w (1 / 10)
      in r\<lparr>rect_x := x, rect_w := scaled w (1 / 10)\<rparr>)"

definition room_texts :: "room_data \<Rightarrow> pystr list" where
  "room_texts d = [if is_private d then [0xBE44, 0xACF5, 0xAC1C] else [0xACF5, 0xAC1C], room_name d,
     int_str (cur_user d) @ [47] @ int_str (max_user d), if is_play d then [0xAC8C, 0xC784, 0xC911] else [0xB300, 0xAE30]]"

text \<open>The window always passes the data; the rows of captions are other rectangles.\<close>

definition RoomInfo :: "rect \<Rightarrow> room_data \<Rightarrow> room_info" where
  "RoomInfo r d = \<lparr>ri_data = d, ri_rect = r, ri_reactable = (\<not> is_play d), ri_texts = room_texts d,
     join_rect = room_join_rect r,
     join_button = (if \<not> is_play d then Some (Button (room_join_rect r) True JOIN_TEXT) else None)\<rparr>"

definition room_info_handle_event :: "collide \<Rightarrow> event \<Rightarrow> room_info \<Rightarrow> bool \<times> room_info" where
  "room_info_handle_event collide ev r =
     (if \<not> ri_reactable r then (False, r)
      else let (c, b) = opt_button collide ev (join_button r) in (c, r\<lparr>join_button := b\<rparr>))"

definition room_update_rects :: "int \<Rightarrow> room_info \<Rightarrow> room_info" where
  "room_update_rects new_rect_y r = r\<lparr>ri_rect := (ri_rect r)\<lparr>rect_y := new_rect_y\<rparr>,
     join_rect := (join_rect r)\<lparr>rect_y := new_rect_y\<rparr>,
     join_button := map_option (\<lambda>b. b\<lparr>btn_rect := (btn_rect b)\<lparr>rect_y := new_rect_y\<rparr>\<rparr>) (join_button r)\<rparr>"

subsection \<open>RoomList\<close>

definition ROOM_INFO_HEIGHT :: int where "ROOM_INFO_HEIGHT = 40"

record room_list = scroll_window +
  show_room_start_rect :: rect
  rooms :: "room_info list"
  btn_refresh :: button

definition room_items_len :: "room_list \<Rightarrow> int" where
  "room_items_len l = int (length (rooms l))"

definition update_show_rooms :: "room_list \<Rightarrow> room_list" where
  "update_show_rooms l =
     (let l = set_show_range (room_items_len l) l; r = show_room_start_rect l
      in l\<lparr>rooms := slice_map (show_start l) (show_end l)
             (\<lambda>k. room_update_rects (rect_y r + k * rect_h r)) (rooms l)\<rparr>)"

definition RoomList :: "rect \<Rightarrow> room_list" where
  "RoomList r =
     (let list_rect = r\<lparr>rect_y := rect_y r + ROOM_INFO_HEIGHT, rect_h := rect_h r - ROOM_INFO_HEIGHT\<rparr>;
          start_rect = list_rect\<lparr>rect_h := ROOM_INFO_HEIGHT\<rparr>;
          refresh_rect = \<lparr>rect_x = rect_x r + rect_w r, rect_y = rect_y r + ROOM_INFO_HEIGHT - 50,
            rect_w = 50, rect_h = 50\<rparr>
      in update_show_rooms (set_scroll_len (set_scroll_info 0
           (scroll_window.extend (ScrollWindowBase list_rect (rect_h start_rect) 0)
              (room_list.fields start_rect [] (Button refresh_rect True []))))))"

definition room_list_clear :: "room_list \<Rightarrow> room_list" where
  "room_list_clear l = (let l = l\<lparr>rooms := []\<rparr> in scroll_clear (room_items_len l) l)"

definition room_list_add :: "room_data \<Rightarrow> room_list \<Rightarrow> room_list" where
  "room_list_add d l =
     (let start = show_room_start_rect l;
          row = room_items_len l mod show_lines l;
          room_rect = start\<lparr>rect_y := rect_y start + row * rect_h start\<rparr>;
          l = l\<lparr>rooms := rooms l @ [RoomInfo room_rect d]\<rparr>;
          l = set_scroll_len (set_scroll_info (room_items_len l) l)
      in update_show_rooms l)"

fun rooms_handle_event :: "collide \<Rightarrow> event \<Rightarrow> room_info list \<Rightarrow> nat option \<times> room_info list" where
  "rooms_handle_event collide ev [] = (None, [])"
| "rooms_handle_event collide ev (r # rs) =
     (let (c, r) = room_info_handle_event collide ev r in
      if c then (Some 0, r # rs)
      else let (k, rs) = rooms_handle_event collide ev rs in (map_option Suc k, r # rs))"

text \<open>\<open>"refresh"\<close>, or the index of the room among those shown.\<close>

datatype room_event = Refresh | Join_room nat

definition room_list_handle_event :: "collide \<Rightarrow> event \<Rightarrow> room_list \<Rightarrow> room_event option \<times> room_list" where
  "room_list_handle_event collide ev l =
     (let l = update_show_rooms (scroll_handle_event collide ev l);
          (refresh, b) = button_handle_event collide ev (btn_refresh l);
          l = l\<lparr>btn_refresh := b\<rparr>
      in if refresh then (Some Refresh, l)
         else let a = nat (show_start l); n = nat (show_end l - show_start l);
                  (k, rs) = rooms_handle_event collide ev (take n (drop a (rooms l)))
           in (map_option Join_room k, l\<lparr>rooms := take a (rooms l) @ rs @ drop n (drop a (rooms l))\<rparr>))"

definition room_draw_item :: "int \<Rightarrow> int \<Rightarrow> room_list \<Rightarrow> room_list py" where
  "room_draw_item i draw_text_y l = py_bind (py_get (rooms l) i) (\<lambda>r.
     py_bind (py_set (rooms l) i (room_update_rects draw_text_y r)) (\<lambda>rs. Inr (l\<lparr>rooms := rs\<rparr>)))"

definition room_list_draw :: "room_list \<Rightarrow> room_list py" where
  "room_list_draw l =
     (let l = set_show_range (room_items_len l) l in
      py_bind (py_for (\<lambda>i l. room_draw_item i (rect_y (window_rect l) + (i - show_start l) * line_height l) l)
        [show_start l..show_end l - 1] l) (\<lambda>l. Inr (update_show_rooms l)))"

end
