(* ===== verification/Windows.thy ===== *)
theory Windows
  imports Textinput
begin

text \<open>
  The dialogs of the lobby: \<open>QuickStartWindow\<close> (\<^verbatim>\<open>client/tetris/ui/quick_start_window.py\<close>),
  \<open>FastMatchingWindow\<close> (fast_matching_window.py), \<open>CreateRoomWindow\<close> (create_room_window.py)
  and \<open>InputWindow\<close> (input_window.py). A dialog hands its requests to the network worker while it
  handles an event: they are a result, in order, and the scene that owns the dialog sends them.
\<close>

subsection \<open>Rows of toggle buttons and buttons\<close>

text \<open>
  \<open>for option in options: if option.handle_event(ev): ...; break\<close>: the label of the first button
  that answers. A label is the button's text or its index.
\<close>

fun options_handle_event :: "collide \<Rightarrow> event \<Rightarrow> ('l \<times> toggle_button) list \<Rightarrow> 'l option \<times> ('l \<times> toggle_button) list" where
  "options_handle_event collide ev [] = (None, [])"
| "options_handle_event collide ev ((t, b) # os) =
     (let (c, b) = toggle_handle_event collide ev b in
      if c then (Some t, (t, b) # os)
      else let (r, os) = options_handle_event collide ev os in (r, (t, b) # os))"

text \<open>One button of the row is shown pressed, the one with the given label.\<close>

definition press_only :: "'l option \<Rightarrow> ('l \<times> toggle_button) list \<Rightarrow> ('l \<times> toggle_button) list" where
  "press_only v = map (\<lambda>(t, b). (t, set_pressed (Some t = v) b))"

definition DIALOG_WIDTH :: int where "DIALOG_WIDTH = 500"
definition DIALOG_HEIGHT :: int where "DIALOG_HEIGHT = 500"
definition DIALOG_BUTTON_WIDTH :: int where "DIALOG_BUTTON_WIDTH = 120"
definition DIALOG_BUTTON_HEIGHT :: int where "DIALOG_BUTTON_HEIGHT = 60"

lemmas dialog_consts = DIALOG_WIDTH_def DIALOG_HEIGHT_def DIALOG_BUTTON_WIDTH_def DIALOG_BUTTON_HEIGHT_def

definition dialog_popup :: "pystr \<Rightarrow> pystr list \<Rightarrow> popup py" where
  "dialog_popup message buttons_text = PopupBox screen_size message buttons_text (Some DIALOG_WIDTH)
     (Some DIALOG_HEIGHT) (Some DIALOG_BUTTON_WIDTH) (Some DIALOG_BUTTON_HEIGHT)"

text \<open>A row of \<open>n\<close> buttons of width 120 with equal gaps in a window, at height \<open>y\<close>.\<close>

definition row_rect :: "rect \<Rightarrow> nat \<Rightarrow> int \<Rightarrow> nat \<Rightarrow> rect" where
  "row_rect r n y k =
     (let padding_w = (rect_w r - DIALOG_BUTTON_WIDTH * int n) div (int n + 1)
      in \<lparr>rect_x = rect_x r + padding_w + int k * (DIALOG_BUTTON_WIDTH + padding_w), rect_y = y,
          rect_w = DIALOG_BUTTON_WIDTH, rect_h = DIALOG_BUTTON_HEIGHT\<rparr>)"

definition toggle_row :: "rect \<Rightarrow> int \<Rightarrow> pystr list \<Rightarrow> (pystr \<times> toggle_button) list" where
  "toggle_row r y ts = map (\<lambda>k. (ts ! k, ToggleButton (row_rect r (length ts) y k))) [0..<length ts]"

definition button_row :: "rect \<Rightarrow> int \<Rightarrow> pystr list \<Rightarrow> button list" where
  "button_row r y ts = map (\<lambda>k. Button (row_rect r (length ts) y k) True (ts ! k)) [0..<length ts]"

subsection \<open>Quick start\<close>

definition QUICK_START_MESSAGE :: pystr where "QUICK_START_MESSAGE = [0xBAA8, 0xB4DC, 0xB97C, 32, 0xC120, 0xD0DD, 0xD558, 0xC138, 0xC694]"
definition QUICK_START_SINGLE_TEXT :: pystr where "QUICK_START_SINGLE_TEXT = [0xC2F1, 0xAE00]"
definition QUICK_START_MULTI_TEXT :: pystr where "QUICK_START_MULTI_TEXT = [0xBA40, 0xD2F0]"
definition CANCEL_TEXT :: pystr where "CANCEL_TEXT = [0xCDE8, 0xC18C]"

definition QuickStartWindow :: "popup py" where
  "QuickStartWindow = dialog_popup QUICK_START_MESSAGE
     [QUICK_START_SINGLE_TEXT, QUICK_START_MULTI_TEXT, CANCEL_TEXT]"

subsection \<open>Fast matching\<close>

definition ANY_TEXT :: pystr where "ANY_TEXT = [0xC804, 0xCCB4]"
definition TWO_TEXT :: pystr where "TWO_TEXT = [50, 0xC778]"
definition FIVE_TEXT :: pystr where "FIVE_TEXT = [53, 0xC778]"
definition FIND_TEXT :: pystr where "FIND_TEXT = [0xCC3E, 0xAE30]"

record fast_matching_window =
  fm_popup :: popup
  fm_options :: "(pystr \<times> toggle_button) list"
  option_val :: "pystr option"

definition FastMatchingWindow :: "fast_matching_window py" where
  "FastMatchingWindow = py_bind (dialog_popup [] [FIND_TEXT, CANCEL_TEXT]) (\<lambda>p.
     let r = pop_message_window p; y = rect_y r + (rect_h r - DIALOG_BUTTON_HEIGHT) div 2
     in Inr \<lparr>fm_popup = p, fm_options = toggle_row r y [ANY_TEXT, TWO_TEXT, FIVE_TEXT], option_val = None\<rparr>)"

definition send_fast_matching :: "fast_matching_window \<Rightarrow> request list" where
  "send_fast_matching w =
     (if option_val w = Some TWO_TEXT then [Fast_match 2]
      else if option_val w = Some FIVE_TEXT then [Fast_match 5]
      else if option_val w = Some ANY_TEXT then [Fast_match 0]
      else [])"

definition fast_handle_event :: "collide \<Rightarrow> event \<Rightarrow> fast_matching_window
    \<Rightarrow> pystr option \<times> request list \<times> fast_matching_window" where
  "fast_handle_event collide ev w =
     (let (chosen, os) = options_handle_event collide ev (fm_options w);
          w = (if chosen = None then w\<lparr>fm_options := os\<rparr>
               else w\<lparr>fm_options := press_only chosen os, option_val := chosen\<rparr>);
          (res, p) = popup_handle_event collide ev (fm_popup w);
          w = w\<lparr>fm_popup := p\<rparr>
      in (res, if res = Some FIND_TEXT \<and> option_val w \<noteq> None then send_fast_matching w else [], w))"

subsection \<open>Creating a room\<close>

definition ROOM_TITLE_HOLDER :: pystr where "ROOM_TITLE_HOLDER = [0xBC29, 32, 0xC81C, 0xBAA9, 32, 40, 52, 126, 49, 54, 0xC790, 41]"
definition ROOM_PASSWORD_HOLDER :: pystr where "ROOM_PASSWORD_HOLDER = [0xBE44, 0xBC00, 0xBC88, 0xD638, 32, 40, 52, 126, 49, 54, 0xC790, 41]"
definition OPEN_TEXT :: pystr where "OPEN_TEXT = [0xACF5, 0xAC1C]"
definition LOCKED_TEXT :: pystr where "LOCKED_TEXT = [0xBE44, 0xACF5, 0xAC1C]"
definition MAKE_TEXT :: pystr where "MAKE_TEXT = [0xB9CC, 0xB4E4, 0xAE30]"
definition ROOM_NAME_TOO_SHORT :: int where "ROOM_NAME_TOO_SHORT = 40"
definition ROOM_PASSWORD_TOO_SHORT :: int where "ROOM_PASSWORD_TOO_SHORT = 41"

record create_room_window =
  cw_rect :: rect
  cw_title :: input_box
  option_player :: "(pystr \<times> toggle_button) list"
  option_open :: "(pystr \<times> toggle_button) list"
  cw_password :: input_box
  option_make :: "button list"
  cw_error_popup :: "popup option"
  title_val :: "pystr option"
  player_val :: "int option"
  is_open :: "bool option"
  password_val :: "pystr option"

text \<open>\<open>int(s)\<close> of a string of ASCII digits, all that is left of the two texts without the counter.\<close>

definition digits_int :: "pystr \<Rightarrow> int py" where
  "digits_int s =
     (if s \<noteq> [] \<and> list_all (\<lambda>c. 48 \<le> c \<and> c < 58) s then Inr (foldl (\<lambda>a c. 10 * a + (int c - 48)) 0 s)
      else Inl ValueError)"

definition set_player_value :: "pystr \<Rightarrow> create_room_window \<Rightarrow> create_room_window py" where
  "set_player_value val w = py_bind (digits_int (filter (\<lambda>c. c \<noteq> 0xC778) val)) (\<lambda>n.
     Inr (w\<lparr>option_player := press_only (Some val) (option_player w), player_val := Some n\<rparr>))"

definition set_open_value :: "pystr \<Rightarrow> create_room_window \<Rightarrow> create_room_window" where
  "set_open_value val w =
     (let w = w\<lparr>option_open := press_only (Some val) (option_open w)\<rparr> in
      if val = OPEN_TEXT then w\<lparr>is_open := Some True, cw_password := (cw_password w)\<lparr>ib_active := False\<rparr>\<rparr>
      else if val = LOCKED_TEXT
      then w\<lparr>is_open := Some False, cw_password := (cw_password w)\<lparr>ib_active := True\<rparr>\<rparr>
      else w)"

definition is_min_length :: "pystr \<Rightarrow> bool py" where
  "is_min_length value = py_bind (str_encode value) (\<lambda>bs. Inr (4 \<le> length bs))"

definition CreateRoomWindow :: "create_room_window py" where
  "CreateRoomWindow =
     (let (sw, sh) = screen_size;
          r = \<lparr>rect_x = (sw div 2) - (DIALOG_WIDTH div 2), rect_y = (sh div 2) - (DIALOG_HEIGHT div 2),
               rect_w = DIALOG_WIDTH, rect_h = DIALOG_HEIGHT\<rparr>;
          INPUT_HEIGHT = 50; GAP = 20;
          total_h = INPUT_HEIGHT * 2 + DIALOG_BUTTON_HEIGHT * 3 + GAP * 4;
          y0 = rect_y r + (rect_h r - total_h) div 2;
          y1 = y0 + INPUT_HEIGHT + GAP;
          y2 = y1 + DIALOG_BUTTON_HEIGHT + GAP;
          y3 = y2 + DIALOG_BUTTON_HEIGHT + GAP;
          y4 = y3 + INPUT_HEIGHT + GAP;
          draw_w = rect_w r - 80;
          title_rect = \<lparr>rect_x = rect_x r + (rect_w r - draw_w) div 2, rect_y = y0, rect_w = draw_w, rect_h = INPUT_HEIGHT\<rparr>
      in py_bind (set_player_value TWO_TEXT \<lparr>cw_rect = r,
           cw_title = InputBox title_rect ROOM_TITLE_HOLDER (Some (int MAX_INPUT)) False True,
           option_player = toggle_row r y1 [TWO_TEXT, FIVE_TEXT],
           option_open = toggle_row r y2 [OPEN_TEXT, LOCKED_TEXT],
           cw_password = InputBox (title_rect\<lparr>rect_y := y3\<rparr>) ROOM_PASSWORD_HOLDER (Some (int MAX_INPUT)) False True,
           option_make = button_row r y4 [MAKE_TEXT, CANCEL_TEXT], cw_error_popup = None,
           title_val = None, player_val = None, is_open = None, password_val = None\<rparr>) (\<lambda>w.
         Inr (set_open_value OPEN_TEXT w)))"

definition create_update :: "rat \<Rightarrow> create_room_window \<Rightarrow> create_room_window" where
  "create_update dt_ms w =
     w\<lparr>cw_title := input_update dt_ms (cw_title w), cw_password := input_update dt_ms (cw_password w)\<rparr>"

definition create_error :: "int \<Rightarrow> create_room_window \<Rightarrow> (pystr option \<times> request list \<times> create_room_window) py" where
  "create_error code w = py_bind (dict_get ERROR_MESSAGES code) (\<lambda>message.
     py_bind (PopupBox screen_size message [OK_TEXT] None None None None) (\<lambda>p.
       Inr (None, [], w\<lparr>cw_error_popup := Some p\<rparr>)))"

text \<open>What the button \<open>MAKE_TEXT\<close> does.\<close>

definition make_room :: "create_room_window \<Rightarrow> (pystr option \<times> request list \<times> create_room_window) py" where
  "make_room w =
     py_bind (get_total_text (cw_title w)) (\<lambda>title.
     py_bind (get_total_text (cw_password w)) (\<lambda>password.
     py_bind (is_min_length title) (\<lambda>long_title.
       if \<not> long_title then create_error ROOM_NAME_TOO_SHORT w
       else py_bind (if is_open w = Some False then is_min_length password else Inr True) (\<lambda>long_password.
         if \<not> long_password then create_error ROOM_PASSWORD_TOO_SHORT w
         else py_bind (extract_text (cw_title w)) (\<lambda>(title, t).
           py_bind (extract_text (cw_password w)) (\<lambda>(password, p).
             let n = (if player_val w = Some 2 \<or> player_val w = Some 5 then the (player_val w) else 2);
                 w = w\<lparr>cw_title := t, cw_password := p, title_val := Some title, password_val := Some password\<rparr>
             in Inr (Some MAKE_TEXT, [Create title n (is_open w = Some True) (Some password)], w)))))))"

definition create_handle_event :: "(nat \<Rightarrow> bool) \<Rightarrow> collide \<Rightarrow> event \<Rightarrow> create_room_window
    \<Rightarrow> (pystr option \<times> request list \<times> create_room_window) py" where
  "create_handle_event isprintable collide ev w = (case cw_error_popup w of
     Some p \<Rightarrow> let (res, p) = popup_handle_event collide ev p
       in Inr (None, [], w\<lparr>cw_error_popup := (if res \<noteq> None \<and> res \<noteq> Some [] then None else Some p)\<rparr>)
   | None \<Rightarrow>
     if ev = KEYDOWN K_RETURN then Inr (None, [], w)
     else py_bind (input_handle_event isprintable collide ev (cw_title w)) (\<lambda>(_, b).
       let w = w\<lparr>cw_title := b\<rparr>;
           (chosen, os) = options_handle_event collide ev (option_player w);
           w = w\<lparr>option_player := os\<rparr> in
       py_bind (case chosen of None \<Rightarrow> Inr w | Some t \<Rightarrow> set_player_value t w) (\<lambda>w.
       let (chosen, os) = options_handle_event collide ev (option_open w);
           w = w\<lparr>option_open := os\<rparr>;
           w = (case chosen of None \<Rightarrow> w | Some t \<Rightarrow> set_open_value t w) in
       py_bind (if is_open w = Some False
           then py_bind (input_handle_event isprintable collide ev (cw_password w)) (\<lambda>(_, b).
             Inr (w\<lparr>cw_password := b\<rparr>))
           else Inr w) (\<lambda>w.
       let (res, bs) = buttons_handle_event collide ev (option_make w);
           w = w\<lparr>option_make := bs\<rparr>
       in if res = Some MAKE_TEXT then make_room w else Inr (res, [], w)))))"

subsection \<open>Asking for a password\<close>

definition PASSWORD_HOLDER :: pystr where "PASSWORD_HOLDER = [0xBE44, 0xBC00, 0xBC88, 0xD638, 32, 0xC785, 0xB825]"

record input_window =
  iw_window :: popup
  iw_input :: input_box

definition InputWindow :: "pystr list \<Rightarrow> input_window py" where
  "InputWindow buttons_text = py_bind (dialog_popup [] buttons_text) (\<lambda>p.
     let (sw, sh) = screen_size; input_w = rect_w (pop_window p) div 2; input_h = 50
     in Inr \<lparr>iw_window = p, iw_input = InputBox
          \<lparr>rect_x = sw div 2 - input_w div 2, rect_y = sh div 2 - input_h div 2, rect_w = input_w, rect_h = input_h\<rparr>
          PASSWORD_HOLDER (Some (int MAX_ROOM_PASSWORD)) False False\<rparr>)"

definition inputw_handle_event :: "(nat \<Rightarrow> bool) \<Rightarrow> collide \<Rightarrow> event \<Rightarrow> input_window
    \<Rightarrow> (pystr option \<times> input_window) py" where
  "inputw_handle_event isprintable collide ev w =
     py_bind (input_handle_event isprintable collide ev (iw_input w)) (\<lambda>(_, b).
       let (res, p) = popup_handle_event collide ev (iw_window w)
       in Inr (res, w\<lparr>iw_input := b, iw_window := p\<rparr>))"

definition inputw_update :: "rat \<Rightarrow> input_window \<Rightarrow> input_window" where
  "inputw_update dt_ms w = w\<lparr>iw_input := input_update dt_ms (iw_input w)\<rparr>"

end
