(* ===== verification/Settings.thy ===== *)
theory Settings
  imports Lists Windows
begin

text \<open>
  Sound settings: \<open>Sounds\<close> (\<^verbatim>\<open>client/tetris/resources/sounds.py\<close>) with its settings file,
  the slider \<open>AdjustSound\<close> (ui/adjust_sound.py), \<open>SettingSound\<close> (ui/setting_sound.py) and
  \<open>SettingWindow\<close> (ui/setting_window.py). Playing sounds is not modelled; the volumes handed to
  the mixer are.
\<close>

subsection \<open>Text of the settings file\<close>

text \<open>\<open>str.isspace\<close> of a character, and the characters at which \<open>splitlines\<close> cuts.\<close>

definition py_isspace :: "nat \<Rightarrow> bool" where
  "py_isspace c \<longleftrightarrow> 9 \<le> c \<and> c \<le> 13 \<or> 28 \<le> c \<and> c \<le> 32 \<or> c = 0x85 \<or> c = 0xA0 \<or> c = 0x1680 \<or>
     0x2000 \<le> c \<and> c \<le> 0x200A \<or> c = 0x2028 \<or> c = 0x2029 \<or> c = 0x202F \<or> c = 0x205F \<or> c = 0x3000"

definition line_break :: "nat \<Rightarrow> bool" where
  "line_break c \<longleftrightarrow> 10 \<le> c \<and> c \<le> 13 \<or> 28 \<le> c \<and> c \<le> 30 \<or> c = 0x85 \<or> c = 0x2028 \<or> c = 0x2029"

definition py_strip :: "pystr \<Rightarrow> pystr" where
  "py_strip s = rev (dropWhile py_isspace (rev (dropWhile py_isspace s)))"

fun splitlines :: "pystr \<Rightarrow> pystr \<Rightarrow> pystr list" where
  "splitlines acc [] = (if acc = [] then [] else [rev acc])"
| "splitlines acc [c] = (if line_break c then [rev acc] else [rev (c # acc)])"
| "splitlines acc (c # d # cs) =
     (if c = 13 \<and> d = 10 then rev acc # splitlines [] cs
      else if line_break c then rev acc # splitlines [] (d # cs)
      else splitlines (c # acc) (d # cs))"

text \<open>
  \<open>int(val)\<close> of a stripped string: a sign, then digits with single underscores between them, at
  most 4300 digits. \<open>digit\<close> is the decimal value of a character, Unicode's table.
\<close>

fun int_body :: "(nat \<Rightarrow> int option) \<Rightarrow> pystr \<Rightarrow> bool \<Rightarrow> int \<Rightarrow> int option" where
  "int_body digit [] ok acc = (if ok then Some acc else None)"
| "int_body digit (c # cs) ok acc =
     (if c = 95 then (if ok then int_body digit cs False acc else None)
      else case digit c of None \<Rightarrow> None | Some k \<Rightarrow> int_body digit cs True (10 * acc + k))"

definition parse_int :: "(nat \<Rightarrow> int option) \<Rightarrow> pystr \<Rightarrow> int option" where
  "parse_int digit s =
     (let (neg, body) = (case s of [] \<Rightarrow> (False, [])
        | c # cs \<Rightarrow> if c = 45 then (True, cs) else if c = 43 then (False, cs) else (False, c # cs))
      in if 4300 < length (filter (\<lambda>c. c \<noteq> 95) body) then None
         else map_option (\<lambda>n. if neg then - n else n) (int_body digit body False 0))"

subsection \<open>Sounds\<close>

definition MASTER :: pystr where "MASTER = [0xB9C8, 0xC2A4, 0xD130]"
definition BGM :: pystr where "BGM = [0xBC30, 0xACBD, 0xC74C]"
definition EFFECT :: pystr where "EFFECT = [0xD6A8, 0xACFC, 0xC74C]"

lemmas volume_keys = MASTER_def BGM_def EFFECT_def

text \<open>\<open>d[k] = v\<close> of a dictionary, which keeps its insertion order.\<close>

fun dict_set :: "('k \<times> 'v) list \<Rightarrow> 'k \<Rightarrow> 'v \<Rightarrow> ('k \<times> 'v) list" where
  "dict_set [] k v = [(k, v)]"
| "dict_set ((k', v') # d) k v = (if k' = k then (k, v) # d else (k', v') # dict_set d k v)"

record sounds =
  volumes :: "(pystr \<times> int) list"
  bgm_volume :: rat
  effect_volume :: rat
  settings_file :: "pystr option"

text \<open>
  One line of the file. \<open>key.lower()\<close> is one of the three names only if \<open>key\<close> is: Hangul has
  no case, and no other character has a Hangul syllable as its lower case.
\<close>

definition load_line :: "(nat \<Rightarrow> int option) \<Rightarrow> pystr \<Rightarrow> (pystr \<times> int) list \<Rightarrow> (pystr \<times> int) list" where
  "load_line digit line vols =
     (let s = py_strip line in
      if s = [] \<or> hd s = 35 then vols
      else if count_list s 61 \<noteq> 1 then vols
      else let key = py_strip (takeWhile (\<lambda>c. c \<noteq> 61) s); val = py_strip (tl (dropWhile (\<lambda>c. c \<noteq> 61) s)) in
        if key \<notin> {MASTER, BGM, EFFECT} then vols
        else case parse_int digit val of
          None \<Rightarrow> vols
        | Some volume \<Rightarrow> dict_set vols key (max 0 (min 100 volume)))"

definition load_sound_settings :: "(nat \<Rightarrow> int option) \<Rightarrow> pystr option \<Rightarrow> (pystr \<times> int) list \<Rightarrow> (pystr \<times> int) list" where
  "load_sound_settings digit file vols = (case file of
     None \<Rightarrow> vols | Some txt \<Rightarrow> fold (load_line digit) (splitlines [] txt) vols)"

definition setting_line :: "pystr \<Rightarrow> int \<Rightarrow> pystr" where
  "setting_line key v = key @ [61] @ int_str (max 0 (min 100 v)) @ [10]"

definition save_sound_settings :: "sounds \<Rightarrow> sounds py" where
  "save_sound_settings s =
     py_bind (dict_get (volumes s) MASTER) (\<lambda>m. py_bind (dict_get (volumes s) BGM) (\<lambda>b.
     py_bind (dict_get (volumes s) EFFECT) (\<lambda>e.
       Inr (s\<lparr>settings_file := Some (setting_line MASTER m @ setting_line BGM b @ setting_line EFFECT e)\<rparr>))))"

definition set_volumes :: "(pystr \<times> int) list \<Rightarrow> sounds \<Rightarrow> (bool \<times> sounds) py" where
  "set_volumes new_volumes s =
     (if length new_volumes \<noteq> length (volumes s) then Inr (False, s)
      else if \<exists>kv \<in> set new_volumes. 100 < snd kv \<or> snd kv < 0 then Inr (False, s)
      else let s = s\<lparr>volumes := new_volumes\<rparr> in
        py_bind (dict_get new_volumes MASTER) (\<lambda>m. py_bind (dict_get new_volumes BGM) (\<lambda>b.
        py_bind (dict_get new_volumes EFFECT) (\<lambda>e.
          let master = of_int m / 100;
              s = s\<lparr>bgm_volume := of_int b / 100 * master, effect_volume := of_int e / 100 * master\<rparr>
          in py_bind (save_sound_settings s) (\<lambda>s. Inr (True, s))))))"

definition Sounds :: "(nat \<Rightarrow> int option) \<Rightarrow> pystr option \<Rightarrow> sounds py" where
  "Sounds digit file =
     (let vols = load_sound_settings digit file [(MASTER, 100), (BGM, 80), (EFFECT, 80)]
      in py_bind (set_volumes vols \<lparr>volumes = vols, bgm_volume = 1, effect_volume = 1, settings_file = file\<rparr>)
           (\<lambda>(_, s). Inr s))"

subsection \<open>The slider\<close>

text \<open>
  What the slider computes with floats: \<open>percent a b\<close> is \<open>int(a / float(b) * 100)\<close> and
  \<open>part_of w v\<close> is \<open>int((w / 100.0) * v)\<close>. Their rounding is a parameter; the lemmas only rely on
  the results staying between the bounds that the exact values have.
\<close>

record floats =
  percent :: "int \<Rightarrow> int \<Rightarrow> int"
  part_of :: "int \<Rightarrow> int \<Rightarrow> int"

definition bounded_floats :: "floats \<Rightarrow> bool" where
  "bounded_floats F \<longleftrightarrow>
     (\<forall>a b. 0 \<le> a \<and> a \<le> b \<and> 0 < b \<longrightarrow> 0 \<le> percent F a b \<and> percent F a b \<le> 100) \<and>
     (\<forall>w v. 0 \<le> w \<and> 0 \<le> v \<and> v \<le> 100 \<longrightarrow> 0 \<le> part_of F w v \<and> part_of F w v \<le> w)"

record adjust_sound =
  volume_type :: pystr
  is_dragging :: bool
  adjusted_volume :: int
  volume_value :: pystr
  valid_box_rect :: rect
  volume_bar_rect :: rect
  adjust_bar_rect :: rect
  volume_bar1_rect :: rect
  volume_bar2_rect :: rect

definition centerx :: "rect \<Rightarrow> int" where "centerx r = rect_x r + rect_w r div 2"
definition centery :: "rect \<Rightarrow> int" where "centery r = rect_y r + rect_h r div 2"

definition set_volume_bar_layout :: "adjust_sound \<Rightarrow> adjust_sound" where
  "set_volume_bar_layout a =
     (let bar = volume_bar_rect a; c = centerx (adjust_bar_rect a); w1 = c - rect_x bar
      in a\<lparr>volume_bar1_rect := bar\<lparr>rect_w := w1\<rparr>, volume_bar2_rect := bar\<lparr>rect_x := c, rect_w := rect_w bar - w1\<rparr>,
           volume_value := int_str (adjusted_volume a)\<rparr>)"

definition AdjustSound :: "floats \<Rightarrow> rect \<Rightarrow> sounds \<Rightarrow> pystr \<Rightarrow> adjust_sound py" where
  "AdjustSound F r snds kind = py_bind (dict_get (volumes snds) kind) (\<lambda>v.
     let name_w = scaled (rect_w r) (2 / 10);
         frame = r\<lparr>rect_x := rect_x r + name_w + name_w, rect_w := rect_w r - name_w - name_w\<rparr>;
         box_w = scaled (rect_w frame) (9 / 10);
         box_h = scaled (rect_h r) (4 / 10);
         padding = (rect_w frame - box_w) div 2;
         box = \<lparr>rect_x = rect_x frame + padding, rect_y = rect_y frame + (rect_h frame - box_h) div 2,
                rect_w = box_w, rect_h = box_h\<rparr>;
         bar_h = scaled (rect_h r) (1 / 10);
         bar = \<lparr>rect_x = rect_x box + padding, rect_y = centery box - bar_h div 2,
                rect_w = box_w - padding * 2, rect_h = bar_h\<rparr>;
         adj = box\<lparr>rect_x := rect_x box + part_of F (rect_w bar) v, rect_w := padding * 2\<rparr>
     in Inr (set_volume_bar_layout \<lparr>volume_type = kind, is_dragging = False, adjusted_volume = v,
          volume_value = int_str v, valid_box_rect = box, volume_bar_rect = bar, adjust_bar_rect = adj,
          volume_bar1_rect = bar, volume_bar2_rect = bar\<rparr>))"

text \<open>Where \<open>move_adjust_bar\<close> puts the bar for a mouse position; elsewhere it stays.\<close>

definition bar_x_for :: "int \<Rightarrow> adjust_sound \<Rightarrow> int" where
  "bar_x_for mouse_x a =
     (let min_x = rect_x (valid_box_rect a); max_x = min_x + rect_w (valid_box_rect a);
          bar_min = rect_x (volume_bar_rect a); bar_max = bar_min + rect_w (volume_bar_rect a);
          w = rect_w (adjust_bar_rect a)
      in if min_x \<le> mouse_x \<and> mouse_x \<le> bar_min then min_x
         else if min_x < mouse_x \<and> mouse_x < bar_max then mouse_x - w div 2
         else if bar_max \<le> mouse_x \<and> mouse_x \<le> max_x then max_x - w
         else rect_x (adjust_bar_rect a))"

definition move_adjust_bar :: "floats \<Rightarrow> int \<Rightarrow> adjust_sound \<Rightarrow> adjust_sound py" where
  "move_adjust_bar F mouse_x a =
     (let a = a\<lparr>adjust_bar_rect := (adjust_bar_rect a)\<lparr>rect_x := bar_x_for mouse_x a\<rparr>\<rparr>; bar = volume_bar_rect a
      in if rect_w bar = 0 then Inl ZeroDivisionError
         else Inr (set_volume_bar_layout
           (a\<lparr>adjusted_volume := percent F (centerx (adjust_bar_rect a) - rect_x bar) (rect_w bar)\<rparr>)))"

fun adjust_handle_event :: "floats \<Rightarrow> collide \<Rightarrow> event \<Rightarrow> adjust_sound \<Rightarrow> adjust_sound py" where
  "adjust_handle_event F collide (MOUSEBUTTONDOWN n p) a =
     (if n = 1 \<and> collide (valid_box_rect a) p then move_adjust_bar F (fst p) (a\<lparr>is_dragging := True\<rparr>) else Inr a)"
| "adjust_handle_event F collide (MOUSEMOTION p) a = (if is_dragging a then move_adjust_bar F (fst p) a else Inr a)"
| "adjust_handle_event F collide (MOUSEBUTTONUP n p) a = Inr (if n = 1 then a\<lparr>is_dragging := False\<rparr> else a)"
| "adjust_handle_event F collide _ a = Inr a"

subsection \<open>The page of sliders and the window\<close>

record setting_sound =
  sound_settings :: "adjust_sound list"
  adjusted_sound_volumes :: "(pystr \<times> int) list"

text \<open>A loop that builds a list and may raise.\<close>

definition py_collect :: "('a \<Rightarrow> 'b py) \<Rightarrow> 'a list \<Rightarrow> 'b list py" where
  "py_collect f xs = py_for (\<lambda>x ys. py_bind (f x) (\<lambda>y. Inr (ys @ [y]))) xs []"

definition SettingSound :: "floats \<Rightarrow> rect \<Rightarrow> sounds \<Rightarrow> setting_sound py" where
  "SettingSound F r snds =
     (let kinds = map fst (volumes snds); n = int (length kinds) in
      if n = 0 then Inr \<lparr>sound_settings = [], adjusted_sound_volumes = volumes snds\<rparr>
      else let h = rect_h r div (n * 2 - 1);
               total_h = h * n + h * (n - 1);
               y = rect_y r + (rect_h r - total_h) div 2
        in py_bind (py_collect (\<lambda>k. AdjustSound F (r\<lparr>rect_y := y + int k * (h * 2), rect_h := h\<rparr>) snds (kinds ! k))
             [0..<length kinds]) (\<lambda>ss. Inr \<lparr>sound_settings = ss, adjusted_sound_volumes = volumes snds\<rparr>))"

definition modify_settings :: "setting_sound \<Rightarrow> setting_sound" where
  "modify_settings ss = ss\<lparr>adjusted_sound_volumes :=
     fold (\<lambda>a d. dict_set d (volume_type a) (adjusted_volume a)) (sound_settings ss) (adjusted_sound_volumes ss)\<rparr>"

definition apply_settings :: "setting_sound \<Rightarrow> sounds \<Rightarrow> (bool \<times> sounds) py" where
  "apply_settings ss = set_volumes (adjusted_sound_volumes ss)"

definition sound_handle_event :: "floats \<Rightarrow> collide \<Rightarrow> event \<Rightarrow> setting_sound \<Rightarrow> setting_sound py" where
  "sound_handle_event F collide ev ss =
     py_bind (py_collect (adjust_handle_event F collide ev) (sound_settings ss)) (\<lambda>as.
       Inr (modify_settings (ss\<lparr>sound_settings := as\<rparr>)))"

definition SOUND_MENU :: pystr where "SOUND_MENU = [0xC18C, 0xB9AC]"
definition APPLY_TEXT :: pystr where "APPLY_TEXT = [0xC801, 0xC6A9]"
definition SUCCESS_TEXT :: pystr where "SUCCESS_TEXT = [0xC131, 0xACF5]"

record setting_window =
  sw_rect :: rect
  setting_types :: "(pystr \<times> setting_sound) list"
  activated_setting :: pystr
  setting_top_menus :: "(pystr \<times> toggle_button) list"
  buttom_menus :: "button list"

definition SettingWindow :: "floats \<Rightarrow> sounds \<Rightarrow> setting_window py" where
  "SettingWindow F snds =
     (let (sw, sh) = screen_size;
          r = \<lparr>rect_x = (sw div 2) - (DIALOG_WIDTH div 2), rect_y = (sh div 2) - (DIALOG_HEIGHT div 2),
               rect_w = DIALOG_WIDTH, rect_h = DIALOG_HEIGHT\<rparr>;
          TOP_PADDING = 35; BOTTOM_PADDING = 35; SETTING_GAP = 25;
          top_menu_y = rect_y r + TOP_PADDING;
          buttom_menu_y = rect_y r + rect_h r - BOTTOM_PADDING - DIALOG_BUTTON_HEIGHT;
          setting_y = top_menu_y + DIALOG_BUTTON_HEIGHT + SETTING_GAP;
          full_h = buttom_menu_y - SETTING_GAP - setting_y;
          setting_w = scaled (rect_w r) (8 / 10);
          setting_h = scaled full_h (8 / 10);
          setting_rect = \<lparr>rect_x = rect_x r + (rect_w r - setting_w) div 2,
            rect_y = setting_y + (full_h - setting_h) div 2, rect_w = setting_w, rect_h = setting_h\<rparr>
      in py_bind (SettingSound F setting_rect snds) (\<lambda>ss.
           Inr \<lparr>sw_rect = r, setting_types = [(SOUND_MENU, ss)], activated_setting = SOUND_MENU,
                setting_top_menus = toggle_row r top_menu_y [SOUND_MENU],
                buttom_menus = button_row r buttom_menu_y [APPLY_TEXT, CANCEL_TEXT]\<rparr>))"

text \<open>The two loops of \<open>handle_event\<close> have no \<open>break\<close>: the last button that answers decides.\<close>

fun select_menu :: "collide \<Rightarrow> event \<Rightarrow> (pystr \<times> toggle_button) list \<Rightarrow> pystr \<Rightarrow> pystr \<times> (pystr \<times> toggle_button) list" where
  "select_menu collide ev [] cur = (cur, [])"
| "select_menu collide ev ((t, b) # os) cur =
     (let (c, b) = toggle_handle_event collide ev b;
          (cur, os) = select_menu collide ev os (if c then t else cur)
      in (cur, (t, b) # os))"

fun setting_buttons :: "collide \<Rightarrow> event \<Rightarrow> setting_sound \<Rightarrow> button list \<Rightarrow> pystr option \<times> sounds
    \<Rightarrow> ((pystr option \<times> sounds) \<times> button list) py" where
  "setting_buttons collide ev ss [] r = Inr (r, [])"
| "setting_buttons collide ev ss (b # bs) (res, snds) =
     (let (c, b) = button_handle_event collide ev b in
      py_bind (if \<not> c then Inr (res, snds)
        else if btn_text b = APPLY_TEXT then
          py_bind (apply_settings ss snds) (\<lambda>(ok, snds). Inr (if ok then Some SUCCESS_TEXT else None, snds))
        else if btn_text b = CANCEL_TEXT then Inr (Some CANCEL_TEXT, snds)
        else Inr (res, snds)) (\<lambda>r.
      py_bind (setting_buttons collide ev ss bs r) (\<lambda>(r, bs). Inr (r, b # bs))))"

definition setting_handle_event :: "floats \<Rightarrow> collide \<Rightarrow> event \<Rightarrow> setting_window \<times> sounds
    \<Rightarrow> (pystr option \<times> setting_window \<times> sounds) py" where
  "setting_handle_event F collide ev = (\<lambda>(w, snds).
     let (cur, os) = select_menu collide ev (setting_top_menus w) (activated_setting w);
         w = w\<lparr>setting_top_menus := os, activated_setting := cur\<rparr> in
     py_bind (dict_get (setting_types w) cur) (\<lambda>ss.
     py_bind (sound_handle_event F collide ev ss) (\<lambda>ss.
     let w = w\<lparr>setting_types := dict_set (setting_types w) cur ss\<rparr> in
     py_bind (setting_buttons collide ev ss (buttom_menus w) (None, snds)) (\<lambda>((res, snds), bs).
       Inr (res, w\<lparr>buttom_menus := bs\<rparr>, snds)))))"

end
