(* ===== verification/Resources.thy ===== *)
theory Resources
  imports Settings
begin

text \<open>
  The resources of the client: keys (\<^verbatim>\<open>client/tetris/resources/define.py\<close>), file names
  (paths.py), the images loaded at start (images.py), the font cache (fonts.py), the sounds' table
  (sounds.py), and the block textures of a session (\<^verbatim>\<open>net/session.py\<close>). A loaded image is its
  file and its size, a font its size; that the files exist is not part of the model.
\<close>

subsection \<open>Keys\<close>

definition DEFAULT_RED :: int where "DEFAULT_RED = 1"
definition DEFAULT_ORANGE :: int where "DEFAULT_ORANGE = 2"
definition DEFAULT_YELLOW :: int where "DEFAULT_YELLOW = 3"
definition DEFAULT_GREEN :: int where "DEFAULT_GREEN = 4"
definition DEFAULT_BLUE :: int where "DEFAULT_BLUE = 5"
definition DEFAULT_INDIGO :: int where "DEFAULT_INDIGO = 6"
definition DEFAULT_PURPLE :: int where "DEFAULT_PURPLE = 7"
definition DEFAULT_GRAY :: int where "DEFAULT_GRAY = 15"
definition CANDY_RED :: int where "CANDY_RED = 8"
definition CANDY_ORANGE :: int where "CANDY_ORANGE = 9"
definition CANDY_YELLOW :: int where "CANDY_YELLOW = 10"
definition CANDY_GREEN :: int where "CANDY_GREEN = 11"
definition CANDY_BLUE :: int where "CANDY_BLUE = 12"
definition CANDY_INDIGO :: int where "CANDY_INDIGO = 13"
definition CANDY_PURPLE :: int where "CANDY_PURPLE = 14"
definition UI_BUTTON_LOGIN_IDLE :: int where "UI_BUTTON_LOGIN_IDLE = 1000"
definition UI_BUTTON_LOGIN_HOVER :: int where "UI_BUTTON_LOGIN_HOVER = 1001"
definition UI_BUTTON_LOGIN_PRESS :: int where "UI_BUTTON_LOGIN_PRESS = 1002"
definition UI_SHUTTER :: int where "UI_SHUTTER = 1003"
definition UI_LOGIN_BUTTON :: int where "UI_LOGIN_BUTTON = 1004"
definition UI_LOGIN_LABEL_FRAME :: int where "UI_LOGIN_LABEL_FRAME = 1005"
definition UI_LOGO :: int where "UI_LOGO = 1006"
definition UI_HOST :: int where "UI_HOST = 1007"
definition UI_MAIN_BACKGROUND :: int where "UI_MAIN_BACKGROUND = 1008"
definition UI_BUTTON_BLUE :: int where "UI_BUTTON_BLUE = 1009"
definition UI_BUTTON_GREEN :: int where "UI_BUTTON_GREEN = 1010"
definition UI_BUTTON_ORANGE :: int where "UI_BUTTON_ORANGE = 1011"
definition UI_BUTTON_RED :: int where "UI_BUTTON_RED = 1012"
definition UI_BUTTON_SKY :: int where "UI_BUTTON_SKY = 1013"
definition UI_TEXT_HOLDER :: int where "UI_TEXT_HOLDER = 1014"
definition UI_BUTTON2_BLUE :: int where "UI_BUTTON2_BLUE = 1015"
definition UI_BUTTON2_ORANGE :: int where "UI_BUTTON2_ORANGE = 1016"
definition UI_BUTTON2_SKY :: int where "UI_BUTTON2_SKY = 1017"
definition UI_CHAT_INPUT_HOLDER :: int where "UI_CHAT_INPUT_HOLDER = 1018"
definition UI_CHAT_WINDOW_BACKGROUND :: int where "UI_CHAT_WINDOW_BACKGROUND = 1019"
definition UI_LOBBY_BACKGROUND :: int where "UI_LOBBY_BACKGROUND = 1020"
definition UI_POPUP_BACKGROUND :: int where "UI_POPUP_BACKGROUND = 1021"
definition UI_INGAME_BACKGROUND :: int where "UI_INGAME_BACKGROUND = 1022"
definition UI_FRAME11 :: int where "UI_FRAME11 = 1023"
definition UI_FRAME12 :: int where "UI_FRAME12 = 1024"
definition UI_FRAME21 :: int where "UI_FRAME21 = 1025"
definition UI_FRAME51 :: int where "UI_FRAME51 = 1026"
definition UI_WINDOW_BACKGROUND :: int where "UI_WINDOW_BACKGROUND = 1027"
definition UI_BUTTON2_GREEN :: int where "UI_BUTTON2_GREEN = 1028"
definition UI_REFRESH_ICON :: int where "UI_REFRESH_ICON = 1029"
definition BGM_INGAME :: int where "BGM_INGAME = 0"
definition EFFECT_BUTTON_HOVER :: int where "EFFECT_BUTTON_HOVER = 1"
definition EFFECT_BUTTON_PRESS :: int where "EFFECT_BUTTON_PRESS = 2"
definition EFFECT_MOVE :: int where "EFFECT_MOVE = 3"
definition EFFECT_FIX :: int where "EFFECT_FIX = 4"
definition EFFECT_CLEARLINE :: int where "EFFECT_CLEARLINE = 5"
definition EFFECT_ADDLINE :: int where "EFFECT_ADDLINE = 6"
definition EFFECT_SHUTTER :: int where "EFFECT_SHUTTER = 7"

lemmas image_keys =
  DEFAULT_RED_def DEFAULT_ORANGE_def DEFAULT_YELLOW_def DEFAULT_GREEN_def DEFAULT_BLUE_def
  DEFAULT_INDIGO_def DEFAULT_PURPLE_def DEFAULT_GRAY_def CANDY_RED_def CANDY_ORANGE_def
  CANDY_YELLOW_def CANDY_GREEN_def CANDY_BLUE_def CANDY_INDIGO_def CANDY_PURPLE_def
  UI_BUTTON_LOGIN_IDLE_def UI_BUTTON_LOGIN_HOVER_def UI_BUTTON_LOGIN_PRESS_def UI_SHUTTER_def
  UI_LOGIN_BUTTON_def UI_LOGIN_LABEL_FRAME_def UI_LOGO_def UI_HOST_def UI_MAIN_BACKGROUND_def
  UI_BUTTON_BLUE_def UI_BUTTON_GREEN_def UI_BUTTON_ORANGE_def UI_BUTTON_RED_def UI_BUTTON_SKY_def
  UI_TEXT_HOLDER_def UI_BUTTON2_BLUE_def UI_BUTTON2_ORANGE_def UI_BUTTON2_SKY_def
  UI_CHAT_INPUT_HOLDER_def UI_CHAT_WINDOW_BACKGROUND_def UI_LOBBY_BACKGROUND_def
  UI_POPUP_BACKGROUND_def UI_INGAME_BACKGROUND_def UI_FRAME11_def UI_FRAME12_def UI_FRAME21_def
  UI_FRAME51_def UI_WINDOW_BACKGROUND_def UI_BUTTON2_GREEN_def UI_REFRESH_ICON_def

lemmas sound_keys =
  BGM_INGAME_def EFFECT_BUTTON_HOVER_def EFFECT_BUTTON_PRESS_def EFFECT_MOVE_def EFFECT_FIX_def
  EFFECT_CLEARLINE_def EFFECT_ADDLINE_def EFFECT_SHUTTER_def

subsection \<open>Paths\<close>

definition RESOURCE_ROOT_PATH :: string where "RESOURCE_ROOT_PATH = ''tetris/resources/''"

definition BLOCK_IMAGE_PATHS :: "(int \<times> string) list" where
  "BLOCK_IMAGE_PATHS =
    [(DEFAULT_RED, ''blocks/default/default_red.png''),
     (DEFAULT_ORANGE, ''blocks/default/default_orange.png''),
     (DEFAULT_YELLOW, ''blocks/default/default_yellow.png''),
     (DEFAULT_GREEN, ''blocks/default/default_green.png''),
     (DEFAULT_BLUE, ''blocks/default/default_blue.png''),
     (DEFAULT_INDIGO, ''blocks/default/default_indigo.png''),
     (DEFAULT_PURPLE, ''blocks/default/default_purple.png''),
     (DEFAULT_GRAY, ''blocks/default/default_gray.png''),
     (CANDY_RED, ''blocks/candy/candy_red.png''),
     (CANDY_ORANGE, ''blocks/candy/candy_orange.png''),
     (CANDY_YELLOW, ''blocks/candy/candy_yellow.png''),
     (CANDY_GREEN, ''blocks/candy/candy_green.png''),
     (CANDY_BLUE, ''blocks/candy/candy_blue.png''),
     (CANDY_INDIGO, ''blocks/candy/candy_indigo.png''),
     (CANDY_PURPLE, ''blocks/candy/candy_purple.png'')]"

definition UI_IMAGE_PATHS :: "(int \<times> string) list" where
  "UI_IMAGE_PATHS =
    [(UI_BUTTON_LOGIN_IDLE, ''button/button_login_idle.png''),
     (UI_BUTTON_LOGIN_HOVER, ''button/button_login_hover.png''),
     (UI_BUTTON_LOGIN_PRESS, ''button/button_login_press.png''),
     (UI_SHUTTER, ''backgrounds/shutter.png''),
     (UI_LOGIN_BUTTON, ''button/login_button.png''),
     (UI_LOGIN_LABEL_FRAME, ''labels/login_label_frame.png''),
     (UI_LOGO, ''button/new_tetris_logo.png''),
     (UI_HOST, ''ui/crown.png''),
     (UI_MAIN_BACKGROUND, ''backgrounds/login_background.png''),
     (UI_BUTTON_BLUE, ''button/button_blue.png''),
     (UI_BUTTON_GREEN, ''button/button_green.png''),
     (UI_BUTTON_ORANGE, ''button/button_orange.png''),
     (UI_BUTTON_RED, ''button/button_red.png''),
     (UI_BUTTON_SKY, ''button/button_sky.png''),
     (UI_TEXT_HOLDER, ''button/text_holder.png''),
     (UI_BUTTON2_BLUE, ''button/button2_blue.png''),
     (UI_BUTTON2_GREEN, ''button/button2_green.png''),
     (UI_BUTTON2_ORANGE, ''button/button2_orange.png''),
     (UI_BUTTON2_SKY, ''button/button2_sky.png''),
     (UI_CHAT_INPUT_HOLDER, ''button/chat_input_holder.png''),
     (UI_CHAT_WINDOW_BACKGROUND, ''backgrounds/chat_window_background.png''),
     (UI_LOBBY_BACKGROUND, ''backgrounds/default_background.png''),
     (UI_POPUP_BACKGROUND, ''backgrounds/popup_background.png''),
     (UI_WINDOW_BACKGROUND, ''backgrounds/window_background.png''),
     (UI_INGAME_BACKGROUND, ''backgrounds/ingame_background.png''),
     (UI_FRAME11, ''frames/gold_frame11.png''),
     (UI_FRAME12, ''frames/gold_frame12.png''),
     (UI_FRAME21, ''frames/gold_frame21.png''),
     (UI_FRAME51, ''frames/gold_frame51.png''),
     (UI_REFRESH_ICON, ''icons/refresh_icon.png'')]"

definition BGM_PATHS :: "(int \<times> string) list" where
  "BGM_PATHS =
    [(BGM_INGAME, ''tetris/resources/sounds/bgm_ingame.mp3'')]"

definition EFFECT_SOUND_PATHS :: "(int \<times> string) list" where
  "EFFECT_SOUND_PATHS =
    [(EFFECT_BUTTON_HOVER, ''sounds/button_hover.mp3''),
     (EFFECT_BUTTON_PRESS, ''sounds/button_press.mp3''),
     (EFFECT_MOVE, ''sounds/sound_effect_move.mp3''),
     (EFFECT_FIX, ''sounds/sound_effect_fix.mp3''),
     (EFFECT_CLEARLINE, ''sounds/sound_effect_clearline.mp3''),
     (EFFECT_ADDLINE, ''sounds/sound_effect_addline.mp3''),
     (EFFECT_SHUTTER, ''sounds/shutter_open.mp3'')]"

subsection \<open>Images\<close>

record image =
  img_file :: string
  img_w :: int
  img_h :: int

definition CELL_SIZE :: int where "CELL_SIZE = 35"

definition load_image :: "string \<Rightarrow> int \<Rightarrow> int \<Rightarrow> image" where
  "load_image file_path w h = \<lparr>img_file = RESOURCE_ROOT_PATH @ file_path, img_w = w, img_h = h\<rparr>"

definition scale_image :: "image \<Rightarrow> int \<Rightarrow> int \<Rightarrow> image" where
  "scale_image im w h = im\<lparr>img_w := w, img_h := h\<rparr>"

definition block_images :: "(int \<times> image) list" where
  "block_images = map (\<lambda>(key, path). (key, load_image path CELL_SIZE CELL_SIZE)) BLOCK_IMAGE_PATHS"

definition login_button_images :: "(int \<times> image) list" where
  "login_button_images = map (\<lambda>(key, path). (key, load_image path 300 100))
     (filter (\<lambda>(key, path). key \<in> {UI_BUTTON_LOGIN_IDLE, UI_BUTTON_LOGIN_HOVER, UI_BUTTON_LOGIN_PRESS}) UI_IMAGE_PATHS)"

text \<open>The entries of the dictionary that \<open>update\<close> adds, with their sizes.\<close>

definition ui_sizes :: "(int \<times> int \<times> int) list" where
  "ui_sizes =
    [(UI_SHUTTER, BASE_SCREEN_WIDTH, BASE_SCREEN_HEIGHT),
     (UI_LOGIN_BUTTON, 200, 100),
     (UI_LOGIN_LABEL_FRAME, 400, 100),
     (UI_LOGO, 250, 100),
     (UI_HOST, 100, 100),
     (UI_MAIN_BACKGROUND, BASE_SCREEN_WIDTH, BASE_SCREEN_HEIGHT),
     (UI_BUTTON_BLUE, 300, 100),
     (UI_BUTTON_GREEN, 300, 100),
     (UI_BUTTON_ORANGE, 300, 100),
     (UI_BUTTON_RED, 300, 100),
     (UI_BUTTON_SKY, 300, 100),
     (UI_TEXT_HOLDER, 400, 50),
     (UI_BUTTON2_BLUE, 150, 100),
     (UI_BUTTON2_GREEN, 150, 100),
     (UI_BUTTON2_ORANGE, 150, 100),
     (UI_BUTTON2_SKY, 150, 100),
     (UI_CHAT_INPUT_HOLDER, 400, 50),
     (UI_CHAT_WINDOW_BACKGROUND, 1000, 200),
     (UI_LOBBY_BACKGROUND, BASE_SCREEN_WIDTH, BASE_SCREEN_HEIGHT),
     (UI_POPUP_BACKGROUND, 600, 400),
     (UI_WINDOW_BACKGROUND, 500, 500),
     (UI_INGAME_BACKGROUND, BASE_SCREEN_WIDTH, BASE_SCREEN_HEIGHT),
     (UI_FRAME11, 500, 500),
     (UI_FRAME12, 500, 800),
     (UI_FRAME21, 300, 150),
     (UI_FRAME51, 300, 150),
     (UI_REFRESH_ICON, 50, 50)]"

definition ui_images :: "(int \<times> image) list py" where
  "ui_images = py_for (\<lambda>(key, w, h) d. py_bind (dict_get UI_IMAGE_PATHS key) (\<lambda>path.
     Inr (dict_set d key (load_image path w h)))) ui_sizes login_button_images"

text \<open>Every image key has an image, of the file its path names; no key is left out or loaded twice.\<close>

lemma map_of_dict_set: "map_of (dict_set d k v) = (map_of d)(k \<mapsto> v)"
  by (induction d k v rule: dict_set.induct) auto

lemma keys_dict_set: "map fst (dict_set d k v) = map fst d @ (if k \<in> set (map fst d) then [] else [k])"
  by (induction d k v rule: dict_set.induct) auto

lemma dict_set_distinct: "distinct (map fst d) \<Longrightarrow> distinct (map fst (dict_set d k v))"
  by (simp add: keys_dict_set)

text \<open>A dictionary of images: each key has the image its path names.\<close>

definition images_ok :: "(int \<times> image) list \<Rightarrow> bool" where
  "images_ok d \<longleftrightarrow> distinct (map fst d) \<and>
     (\<forall>k im. map_of d k = Some im \<longrightarrow> (\<exists>path w h. map_of UI_IMAGE_PATHS k = Some path \<and> im = load_image path w h))"

lemma load_entries:
  assumes "images_ok d" "set (map fst es) \<subseteq> set (map fst UI_IMAGE_PATHS)"
  shows "\<exists>d'. py_for (\<lambda>(key, w, h) d. py_bind (dict_get UI_IMAGE_PATHS key) (\<lambda>path.
     Inr (dict_set d key (load_image path w h)))) es d = Inr d' \<and> images_ok d' \<and>
     set (map fst d') = set (map fst d) \<union> set (map fst es)"
  using assms
proof (induction es arbitrary: d)
  case (Cons e es)
  obtain k w h where e: "e = (k, w, h)" by (cases e)
  from Cons.prems(2) e obtain path where p: "map_of UI_IMAGE_PATHS k = Some path"
    by (cases "map_of UI_IMAGE_PATHS k") (auto simp: map_of_eq_None_iff)
  have ok: "images_ok (dict_set d k (load_image path w h))"
    using Cons.prems(1) p by (auto simp: images_ok_def map_of_dict_set dict_set_distinct)
  have keys: "set (map fst (dict_set d k (load_image path w h))) = insert k (set (map fst d))"
    unfolding keys_dict_set by auto
  from Cons.IH [OF ok] Cons.prems(2) obtain d' where
    "py_for (\<lambda>(key, w, h) d. py_bind (dict_get UI_IMAGE_PATHS key) (\<lambda>path.
       Inr (dict_set d key (load_image path w h)))) es (dict_set d k (load_image path w h)) = Inr d'"
    "images_ok d'" "set (map fst d') = insert k (set (map fst d)) \<union> set (map fst es)"
    unfolding keys by auto
  with e p show ?case by (auto simp: dict_get_def)
qed simp

lemma all_sized: "list_all (\<lambda>k. k \<in> set (map fst login_button_images) \<or> k \<in> set (map fst ui_sizes)) (map fst UI_IMAGE_PATHS)"
  by (simp add: UI_IMAGE_PATHS_def ui_sizes_def login_button_images_def image_keys)

lemma sized_paths: "list_all (\<lambda>k. k \<in> set (map fst UI_IMAGE_PATHS)) (map fst ui_sizes)"
  by (simp add: UI_IMAGE_PATHS_def ui_sizes_def image_keys)

lemma login_images_ok: "images_ok login_button_images"
  by (auto simp: images_ok_def login_button_images_def UI_IMAGE_PATHS_def image_keys split: if_splits)

text \<open>
  Loading the images looks up no unknown path; afterwards exactly the keys that have a path have an
  image, which is the one of that path.
\<close>

theorem ui_images_loaded:
  "\<exists>d. ui_images = Inr d \<and> images_ok d \<and> set (map fst d) = set (map fst UI_IMAGE_PATHS)"
proof -
  from sized_paths have "set (map fst ui_sizes) \<subseteq> set (map fst UI_IMAGE_PATHS)" by (auto simp: list_all_iff)
  from load_entries [OF login_images_ok this] obtain d where d: "ui_images = Inr d" "images_ok d"
    "set (map fst d) = set (map fst login_button_images) \<union> set (map fst ui_sizes)"
    unfolding ui_images_def by blast
  moreover have "set (map fst login_button_images) \<subseteq> set (map fst UI_IMAGE_PATHS)"
    by (force simp: login_button_images_def)
  moreover from all_sized have "set (map fst UI_IMAGE_PATHS) \<subseteq> set (map fst login_button_images) \<union> set (map fst ui_sizes)"
    unfolding list_all_iff by blast
  moreover from sized_paths have "set (map fst ui_sizes) \<subseteq> set (map fst UI_IMAGE_PATHS)"
    unfolding list_all_iff by blast
  ultimately show ?thesis by (metis Un_subset_iff subset_antisym)
qed

subsection \<open>Sounds\<close>

definition bgms :: "(int \<times> string) list" where "bgms = BGM_PATHS"

definition sound_effects :: "(int \<times> string) list" where
  "sound_effects = map (\<lambda>(name, path). (name, RESOURCE_ROOT_PATH @ path)) EFFECT_SOUND_PATHS"

subsection \<open>Block textures\<close>

definition load_default_textures :: "(shape \<times> image) list py" where
  "load_default_textures = py_collect (\<lambda>(k, key). py_bind (dict_get block_images key) (\<lambda>im. Inr (k, im)))
     [(KZ, DEFAULT_RED), (KL, DEFAULT_ORANGE), (KO, DEFAULT_YELLOW), (KS, DEFAULT_GREEN),
      (KJ, DEFAULT_BLUE), (KI, DEFAULT_INDIGO), (KT, DEFAULT_PURPLE), (KG, DEFAULT_GRAY)]"

text \<open>The set of the old keys is compared with the new dictionary, and a set never equals a dictionary.\<close>

definition set_equals_dict :: "shape set \<Rightarrow> (shape \<times> image) list \<Rightarrow> bool" where
  "set_equals_dict ks d = False"

definition set_new_textures :: "(shape \<times> image) list \<Rightarrow> (shape \<times> image) list \<Rightarrow> (shape \<times> image) list" where
  "set_new_textures new_textures block_textures =
     (if \<not> set_equals_dict (set (map fst block_textures)) new_textures then block_textures else new_textures)"

theorem default_textures_complete:
  "\<exists>ts. load_default_textures = Inr ts \<and> (\<forall>k. map_of ts k \<noteq> None)"
proof -
  have "load_default_textures = Inr (map (\<lambda>(k, path). (k, load_image path CELL_SIZE CELL_SIZE))
     [(KZ, ''blocks/default/default_red.png''), (KL, ''blocks/default/default_orange.png''),
      (KO, ''blocks/default/default_yellow.png''), (KS, ''blocks/default/default_green.png''),
      (KJ, ''blocks/default/default_blue.png''), (KI, ''blocks/default/default_indigo.png''),
      (KT, ''blocks/default/default_purple.png''), (KG, ''blocks/default/default_gray.png'')])"
    by (simp add: load_default_textures_def py_collect_def block_images_def BLOCK_IMAGE_PATHS_def dict_get_def image_keys)
  moreover have "map_of [(KZ, a), (KL, b), (KO, c), (KS, d), (KJ, e), (KI, f), (KT, g), (KG, h)] k \<noteq> None"
    for k and a b c d e f g h :: image
    by (cases k) simp_all
  ultimately show ?thesis by (intro exI conjI) (assumption, simp only: list.map prod.case, blast)
qed

subsection \<open>Fonts\<close>

definition MIN_SIZE :: int where "MIN_SIZE = 10"
definition MAX_SIZE :: int where "MAX_SIZE = 50"
definition DEFAULT_FONT_SIZE :: int where "DEFAULT_FONT_SIZE = 30"
definition MINI_FONT_SIZE :: int where "MINI_FONT_SIZE = 20"
definition POPUPBOX_FONT_SIZE :: int where "POPUPBOX_FONT_SIZE = 35"
definition COMBO_FONT_SIZE :: int where "COMBO_FONT_SIZE = 40"

lemmas font_sizes = MIN_SIZE_def MAX_SIZE_def DEFAULT_FONT_SIZE_def MINI_FONT_SIZE_def POPUPBOX_FONT_SIZE_def COMBO_FONT_SIZE_def

text \<open>A font is its size; \<open>font_loads\<close> lists the sizes read from the font file.\<close>

record fonts =
  font_table :: "(int \<times> int option) list"
  font_loads :: "int list"

definition load_font :: "int \<Rightarrow> fonts \<Rightarrow> int \<times> fonts" where
  "load_font n f = (n, f\<lparr>font_loads := font_loads f @ [n]\<rparr>)"

definition enter_size :: "int \<Rightarrow> fonts \<Rightarrow> fonts" where
  "enter_size i f =
     (if i = DEFAULT_FONT_SIZE \<or> i = MINI_FONT_SIZE \<or> i = POPUPBOX_FONT_SIZE then
        let (g, f) = load_font i f in f\<lparr>font_table := dict_set (font_table f) i (Some g)\<rparr>
      else f\<lparr>font_table := dict_set (font_table f) i None\<rparr>)"

definition Fonts :: fonts where
  "Fonts = fold enter_size (map (\<lambda>k. MIN_SIZE + 2 * int k) [0..<21]) \<lparr>font_table = [], font_loads = []\<rparr>"

definition rounded_size :: "int \<Rightarrow> int" where
  "rounded_size font_size = (if font_size < 10 then 10 else if 50 < font_size then 50 else font_size div 2 * 2)"

definition get_font :: "int \<Rightarrow> fonts \<Rightarrow> (int \<times> fonts) py" where
  "get_font font_size f =
     (let size = rounded_size font_size in
      py_bind (dict_get (font_table f) size) (\<lambda>g. case g of
        None \<Rightarrow> (let (g, f) = load_font size f in Inr (g, f\<lparr>font_table := dict_set (font_table f) size (Some g)\<rparr>))
      | Some g \<Rightarrow> Inr (g, f)))"

definition wf_fonts :: "fonts \<Rightarrow> bool" where
  "wf_fonts f \<longleftrightarrow> distinct (font_loads f) \<and>
     (\<forall>k. map_of (font_table f) k \<noteq> None \<longleftrightarrow> 10 \<le> k \<and> k \<le> 50 \<and> even k) \<and>
     (\<forall>k. map_of (font_table f) k = Some (Some k) \<longleftrightarrow> k \<in> set (font_loads f)) \<and>
     (\<forall>k g. map_of (font_table f) k = Some (Some g) \<longrightarrow> g = k)"

lemma Fonts_table:
  "Fonts = \<lparr>font_table = map (\<lambda>k. (10 + 2 * int k, if k = 5 \<or> k = 10 then Some (10 + 2 * int k) else None)) [0..<21],
     font_loads = [20, 30]\<rparr>"
  by (simp add: Fonts_def upt_rec enter_size_def load_font_def font_sizes)

lemma sizes_table: "map_of (map (\<lambda>k. (10 + 2 * int k, f k)) [0..<21]) n =
    (if 10 \<le> n \<and> n \<le> 50 \<and> even n then Some (f (nat ((n - 10) div 2))) else None)"
proof (cases "10 \<le> n \<and> n \<le> 50 \<and> even n")
  case True
  then obtain j where j: "n = 10 + 2 * int j" "j < 21"
    by (elim conjE evenE) (rule that [of "nat (n div 2 - 5)"], auto)
  have "distinct (map fst (map (\<lambda>k. (10 + 2 * int k, f k)) [0..<21]))"
    by (simp add: comp_def distinct_map inj_on_def)
  moreover have "(n, f j) \<in> set (map (\<lambda>k. (10 + 2 * int k, f k)) [0..<21])" using j by auto
  ultimately have "map_of (map (\<lambda>k. (10 + 2 * int k, f k)) [0..<21]) n = Some (f j)" by (rule map_of_is_SomeI)
  with True j show ?thesis by simp
next
  case False
  then have "n \<notin> fst ` set (map (\<lambda>k. (10 + 2 * int k, f k)) [0..<21])" by auto
  then have "map_of (map (\<lambda>k. (10 + 2 * int k, f k)) [0..<21]) n = None" unfolding map_of_eq_None_iff .
  then show ?thesis using False by auto
qed

lemma wf_Fonts: "wf_fonts Fonts"
  by (auto simp: wf_fonts_def Fonts_table sizes_table)

lemma get_font_ok:
  assumes "wf_fonts f"
  shows "\<exists>g f'. get_font n f = Inr (g, f') \<and> g = rounded_size n \<and> wf_fonts f' \<and> 10 \<le> g \<and> g \<le> 50 \<and> even g \<and>
    (10 \<le> n \<and> n \<le> 50 \<longrightarrow> n - 1 \<le> g \<and> g \<le> n)"
proof -
  define size where "size = rounded_size n"
  have size: "10 \<le> size" "size \<le> 50" "even size" "10 \<le> n \<and> n \<le> 50 \<longrightarrow> n - 1 \<le> size \<and> size \<le> n"
    by (auto simp: size_def rounded_size_def)
  from assms have w: "distinct (font_loads f)"
    "\<And>k. map_of (font_table f) k \<noteq> None \<longleftrightarrow> 10 \<le> k \<and> k \<le> 50 \<and> even k"
    "\<And>k. map_of (font_table f) k = Some (Some k) \<longleftrightarrow> k \<in> set (font_loads f)"
    "\<And>k g. map_of (font_table f) k = Some (Some g) \<Longrightarrow> g = k"
    unfolding wf_fonts_def by blast+
  from w(2) [of size] size obtain v where v: "map_of (font_table f) size = Some v" by blast
  show ?thesis
  proof (cases v)
    case None
    let ?f = "\<lparr>font_table = dict_set (font_table f) size (Some size), font_loads = font_loads f @ [size]\<rparr>"
    from w(3) [of size] v None have new: "size \<notin> set (font_loads f)" by simp
    have "wf_fonts ?f"
      unfolding wf_fonts_def fonts.simps map_of_dict_set
    proof (intro conjI allI)
      show "distinct (font_loads f @ [size])" using w(1) new by simp
      show "((map_of (font_table f))(size \<mapsto> Some size)) k \<noteq> None \<longleftrightarrow> 10 \<le> k \<and> k \<le> 50 \<and> even k" for k
        using w(2) [of k] size by (cases "k = size") simp_all
      show "((map_of (font_table f))(size \<mapsto> Some size)) k = Some (Some k) \<longleftrightarrow> k \<in> set (font_loads f @ [size])" for k
        using w(3) [of k] by (cases "k = size") simp_all
      show "((map_of (font_table f))(size \<mapsto> Some size)) k = Some (Some g) \<longrightarrow> g = k" for k g
        using w(4) [of k g] by (cases "k = size") simp_all
    qed
    moreover have "get_font n f = Inr (size, ?f)"
      using v None by (simp add: get_font_def size_def [symmetric] dict_get_def load_font_def Let_def)
    ultimately show ?thesis using size by (intro exI [of _ size] exI [of _ ?f]) (simp add: size_def)
  next
    case (Some g)
    with v w(4) have "g = size" by blast
    with v Some have "get_font n f = Inr (size, f)" by (simp add: get_font_def size_def [symmetric] dict_get_def Let_def)
    then show ?thesis using size assms by (intro exI [of _ size] exI [of _ f]) (simp add: size_def)
  qed
qed

text \<open>
  Whatever sizes are asked for, in any order: every request gets a font, of an even size that is the
  nearest one below within 10 and 50, and no size is read from the file twice.
\<close>

theorem font_cache:
  "\<exists>f. py_for (\<lambda>n f. py_bind (get_font n f) (\<lambda>(g, f). Inr f)) ns Fonts = Inr f \<and> distinct (font_loads f) \<and>
     (\<forall>n. \<exists>g f'. get_font n f = Inr (g, f') \<and> even g \<and> 10 \<le> g \<and> g \<le> 50 \<and>
       (10 \<le> n \<and> n \<le> 50 \<longrightarrow> n - 1 \<le> g \<and> g \<le> n))"
proof -
  let ?g = "\<lambda>n f. py_bind (get_font n f) (\<lambda>(g, f). Inr f)"
  have step: "\<exists>f'. ?g n f = Inr f' \<and> wf_fonts f'" if "wf_fonts f" for n f
    using get_font_ok [OF that, of n] by (elim exE conjE) simp
  have "\<exists>f. py_for ?g ns Fonts = Inr f \<and> wf_fonts f"
    by (rule py_for_defined [where P = wf_fonts], rule wf_Fonts, rule step)
  then obtain f where f: "py_for ?g ns Fonts = Inr f" "wf_fonts f" by (elim exE conjE)
  moreover from f(2) have "distinct (font_loads f)" by (simp add: wf_fonts_def)
  moreover have "\<exists>g f'. get_font n f = Inr (g, f') \<and> even g \<and> 10 \<le> g \<and> g \<le> 50 \<and> (10 \<le> n \<and> n \<le> 50 \<longrightarrow> n - 1 \<le> g \<and> g \<le> n)" for n
    using get_font_ok [OF f(2), of n] by blast
  ultimately show ?thesis by blast
qed


end
