(* ===== verification/Visuals.thy ===== *)
theory Visuals
  imports Resources
begin

text \<open>
  The widgets with their looks: \<open>Rectangle\<close> (\<^verbatim>\<open>client/tetris/ui/rectangle.py\<close>),
  \<open>Button\<close> (button.py) with its three faces and \<open>ToggleButton\<close> (toggle_button.py), their
  positional arguments in the present and the two older forms, and what \<open>draw\<close> puts on the screen.
  The scenes work on the smaller records of \<open>Widgets\<close>; the lemmas show that these are what the full
  widgets look like to the rest of the program.
\<close>

subsection \<open>Rectangle\<close>

definition WHITE :: "int list" where "WHITE = [255, 255, 255]"
definition BLACK :: "int list" where "BLACK = [0, 0, 0]"
definition GRAY :: "int list" where "GRAY = [128, 128, 128]"
definition DARK_GRAY :: "int list" where "DARK_GRAY = [40, 40, 40]"
definition PRESS_ORANGE :: "int list" where "PRESS_ORANGE = [240, 160, 0]"

text \<open>
  The font surface is always the text rendered in the current font and colour, so it is not a field.
  \<open>r_font\<close> is the size of the font that \<open>get_font\<close> returned.
\<close>

record rectangle =
  r_rect :: rect
  r_text :: pystr
  use_auto_text_size :: bool
  r_font :: int
  r_image :: "image option"
  image_source :: "image option"
  r_icon :: "image option"
  icon_source :: "image option"
  text_color :: "int list"
  background_color :: "int list"
  border_color :: "int list"
  border_width :: int
  r_visible :: bool

definition default_font_size :: "rect \<Rightarrow> int" where
  "default_font_size r = (if rect_h r = 50 then MINI_FONT_SIZE else DEFAULT_FONT_SIZE)"

definition set_image :: "image \<Rightarrow> 'a rectangle_scheme \<Rightarrow> 'a rectangle_scheme" where
  "set_image im r = r\<lparr>image_source := Some im, r_image := Some (scale_image im (rect_w (r_rect r)) (rect_h (r_rect r)))\<rparr>"

definition Rectangle :: "rect \<Rightarrow> bool \<Rightarrow> image option \<Rightarrow> pystr \<Rightarrow> int \<Rightarrow> rectangle" where
  "Rectangle rc use_image im txt bw =
     (let r = \<lparr>r_rect = rc, r_text = txt, use_auto_text_size = True, r_font = rounded_size (default_font_size rc),
         r_image = None, image_source = None, r_icon = None, icon_source = None, text_color = WHITE,
         background_color = BLACK, border_color = WHITE, border_width = bw, r_visible = True\<rparr>
      in case im of Some i \<Rightarrow> (if use_image then set_image i r else r) | None \<Rightarrow> r)"

definition set_background_color :: "int list \<Rightarrow> 'a rectangle_scheme \<Rightarrow> 'a rectangle_scheme" where
  "set_background_color c r = r\<lparr>background_color := c\<rparr>"

definition set_text_color :: "int list \<Rightarrow> 'a rectangle_scheme \<Rightarrow> 'a rectangle_scheme" where
  "set_text_color c r = r\<lparr>text_color := c\<rparr>"

definition set_icon :: "image option \<Rightarrow> 'a rectangle_scheme \<Rightarrow> 'a rectangle_scheme" where
  "set_icon new_icon r =
     (let r = r\<lparr>icon_source := new_icon\<rparr> in case new_icon of
        None \<Rightarrow> r\<lparr>r_icon := None\<rparr>
      | Some i \<Rightarrow> let icon_len = scaled (min (rect_w (r_rect r)) (rect_h (r_rect r))) (6 / 10) in
          if icon_len \<le> 0 then r\<lparr>r_icon := None\<rparr> else r\<lparr>r_icon := Some (scale_image i icon_len icon_len)\<rparr>)"

definition set_font :: "int \<Rightarrow> 'a rectangle_scheme \<Rightarrow> 'a rectangle_scheme" where
  "set_font f r = r\<lparr>use_auto_text_size := False, r_font := f\<rparr>"

definition set_text :: "pystr \<Rightarrow> 'a rectangle_scheme \<Rightarrow> 'a rectangle_scheme" where
  "set_text t r = r\<lparr>r_text := t\<rparr>"

definition set_text_size :: "int \<Rightarrow> 'a rectangle_scheme \<Rightarrow> 'a rectangle_scheme" where
  "set_text_size n r = r\<lparr>use_auto_text_size := False, r_font := rounded_size n\<rparr>"

definition set_border :: "int \<Rightarrow> 'a rectangle_scheme \<Rightarrow> 'a rectangle_scheme" where
  "set_border n r = r\<lparr>border_width := n\<rparr>"

definition center_pos :: "rect \<Rightarrow> int \<times> int" where
  "center_pos rc = (rect_x rc + rect_w rc div 2, rect_y rc + rect_h rc div 2)"

definition update_rect :: "rect \<Rightarrow> 'a rectangle_scheme \<Rightarrow> 'a rectangle_scheme" where
  "update_rect rc r =
     (let r = r\<lparr>r_rect := rc\<rparr>;
          r = (case image_source r of Some i \<Rightarrow> set_image i r | None \<Rightarrow> r);
          r = (case icon_source r of Some i \<Rightarrow> set_icon (Some i) r | None \<Rightarrow> r)
      in if use_auto_text_size r then r\<lparr>r_font := rounded_size (default_font_size rc)\<rparr> else r)"

text \<open>
  What \<open>draw\<close> puts on the screen, in order. \<open>text_size\<close> is the size of a text in a font; pygame
  truncates the two quotients that place it.
\<close>

datatype blit = Fill "int list" rect | Frame "int list" int rect | Blit_image image int int | Blit_text pystr int int

definition draw_rectangle :: "(int \<Rightarrow> pystr \<Rightarrow> int \<times> int) \<Rightarrow> 'a rectangle_scheme \<Rightarrow> blit list" where
  "draw_rectangle text_size r =
     (if \<not> r_visible r then []
      else let rc = r_rect r; (cx, cy) = center_pos rc; (tw, th) = text_size (r_font r) (r_text r) in
        (case r_image r of
           None \<Rightarrow> Fill (background_color r) rc # (if 0 < border_width r then [Frame (border_color r) (border_width r) rc] else [])
         | Some i \<Rightarrow> [Blit_image i (rect_x rc) (rect_y rc)]) @
        (case r_icon r of None \<Rightarrow> [] | Some i \<Rightarrow> [Blit_image i (cx - img_w i div 2) (cy - img_h i div 2)]) @
        [Blit_text (r_text r) (py_trunc (of_int cx - of_int tw / 2)) (py_trunc (of_int cy - of_int th / 2))])"

subsection \<open>Positional arguments\<close>

datatype ButtonStyle = DEFAULT_STYLE | SMALL_STYLE

datatype arg = A_bool bool | A_surface image | A_none | A_text pystr | A_int int | A_style ButtonStyle

definition arg_at :: "arg list \<Rightarrow> nat \<Rightarrow> arg \<Rightarrow> arg" where
  "arg_at args k d = (if k < length args then args ! k else d)"

text \<open>\<open>is\<close> on two images; images of different files or sizes are different objects.\<close>

definition legacy_style :: "(int \<times> image) list \<Rightarrow> arg \<Rightarrow> arg py" where
  "legacy_style ui a =
     (if a = A_none then Inr (A_style DEFAULT_STYLE)
      else py_bind (dict_get ui UI_BUTTON2_SKY) (\<lambda>im.
        Inr (A_style (if a = A_surface im then SMALL_STYLE else DEFAULT_STYLE))))"

text \<open>The text, the border, whether to use images, and the style that \<open>args\<close> stand for.\<close>

definition button_args :: "(int \<times> image) list \<Rightarrow> arg list \<Rightarrow> (arg \<times> arg \<times> arg \<times> arg) py" where
  "button_args ui args = (case args of
     [] \<Rightarrow> Inr (A_text [], A_int 0, A_bool True, A_style DEFAULT_STYLE)
   | A_bool b # _ \<Rightarrow> py_bind (legacy_style ui (arg_at args 1 A_none)) (\<lambda>st.
       Inr (arg_at args 2 (A_text []), arg_at args 3 (A_int 0), A_bool b, st))
   | A_surface im # _ \<Rightarrow> py_bind (legacy_style ui (A_surface im)) (\<lambda>st.
       Inr (arg_at args 1 (A_text []), arg_at args 2 (A_int 0), A_bool True, st))
   | A_none # _ \<Rightarrow> py_bind (legacy_style ui A_none) (\<lambda>st.
       Inr (arg_at args 1 (A_text []), arg_at args 2 (A_int 0), A_bool False, st))
   | t # _ \<Rightarrow> Inr (t, arg_at args 1 (A_int 0), arg_at args 2 (A_bool True), arg_at args 3 (A_style DEFAULT_STYLE)))"

text \<open>Arguments of the expected types; every call of the program passes such.\<close>

fun typed_args :: "arg \<times> arg \<times> arg \<times> arg \<Rightarrow> (pystr \<times> int \<times> bool \<times> ButtonStyle) py" where
  "typed_args (A_text t, A_int n, A_bool u, A_style s) = Inr (t, n, u, s)"
| "typed_args _ = Inl TypeError"

subsection \<open>Button\<close>

text \<open>
  \<open>fb_faces\<close> are the rectangles \<open>idle\<close>, \<open>hover\<close> and \<open>press\<close>, and \<open>fb_face\<close> tells which of them the
  field \<open>button\<close> refers to; without images that field is \<open>fb_plain\<close>.
\<close>

record full_button =
  fb_state :: ButtonState
  fb_use_image :: bool
  fb_style :: ButtonStyle
  fb_plain :: rectangle
  fb_faces :: "(rectangle \<times> rectangle \<times> rectangle) option"
  fb_face :: ButtonState
  idle_color :: "int list"
  hover_color :: "int list"
  press_color :: "int list"

definition current_face :: "full_button \<Rightarrow> rectangle" where
  "current_face b = (case fb_faces b of
     None \<Rightarrow> fb_plain b
   | Some (i, h, p) \<Rightarrow> (case fb_face b of IDLE \<Rightarrow> i | HOVER \<Rightarrow> h | PRESS \<Rightarrow> p))"

definition get_images :: "(int \<times> image) list \<Rightarrow> ButtonStyle \<Rightarrow> (image \<times> image \<times> image) py" where
  "get_images ui st =
     (let (a, b, c) = (if st = SMALL_STYLE then (UI_BUTTON2_SKY, UI_BUTTON2_BLUE, UI_BUTTON2_ORANGE)
          else (UI_BUTTON_SKY, UI_BUTTON_BLUE, UI_BUTTON_ORANGE)) in
      py_bind (dict_get ui a) (\<lambda>i. py_bind (dict_get ui b) (\<lambda>h. py_bind (dict_get ui c) (\<lambda>p. Inr (i, h, p)))))"

definition set_images :: "image \<Rightarrow> image option \<Rightarrow> image option \<Rightarrow> full_button \<Rightarrow> full_button" where
  "set_images im hov pre b =
     (let r = current_face b;
          hover_image = (case hov of Some h \<Rightarrow> h | None \<Rightarrow> im);
          press_image = (case pre of Some p \<Rightarrow> p | None \<Rightarrow> hover_image);
          face = (\<lambda>i. Rectangle (r_rect r) True (Some i) (r_text r) (border_width r))
      in b\<lparr>fb_faces := Some (face im, face hover_image, face press_image), fb_face := IDLE\<rparr>)"

definition make_button :: "(int \<times> image) list \<Rightarrow> rect \<Rightarrow> pystr \<Rightarrow> int \<Rightarrow> bool \<Rightarrow> ButtonStyle \<Rightarrow> full_button py" where
  "make_button ui rc txt bw use_image st =
     (let b = (\<lambda>im. \<lparr>fb_state = IDLE, fb_use_image = use_image, fb_style = st, fb_plain = Rectangle rc use_image im txt bw,
          fb_faces = None, fb_face = IDLE, idle_color = DARK_GRAY, hover_color = GRAY, press_color = PRESS_ORANGE\<rparr>)
      in if use_image then py_bind (get_images ui st) (\<lambda>(i, h, p). Inr (set_images i (Some h) (Some p) (b (Some i))))
         else Inr (b None))"

definition Full_button :: "(int \<times> image) list \<Rightarrow> rect \<Rightarrow> arg list \<Rightarrow> full_button py" where
  "Full_button ui rc args =
     py_bind (button_args ui args) (\<lambda>raw. py_bind (typed_args raw) (\<lambda>(txt, bw, use_image, st).
       make_button ui rc txt bw use_image st))"

text \<open>\<open>self.button.f(x)\<close>, then the same for the three faces.\<close>

definition on_faces :: "(rectangle \<Rightarrow> rectangle) \<Rightarrow> full_button \<Rightarrow> full_button" where
  "on_faces f b = (case fb_faces b of
     None \<Rightarrow> b\<lparr>fb_plain := f (fb_plain b)\<rparr>
   | Some (i, h, p) \<Rightarrow> b\<lparr>fb_faces := Some (f i, f h, f p)\<rparr>)"

definition fb_set_icon :: "image option \<Rightarrow> full_button \<Rightarrow> full_button" where
  "fb_set_icon i = on_faces (set_icon i)"

definition fb_set_text :: "pystr \<Rightarrow> full_button \<Rightarrow> full_button" where
  "fb_set_text t = on_faces (set_text t)"

definition fb_set_text_size :: "int \<Rightarrow> full_button \<Rightarrow> full_button" where
  "fb_set_text_size n = on_faces (set_text_size n)"

definition set_btn_color :: "int list \<Rightarrow> string \<Rightarrow> full_button \<Rightarrow> full_button" where
  "set_btn_color c state b =
     (if state = ''idle'' then b\<lparr>idle_color := c\<rparr> else if state = ''hover'' then b\<lparr>hover_color := c\<rparr>
      else if state = ''press'' then b\<lparr>press_color := c\<rparr> else b)"

definition show_face :: "ButtonState \<Rightarrow> full_button \<Rightarrow> full_button" where
  "show_face s b = (if fb_faces b \<noteq> None then b\<lparr>fb_face := s\<rparr> else b)"

definition full_button_event :: "collide \<Rightarrow> event \<Rightarrow> full_button \<Rightarrow> bool \<times> full_button" where
  "full_button_event collide ev b = (case event_pos ev of
     None \<Rightarrow> (False, b)
   | Some pos \<Rightarrow>
       if collide (r_rect (current_face b)) pos then
         (case ev of
            MOUSEMOTION _ \<Rightarrow> (False, if fb_state b = IDLE then show_face HOVER (b\<lparr>fb_state := HOVER\<rparr>) else b)
          | MOUSEBUTTONDOWN n _ \<Rightarrow>
              (False, if n = 1 \<and> fb_state b = HOVER then show_face PRESS (b\<lparr>fb_state := PRESS\<rparr>) else b)
          | MOUSEBUTTONUP n _ \<Rightarrow>
              if n = 1 \<and> fb_state b = PRESS then (True, show_face IDLE (b\<lparr>fb_state := IDLE\<rparr>)) else (False, b)
          | _ \<Rightarrow> (False, b))
       else (False, show_face IDLE (b\<lparr>fb_state := IDLE\<rparr>)))"

text \<open>\<open>draw\<close> first colours a face that has no image.\<close>

definition coloured :: "full_button \<Rightarrow> full_button" where
  "coloured b =
     (let c = (case fb_state b of IDLE \<Rightarrow> idle_color b | HOVER \<Rightarrow> hover_color b | PRESS \<Rightarrow> press_color b) in
      case fb_faces b of
        None \<Rightarrow> if r_image (fb_plain b) = None then b\<lparr>fb_plain := set_background_color c (fb_plain b)\<rparr> else b
      | Some (i, h, p) \<Rightarrow> if r_image (current_face b) = None then b\<lparr>fb_faces := Some (case fb_face b of
            IDLE \<Rightarrow> (set_background_color c i, h, p) | HOVER \<Rightarrow> (i, set_background_color c h, p)
          | PRESS \<Rightarrow> (i, h, set_background_color c p))\<rparr> else b)"

definition draw_button :: "(int \<Rightarrow> pystr \<Rightarrow> int \<times> int) \<Rightarrow> full_button \<Rightarrow> blit list \<times> full_button" where
  "draw_button text_size b = (let b = coloured b in (draw_rectangle text_size (current_face b), b))"

subsection \<open>Toggle button\<close>

record full_toggle = rectangle +
  ft_use_image :: bool
  ft_style :: ButtonStyle
  ft_reactable :: bool
  ft_pressed :: bool
  idle_image :: image
  pressed_image :: image

definition Full_toggle :: "(int \<times> image) list \<Rightarrow> rect \<Rightarrow> arg list \<Rightarrow> full_toggle py" where
  "Full_toggle ui rc args =
     py_bind (button_args ui args) (\<lambda>raw. py_bind (typed_args raw) (\<lambda>(txt, bw, use_image, st).
       let (a, b) = (if st = SMALL_STYLE then (UI_BUTTON2_SKY, UI_BUTTON2_ORANGE) else (UI_BUTTON_SKY, UI_BUTTON_ORANGE)) in
       py_bind (dict_get ui a) (\<lambda>idle. py_bind (dict_get ui b) (\<lambda>pressed.
         let t = rectangle.extend (Rectangle rc use_image None txt bw) (full_toggle.fields use_image st True False idle pressed)
         in Inr (if use_image then set_image idle t else t)))))"

definition full_toggle_event :: "collide \<Rightarrow> event \<Rightarrow> full_toggle \<Rightarrow> bool \<times> full_toggle" where
  "full_toggle_event collide ev t =
     (if \<not> ft_reactable t then (False, t)
      else case left_down ev of
        None \<Rightarrow> (False, t)
      | Some pos \<Rightarrow> if collide (r_rect t) pos then (True, if ft_pressed t then t else t\<lparr>ft_pressed := True\<rparr>) else (False, t))"

definition ft_set_pressed :: "bool \<Rightarrow> full_toggle \<Rightarrow> full_toggle" where
  "ft_set_pressed v t = t\<lparr>ft_pressed := v\<rparr>"

definition ft_set_reactable :: "bool \<Rightarrow> full_toggle \<Rightarrow> full_toggle" where
  "ft_set_reactable v t = t\<lparr>ft_reactable := v\<rparr>"

definition draw_toggle :: "(int \<Rightarrow> pystr \<Rightarrow> int \<times> int) \<Rightarrow> full_toggle \<Rightarrow> blit list \<times> full_toggle" where
  "draw_toggle text_size t =
     (let t = (if ft_use_image t then set_image (if ft_pressed t then pressed_image t else idle_image t) t else t)
      in (draw_rectangle text_size t, t))"

subsection \<open>Profile panel\<close>

text \<open>\<open>Profile.draw\<close> (ui/my_info.py): the three lines of the own player's record, centred in the panel.\<close>

definition profile_lines :: "session \<Rightarrow> (int \<times> pystr) list" where
  "profile_lines se = [(40, nickname se),
     (30, [0xC2B9, 32] @ int_str (win se) @ [32, 32, 32, 0xD328, 32] @ int_str (lose se)),
     (30, [0xCD5C, 0xACE0, 0xC810, 0xC218, 58, 32] @ int_str (max_score se))]"

text \<open>The lines from \<open>y0\<close> on, \<open>padding\<close> apart; a rectangle's centre is where \<open>get_rect\<close> puts it.\<close>

fun place_lines :: "(int \<Rightarrow> pystr \<Rightarrow> int \<times> int) \<Rightarrow> int \<Rightarrow> int \<Rightarrow> int \<Rightarrow> (int \<times> pystr) list \<Rightarrow> blit list" where
  "place_lines text_size padding cx y0 [] = []"
| "place_lines text_size padding cx y0 ((f, t) # ls) =
     (let (tw, th) = text_size f t; y = y0 + th div 2 - th div 2 in
      Blit_text t (cx - tw div 2) y # place_lines text_size padding cx (y + th + padding) ls)"

definition profile_draw :: "(int \<Rightarrow> pystr \<Rightarrow> int \<times> int) \<Rightarrow> rect \<Rightarrow> session \<Rightarrow> blit list" where
  "profile_draw text_size r se =
     (let padding = 20; ls = profile_lines se;
          total_h = sum_list (map (\<lambda>(f, t). snd (text_size f t)) ls) + padding * 2;
          start_y = rect_y r + (rect_h r - total_h) div 2
      in Fill [0, 0, 0, 120] r # Frame WHITE 1 r # place_lines text_size padding (rect_x r + rect_w r div 2) start_y ls)"

text \<open>The lines follow one another without overlap.\<close>

lemma place_lines_step:
  "place_lines text_size padding cx y0 ((f, t) # ls) =
     Blit_text t (cx - fst (text_size f t) div 2) y0 # place_lines text_size padding cx (y0 + snd (text_size f t) + padding) ls"
  by (simp add: Let_def split: prod.split)

subsection \<open>What the rest of the program sees\<close>

definition seen_button :: "full_button \<Rightarrow> button" where
  "seen_button b = \<lparr>btn_state = fb_state b, btn_rect = r_rect (current_face b), btn_text = r_text (current_face b),
     btn_images = (fb_faces b \<noteq> None), btn_face = fb_face b\<rparr>"

definition seen_toggle :: "full_toggle \<Rightarrow> toggle_button" where
  "seen_toggle t = \<lparr>tgl_rect = r_rect t, tgl_reactable = ft_reactable t, tgl_pressed = ft_pressed t, tgl_visible = r_visible t\<rparr>"

text \<open>The three faces share rectangle and text.\<close>

definition wf_full_button :: "full_button \<Rightarrow> bool" where
  "wf_full_button b \<longleftrightarrow> (case fb_faces b of
     None \<Rightarrow> True
   | Some (i, h, p) \<Rightarrow> r_rect h = r_rect i \<and> r_rect p = r_rect i \<and> r_text h = r_text i \<and> r_text p = r_text i)"

lemma looks [simp]:
  "r_rect (set_image i r) = r_rect r" "r_text (set_image i r) = r_text r"
  "r_rect (set_icon c r) = r_rect r" "r_text (set_icon c r) = r_text r"
  "r_rect (set_text t r) = r_rect r" "r_text (set_text t r) = t"
  "r_rect (set_text_size n r) = r_rect r" "r_text (set_text_size n r) = r_text r"
  "r_rect (set_background_color k r) = r_rect r" "r_text (set_background_color k r) = r_text r"
  "r_rect (Rectangle rc u im txt bw) = rc" "r_text (Rectangle rc u im txt bw) = txt"
  by (simp_all add: set_image_def set_icon_def set_text_def set_text_size_def set_background_color_def Rectangle_def Let_def
      split: option.split)

lemma current_face_look:
  "wf_full_button b \<Longrightarrow> fb_faces b = Some (i, h, p) \<Longrightarrow> r_rect (current_face b) = r_rect i \<and> r_text (current_face b) = r_text i"
  by (cases "fb_face b") (simp_all add: wf_full_button_def current_face_def)

lemma seen_show_face:
  assumes "wf_full_button b"
  shows "seen_button (show_face s (b\<lparr>fb_state := s\<rparr>)) = enter_state s (seen_button b) \<and> wf_full_button (show_face s (b\<lparr>fb_state := s\<rparr>))"
proof (cases "fb_faces b")
  case None
  then show ?thesis by (simp add: show_face_def seen_button_def enter_state_def current_face_def wf_full_button_def Let_def)
next
  case (Some f)
  obtain i h p where f: "f = (i, h, p)" by (cases f)
  from current_face_look [OF assms Some [unfolded f]] assms Some f show ?thesis
    by (cases s) (simp_all add: show_face_def seen_button_def enter_state_def current_face_def wf_full_button_def Let_def)
qed

lemma seen_event:
  assumes "wf_full_button b"
  shows "fst (full_button_event collide ev b) = fst (button_handle_event collide ev (seen_button b)) \<and>
    seen_button (snd (full_button_event collide ev b)) = snd (button_handle_event collide ev (seen_button b)) \<and>
    wf_full_button (snd (full_button_event collide ev b))"
proof -
  have s: "btn_rect (seen_button b) = r_rect (current_face b)" "btn_state (seen_button b) = fb_state b"
    by (simp_all add: seen_button_def)
  show ?thesis
    using seen_show_face [OF assms] assms
    by (cases ev) (simp_all add: full_button_event_def button_handle_event_def s)
qed

interpretation seen: simulation "\<lambda>ev b. (snd (button_handle_event collide ev b), [ev])"
    "\<lambda>ev b. Inr (snd (full_button_event collide ev b))" "\<lambda>a b. wf_full_button b \<and> seen_button b = a" "\<lambda>_. True" for collide
  by unfold_locales (use seen_event in auto)

lemma seen_set_text:
  assumes "wf_full_button b"
  shows "seen_button (fb_set_text t b) = button_set_text t (seen_button b) \<and> wf_full_button (fb_set_text t b)"
proof (cases "fb_faces b")
  case None
  then show ?thesis by (simp add: fb_set_text_def on_faces_def seen_button_def button_set_text_def current_face_def wf_full_button_def)
next
  case (Some f)
  obtain i h p where f: "f = (i, h, p)" by (cases f)
  with Some assms show ?thesis
    by (cases "fb_face b") (simp_all add: fb_set_text_def on_faces_def seen_button_def button_set_text_def current_face_def wf_full_button_def)
qed

lemma seen_looks:
  assumes "wf_full_button b"
  shows "seen_button (fb_set_icon c b) = seen_button b" "wf_full_button (fb_set_icon c b)"
    "seen_button (fb_set_text_size n b) = seen_button b" "wf_full_button (fb_set_text_size n b)"
    "seen_button (coloured b) = seen_button b" "wf_full_button (coloured b)"
proof -
  have "seen_button (on_faces g b) = seen_button b \<and> wf_full_button (on_faces g b)"
    if "\<And>r. r_rect (g r) = r_rect r \<and> r_text (g r) = r_text r" for g
    using that assms by (cases "fb_faces b"; cases "fb_face b")
      (auto simp: on_faces_def seen_button_def current_face_def wf_full_button_def)
  then show "seen_button (fb_set_icon c b) = seen_button b" "wf_full_button (fb_set_icon c b)"
    "seen_button (fb_set_text_size n b) = seen_button b" "wf_full_button (fb_set_text_size n b)"
    by (simp_all add: fb_set_icon_def fb_set_text_size_def)
  show "seen_button (coloured b) = seen_button b" "wf_full_button (coloured b)"
    using assms by (cases "fb_faces b"; cases "fb_face b";
      auto simp: coloured_def seen_button_def current_face_def wf_full_button_def Let_def split: ButtonState.split)+
qed

lemma seen_toggle_event:
  "seen_toggle (snd (full_toggle_event collide ev t)) = snd (toggle_handle_event collide ev (seen_toggle t)) \<and>
   fst (full_toggle_event collide ev t) = fst (toggle_handle_event collide ev (seen_toggle t))"
  by (auto simp: full_toggle_event_def toggle_handle_event_def seen_toggle_def split: option.split)

lemma loaded_image:
  assumes "ui_images = Inr d" "k \<in> set (map fst UI_IMAGE_PATHS)"
  shows "\<exists>im. dict_get d k = Inr im"
proof -
  from ui_images_loaded assms(1) have "set (map fst d) = set (map fst UI_IMAGE_PATHS)" by (metis sum.inject(2))
  with assms(2) have "k \<in> fst ` set d" by simp
  then show ?thesis by (cases "map_of d k") (auto simp: dict_get_def map_of_eq_None_iff)
qed

lemma button_images_loaded:
  assumes "ui_images = Inr d"
  shows "\<exists>i h p. get_images d st = Inr (i, h, p)"
proof -
  have "\<exists>im. dict_get d k = Inr im"
    if "k \<in> {UI_BUTTON2_SKY, UI_BUTTON2_BLUE, UI_BUTTON2_ORANGE, UI_BUTTON_SKY, UI_BUTTON_BLUE, UI_BUTTON_ORANGE}" for k
    by (rule loaded_image [OF assms]) (use that in \<open>auto simp: UI_IMAGE_PATHS_def\<close>)
  then obtain f where "dict_get d k = Inr (f k)"
    if "k \<in> {UI_BUTTON2_SKY, UI_BUTTON2_BLUE, UI_BUTTON2_ORANGE, UI_BUTTON_SKY, UI_BUTTON_BLUE, UI_BUTTON_ORANGE}" for k
    by metis
  then show ?thesis by (simp add: get_images_def)
qed

lemma seen_make:
  assumes "ui_images = Inr d"
  shows "\<exists>b. make_button d rc txt n u st = Inr b \<and> seen_button b = Button rc u txt \<and> wf_full_button b"
proof -
  from button_images_loaded [OF assms, of st] obtain i h p where "get_images d st = Inr (i, h, p)" by (elim exE)
  then show ?thesis
    by (cases u) (simp_all add: make_button_def set_images_def seen_button_def Button_def current_face_def wf_full_button_def Let_def)
qed

text \<open>
  A button with its faces is, to the rest of the program, the button of \<open>Widgets\<close>: with the images
  the client loads its construction does not raise in any of the forms of its arguments, and after any
  events it has the state, rectangle, text and face of that one.
\<close>

theorem full_button_refines:
  assumes "ui_images = Inr d"
    and "args = [A_text txt, A_int n] \<and> u \<or> args = [A_text txt, A_int n, A_bool u, A_style st] \<or>
      args = [A_bool u, old, A_text txt, A_int n] \<or> args = [A_none, A_text txt, A_int n] \<and> \<not> u"
  shows "\<exists>b. Full_button d rc args = Inr b \<and>
    (\<exists>b'. py_for (\<lambda>ev b. Inr (snd (full_button_event collide ev b))) evs b = Inr b' \<and>
       seen_button b' = button_run collide evs (Button rc u txt))"
proof -
  have "UI_BUTTON2_SKY \<in> set (map fst UI_IMAGE_PATHS)" by (simp add: UI_IMAGE_PATHS_def)
  from loaded_image [OF assms(1) this] obtain sky where sky: "dict_get d UI_BUTTON2_SKY = Inr sky" ..
  have "\<exists>st. button_args d args = Inr (A_text txt, A_int n, A_bool u, A_style st)"
    using assms(2) by (elim disjE) (auto simp: button_args_def arg_at_def legacy_style_def sky)
  then obtain st' where args: "button_args d args = Inr (A_text txt, A_int n, A_bool u, A_style st')" ..
  from seen_make [OF assms(1)] obtain b where
    b: "make_button d rc txt n u st' = Inr b" "seen_button b = Button rc u txt" "wf_full_button b" by blast
  have "wf_full_button b' \<Longrightarrow> \<exists>b''. py_for (\<lambda>ev b. Inr (snd (full_button_event collide ev b))) evs b' = Inr b'' \<and>
      seen_button b'' = button_run collide evs (seen_button b')" for b'
  proof (induction evs arbitrary: b')
    case (Cons ev evs)
    from seen_event [OF Cons.prems, of collide ev] Cons.IH [of "snd (full_button_event collide ev b')"] show ?case
      by (simp add: button_run_def)
  qed (simp add: button_run_def)
  from this [OF b(3)] b args show ?thesis by (simp add: Full_button_def)
qed

end
