(* ===== verification/BoardDraw.thy ===== *)
theory BoardDraw
  imports Visuals
begin

text \<open>
  What \<open>TetrisBoard\<close> draws (\<^verbatim>\<open>client/tetris/game/tetris_board.py\<close>, the part on rendering): the
  frame, the cells, the shadow of the falling piece and the preview, as lists of images with their
  positions. The textures are an argument, scaled to the size of a cell by \<open>set_textures\<close>.
\<close>

subsection \<open>Drawing\<close>

type_synonym textures = "(shape \<times> image) list"

definition set_textures :: "textures \<Rightarrow> board \<Rightarrow> textures" where
  "set_textures tex b = map (\<lambda>(k, im). (k, scale_image im (cell_length b) (cell_length b))) tex"

definition GOLD :: "int list" where "GOLD = [212, 175, 55]"

text \<open>The left, right and lower edge of the visible rows.\<close>

definition draw_board_frame :: "board \<Rightarrow> (int list \<times> (int \<times> int) \<times> (int \<times> int)) list" where
  "draw_board_frame b =
     (let r = valid_grid_rect b; left = rect_x r; right = rect_x r + rect_w r; upper = rect_y r; lower = rect_y r + rect_h r
      in [(GOLD, (left, upper), (left, lower)), (GOLD, (right, upper), (right, lower)), (GOLD, (left, lower), (right, lower))])"

definition cell_pos :: "board \<Rightarrow> int \<times> int \<Rightarrow> int \<times> int" where
  "cell_pos b = (\<lambda>(x, y). (rect_x (b_rect b) + x * cell_length b, rect_y (b_rect b) + y * cell_length b))"

definition falling_cells :: "board \<Rightarrow> cells py" where
  "falling_cells b = (case current_tetromino b of None \<Rightarrow> Inr [] | Some t \<Rightarrow> blocks t)"

definition draw_cell :: "textures \<Rightarrow> board \<Rightarrow> cells \<Rightarrow> int \<Rightarrow> int \<Rightarrow> (image \<times> int \<times> int) list \<Rightarrow> (image \<times> int \<times> int) list py" where
  "draw_cell tex b falling r c out =
     (if (c, r) \<in> set falling then Inr out
      else py_bind (grid_get (grid b) r c) (\<lambda>v. case v of
        None \<Rightarrow> Inr out
      | Some k \<Rightarrow> py_bind (dict_get tex k) (\<lambda>im. Inr (out @ [(im, cell_pos b (c, r))]))))"

definition draw_cells :: "textures \<Rightarrow> board \<Rightarrow> (image \<times> int \<times> int) list py" where
  "draw_cells tex b =
     py_bind (falling_cells b) (\<lambda>falling.
     py_bind (py_for (\<lambda>r. py_for (draw_cell tex b falling r) [0..BOARD_COLS - 1]) [0..BOARD_ROWS - 1] []) (\<lambda>out.
     case current_tetromino b of
       None \<Rightarrow> Inr out
     | Some t \<Rightarrow> py_bind (dict_get tex (shape_key t)) (\<lambda>im. Inr (out @ map (\<lambda>p. (im, cell_pos b p)) falling))))"

text \<open>The copies are drawn with the alpha value 80.\<close>

definition draw_landing_blocks :: "textures \<Rightarrow> board \<Rightarrow> (image \<times> int \<times> int) list py" where
  "draw_landing_blocks tex b =
     py_bind (make_landing_tetromino b) (\<lambda>landing. case (landing, current_tetromino b) of
       (Some l, Some t) \<Rightarrow>
         if tet_y l = tet_y t then Inr []
         else py_bind (dict_get tex (shape_key l)) (\<lambda>im. py_bind (blocks l) (\<lambda>bs.
           Inr (map (\<lambda>p. (im, cell_pos b p)) bs)))
     | _ \<Rightarrow> Inr [])"

definition preview_pos :: "int \<Rightarrow> int \<Rightarrow> int \<Rightarrow> int list \<Rightarrow> int \<Rightarrow> int" where
  "preview_pos start extent cl xs c =
     (let lo = Min (set xs); hi = Max (set xs); shape_w = (hi - lo + 1) * cl;
          off = of_int start + of_int (extent - shape_w) / 2 - of_int (lo * cl)
      in py_trunc (off + of_int (c * cl)))"

definition draw_preview :: "textures \<Rightarrow> board \<Rightarrow> (image \<times> int \<times> int) list py" where
  "draw_preview tex b = (case next_tetromino_shape b of
     None \<Rightarrow> Inr []
   | Some k \<Rightarrow> py_bind (dict_get SHAPES k) (\<lambda>rots. py_bind (py_get rots 0) (\<lambda>cs. py_bind (dict_get tex k) (\<lambda>im.
       let r = preview_rect b; cl = cell_length b in
       Inr (map (\<lambda>(x, y). (im, preview_pos (rect_x r) (rect_w r) cl (map fst cs) x,
         preview_pos (rect_y r) (rect_h r) cl (map snd cs) y)) cs)))))"

definition draw_game :: "textures \<Rightarrow> board \<Rightarrow> ((image \<times> int \<times> int) list \<times> (image \<times> int \<times> int) list) py" where
  "draw_game tex b = py_bind (draw_cells tex b) (\<lambda>cs. py_bind (draw_landing_blocks tex b) (\<lambda>ls. Inr (cs, ls)))"

subsection \<open>What is shown\<close>

text \<open>The piece a cell of the board shows: the falling one first, then the grid's.\<close>

definition shown_cell :: "board \<Rightarrow> int \<times> int \<Rightarrow> shape option" where
  "shown_cell b = (\<lambda>(c, r). case falling_cells b of
     Inl e \<Rightarrow> None
   | Inr falling \<Rightarrow>
       if (c, r) \<in> set falling then map_option shape_key (current_tetromino b)
       else if 0 \<le> c \<and> c < 10 \<and> 0 \<le> r \<and> r < 25 then cell_at (grid b) (nat r) (nat c) else None)"

lemma py_for_collect:
  "(\<And>x out. x \<in> set xs \<Longrightarrow> f x out = Inr (out @ g x)) \<Longrightarrow> py_for f xs out = Inr (out @ concat (map g xs))"
  by (induction xs arbitrary: out) simp_all

definition cell_images :: "textures \<Rightarrow> board \<Rightarrow> cells \<Rightarrow> int \<Rightarrow> int \<Rightarrow> (image \<times> int \<times> int) list" where
  "cell_images tex b falling r c =
     (if (c, r) \<in> set falling then [] else case cell_at (grid b) (nat r) (nat c) of
        None \<Rightarrow> [] | Some k \<Rightarrow> [(the (map_of tex k), cell_pos b (c, r))])"

lemma draw_cell_images:
  assumes "wf_grid (grid b)" "\<And>k. map_of tex k \<noteq> None" "0 \<le> r" "r < 25" "0 \<le> c" "c < 10"
  shows "draw_cell tex b falling r c out = Inr (out @ cell_images tex b falling r c)"
proof -
  have i: "py_index 25 r = Some (nat r)" "py_index 10 c = Some (nat c)"
    using assms(3-6) by (simp_all add: py_index_def)
  have "dict_get tex k = Inr (the (map_of tex k))" for k using assms(2) [of k] by (auto simp: dict_get_def)
  with grid_get_Inr [OF assms(1) i] show ?thesis
    by (cases "cell_at (grid b) (nat r) (nat c)") (simp_all add: draw_cell_def cell_images_def)
qed

lemma draw_cells_eq:
  assumes "wf_grid (grid b)" "\<And>k. map_of tex k \<noteq> None" "falling_cells b = Inr falling"
  shows "draw_cells tex b = Inr (concat (map (\<lambda>r. concat (map (cell_images tex b falling r) [0..9])) [0..24]) @
     (case current_tetromino b of None \<Rightarrow> [] | Some t \<Rightarrow> map (\<lambda>p. (the (map_of tex (shape_key t)), cell_pos b p)) falling))"
proof -
  have "py_for (\<lambda>r. py_for (draw_cell tex b falling r) [0..9]) [0..24] [] =
      Inr ([] @ concat (map (\<lambda>r. concat (map (cell_images tex b falling r) [0..9])) [0..24]))"
    by (intro py_for_collect draw_cell_images [OF assms(1,2)]) auto
  moreover have "dict_get tex k = Inr (the (map_of tex k))" for k using assms(2) [of k] by (auto simp: dict_get_def)
  ultimately show ?thesis using assms(3)
    by (cases "current_tetromino b") (simp_all only: draw_cells_def board_consts py_bind_Inr append_Nil append_Nil2
      option.case add_Suc_right, simp_all)
qed

lemma cell_pos_inj: "0 < cell_length b \<Longrightarrow> cell_pos b p = cell_pos b q \<Longrightarrow> p = q"
  by (cases p; cases q) (simp add: cell_pos_def)

lemma concat_pairs:
  "concat (map (\<lambda>r. concat (map (g r) xs)) ys) = concat (map (\<lambda>(c, r). g r c) (concat (map (\<lambda>r. map (\<lambda>c. (c, r)) xs) ys)))"
  by (induction ys) (simp_all add: comp_def)

lemma distinct_images:
  fixes f :: "'p \<Rightarrow> 'b"
  assumes "\<And>p. snd ` set (g p) \<subseteq> {f p}" "\<And>p. distinct (map snd (g p))" "inj f" "distinct ps"
  shows "distinct (map snd (concat (map g ps)))"
  using assms(4)
proof (induction ps)
  case (Cons p ps)
  have apart: "A \<subseteq> {a} \<Longrightarrow> B \<subseteq> S \<Longrightarrow> a \<notin> S \<Longrightarrow> A \<inter> B = {}" for A B S and a :: 'b by blast
  have rest: "snd ` set (concat (map g ps)) \<subseteq> f ` set ps" using assms(1) by fastforce
  from Cons.prems assms(3) have "f p \<notin> f ` set ps" by (auto dest: injD)
  from apart [OF assms(1) [of p] rest this] have "snd ` set (g p) \<inter> snd ` set (concat (map g ps)) = {}" .
  with Cons assms(2) [of p] show ?case by simp
qed simp

lemma cell_images_distinct:
  assumes "0 < cell_length b"
  shows "distinct (map snd (concat (map (\<lambda>r. concat (map (cell_images tex b falling r) [0..9])) [0..24])))"
proof -
  let ?ps = "concat (map (\<lambda>r. map (\<lambda>c. (c, r)) [0..9]) [0..24]) :: (int \<times> int) list"
  have "inj (\<lambda>r. map (\<lambda>c. (c, r)) [0..9::int])"
    by (rule injI, drule arg_cong [of _ _ hd]) (simp add: upto.simps)
  then have "distinct ?ps" by (intro distinct_concat) (auto simp: distinct_map inj_on_def)
  moreover have "concat (map (\<lambda>r. concat (map (cell_images tex b falling r) [0..9])) [0..24]) =
      concat (map (\<lambda>(c, r). cell_images tex b falling r c) ?ps)"
    by (rule concat_pairs)
  moreover have "distinct ?ps \<Longrightarrow> distinct (map snd (concat (map (\<lambda>(c, r). cell_images tex b falling r c) ?ps)))"
    by (rule distinct_images [where f = "cell_pos b"])
      (auto simp: cell_images_def inj_def split: option.split dest: cell_pos_inj [OF assms])
  ultimately show ?thesis by simp
qed

lemma falling_cells_ok:
  assumes "\<And>t. current_tetromino b = Some t \<Longrightarrow> wf_tetromino t"
  shows "\<exists>falling. falling_cells b = Inr falling \<and> distinct falling"
proof (cases "current_tetromino b")
  case (Some t)
  from assms [OF Some] obtain cs where cs: "good_cells cs"
    "blocks t = Inr (map (\<lambda>(cx, cy). (tet_x t + cx, tet_y t + cy)) cs)" by (rule blocks_wf)
  have "distinct (map (\<lambda>(cx, cy). (tet_x t + cx, tet_y t + cy)) cs)"
    using cs(1) by (auto simp: good_cells_def distinct_map inj_on_def)
  with cs(2) Some show ?thesis by (simp add: falling_cells_def)
qed (simp add: falling_cells_def)

lemma cell_images_set:
  "x \<in> set (concat (map (\<lambda>r. concat (map (cell_images tex b falling r) [0..9])) [0..24])) \<longleftrightarrow>
     (\<exists>c r k. 0 \<le> c \<and> c < 10 \<and> 0 \<le> r \<and> r < 25 \<and> (c, r) \<notin> set falling \<and> cell_at (grid b) (nat r) (nat c) = Some k \<and>
       x = (the (map_of tex k), cell_pos b (c, r)))"
proof -
  have "x \<in> set (cell_images tex b falling r c) \<longleftrightarrow>
      (\<exists>k. (c, r) \<notin> set falling \<and> cell_at (grid b) (nat r) (nat c) = Some k \<and> x = (the (map_of tex k), cell_pos b (c, r)))" for r c
    by (cases "cell_at (grid b) (nat r) (nat c)") (auto simp: cell_images_def)
  then show ?thesis by (fastforce simp: Bex_def)
qed

text \<open>
  The board shows what it holds, and nothing twice: with a texture for every piece, drawing the cells
  does not raise, every cell that holds a piece, the falling one included, is drawn at its place with
  that piece's texture, nothing else is drawn, and no two images are drawn at the same place.
\<close>

theorem board_drawn:
  assumes "wf_grid (grid b)" "\<And>t. current_tetromino b = Some t \<Longrightarrow> wf_tetromino t" "0 < cell_length b"
    and "\<And>k. map_of tex k \<noteq> None"
  shows "\<exists>out. draw_cells tex b = Inr out \<and> distinct (map snd out) \<and>
    (\<forall>im p. (im, p) \<in> set out \<longleftrightarrow> (\<exists>q k. p = cell_pos b q \<and> shown_cell b q = Some k \<and> map_of tex k = Some im))"
proof -
  from falling_cells_ok [OF assms(2)] obtain falling where f: "falling_cells b = Inr falling" "distinct falling" by blast
  let ?A = "concat (map (\<lambda>r. concat (map (cell_images tex b falling r) [0..9])) [0..24])"
    and ?B = "case current_tetromino b of None \<Rightarrow> [] | Some t \<Rightarrow> map (\<lambda>p. (the (map_of tex (shape_key t)), cell_pos b p)) falling"
  note out = draw_cells_eq [OF assms(1,4) f(1)]
  have tex: "map_of tex k = Some im \<longleftrightarrow> im = the (map_of tex k)" for k im using assms(4) [of k] by auto
  have none: "falling = []" if "current_tetromino b = None" using f(1) that by (simp add: falling_cells_def)
  have B: "x \<in> set ?B \<longleftrightarrow> (\<exists>q t. q \<in> set falling \<and> current_tetromino b = Some t \<and> x = (the (map_of tex (shape_key t)), cell_pos b q))" for x
    by (cases "current_tetromino b") auto
  have posB: "map snd ?B = map (cell_pos b) falling" using none by (auto split: option.split)
  have "distinct (map snd ?B)"
    unfolding posB using f(2) cell_pos_inj [OF assms(3)] by (auto simp: distinct_map inj_on_def)
  moreover have "set (map snd ?A) \<inter> set (map snd ?B) = {}"
    unfolding posB using cell_pos_inj [OF assms(3)] by (auto simp: cell_images_set simp del: set_concat) blast
  ultimately have "distinct (map snd (?A @ ?B))" using cell_images_distinct [OF assms(3)] by simp
  moreover have "(im, p) \<in> set (?A @ ?B) \<longleftrightarrow> (\<exists>q k. p = cell_pos b q \<and> shown_cell b q = Some k \<and> map_of tex k = Some im)" for im p
  proof
    assume "(im, p) \<in> set (?A @ ?B)"
    then show "\<exists>q k. p = cell_pos b q \<and> shown_cell b q = Some k \<and> map_of tex k = Some im"
      unfolding set_append Un_iff cell_images_set B tex by (elim disjE exE conjE) (auto simp: shown_cell_def f(1))
  next
    assume "\<exists>q k. p = cell_pos b q \<and> shown_cell b q = Some k \<and> map_of tex k = Some im"
    then obtain c r k where h: "p = cell_pos b (c, r)" "shown_cell b (c, r) = Some k" "im = the (map_of tex k)"
      unfolding tex by auto
    show "(im, p) \<in> set (?A @ ?B)"
    proof (cases "(c, r) \<in> set falling")
      case True
      with h(2) f(1) obtain t where "current_tetromino b = Some t" "k = shape_key t" by (auto simp: shown_cell_def)
      with True h(1,3) show ?thesis unfolding set_append Un_iff B by blast
    next
      case False
      with h(2) f(1) have "0 \<le> c" "c < 10" "0 \<le> r" "r < 25" "cell_at (grid b) (nat r) (nat c) = Some k"
        by (auto simp: shown_cell_def split: if_splits)
      with False h(1,3) show ?thesis unfolding set_append Un_iff cell_images_set by blast
    qed
  qed
  ultimately show ?thesis using out by blast
qed

text \<open>
  The preview shows the next piece whole and inside its box: whichever piece comes next, each of its
  four cells is drawn with that piece's texture, within the preview rectangle.
\<close>

lemma preview_inside:
  assumes "0 \<le> start" "0 \<le> cl" "xs \<noteq> []" "list_all (\<lambda>c. 0 \<le> c \<and> c \<le> 3) xs" "c \<in> set xs"
  shows "start \<le> preview_pos start (5 * cl) cl xs c \<and> preview_pos start (5 * cl) cl xs c + cl \<le> start + 5 * cl"
proof -
  define lo hi where "lo = Min (set xs)" and "hi = Max (set xs)"
  have lohi: "0 \<le> lo" "lo \<le> c" "c \<le> hi" "hi \<le> 3"
    using assms(3-5) by (auto simp: lo_def hi_def list_all_iff Min_ge_iff Max_le_iff)
  define y :: rat where "y = of_int (5 * cl - (hi - lo + 1) * cl) / 2 + of_int ((c - lo) * cl)"
  let ?u = "4 + (c - lo) - (hi - c)"
  have "1 \<le> ?u" "?u \<le> 7" using lohi by linarith+
  then have "0 \<le> cl * ?u" "cl * ?u \<le> cl * 7" using assms(2) by (simp_all add: mult_left_mono)
  then have "0 \<le> (of_int (cl * ?u) :: rat)" "(of_int (cl * ?u) :: rat) \<le> of_int (cl * 7)"
    by (simp_all only: of_int_0_le_iff of_int_le_iff)
  moreover have "2 * y = of_int (cl * ?u)" by (simp add: y_def field_simps)
  moreover have "0 \<le> (of_int cl :: rat)" using assms(2) by simp
  ultimately have y: "0 \<le> y" "y + of_int cl \<le> of_int (5 * cl)" by simp_all
  have "preview_pos start (5 * cl) cl xs c = py_trunc (of_int start + y)"
    by (simp add: preview_pos_def lo_def [symmetric] hi_def [symmetric] y_def field_simps Let_def)
  then show ?thesis using y assms(1,2) by (simp add: py_trunc_def) linarith
qed

theorem preview_shown:
  assumes "next_tetromino_shape b = Some k" "k \<noteq> KG" "0 \<le> cell_length b" "map_of tex k = Some im"
    and "preview_rect b = \<lparr>rect_x = x, rect_y = y, rect_w = cell_length b * PREVIEW_COLS, rect_h = cell_length b * PREVIEW_COLS\<rparr>"
    and "0 \<le> x" "0 \<le> y"
  shows "\<exists>out. draw_preview tex b = Inr out \<and> length out = 4 \<and>
    list_all (\<lambda>(i, px, py). i = im \<and> x \<le> px \<and> px + cell_length b \<le> x + rect_w (preview_rect b) \<and>
      y \<le> py \<and> py + cell_length b \<le> y + rect_h (preview_rect b)) out"
proof -
  have "\<exists>rots. map_of SHAPES k = Some rots" using assms(2) by (cases k) (simp_all add: SHAPES_def)
  then obtain rots where r: "map_of SHAPES k = Some rots" ..
  with SHAPES_good have rots: "rots \<noteq> []" "list_all good_cells rots" by (auto dest!: map_of_SomeD)
  define cs where "cs = rots ! 0"
  have cs: "good_cells cs" "py_get rots 0 = Inr cs"
    using rots by (simp_all add: cs_def list_all_length py_get_def py_index_def)
  from cs(1) have cells: "cs \<noteq> []" "length cs = 4" "list_all (\<lambda>c. 0 \<le> c \<and> c \<le> 3) (map fst cs)"
    "list_all (\<lambda>c. 0 \<le> c \<and> c \<le> 3) (map snd cs)"
    by (auto simp: good_cells_def list_all_iff)
  let ?cl = "cell_length b"
  have inside: "x \<le> preview_pos x (5 * ?cl) ?cl (map fst cs) px \<and> preview_pos x (5 * ?cl) ?cl (map fst cs) px + ?cl \<le> x + 5 * ?cl"
    "y \<le> preview_pos y (5 * ?cl) ?cl (map snd cs) py \<and> preview_pos y (5 * ?cl) ?cl (map snd cs) py + ?cl \<le> y + 5 * ?cl"
    if "(px, py) \<in> set cs" for px py
    using that cells assms(3,6,7) by (intro preview_inside; force)+
  show ?thesis
    using assms(1,4,5) r cs(2) cells(2) inside
    by (auto simp: draw_preview_def dict_get_def PREVIEW_COLS_def list_all_iff mult.commute Let_def)
qed

end
