(* ===== verification/Rooms.thy ===== *)
theory Rooms
  imports Scenes
begin

text \<open>
  The two scenes in which a game runs: \<open>SinglePlayState\<close>
  (\<^verbatim>\<open>client/tetris/states/single_play_state.py\<close>) and \<open>MultiPlayState\<close>
  (\<^verbatim>\<open>client/tetris/states/multi_play_state.py\<close>). Music is not modelled;
  what the scenes draw is in \<open>SceneDraw\<close>.
\<close>

subsection \<open>Layout shared by the two scenes\<close>

definition INFO_HEADER_WIDTH :: rat where "INFO_HEADER_WIDTH = 2 / 10"
definition INFO_HEADER_HEIGHT :: rat where "INFO_HEADER_HEIGHT = 5 / 100"
definition PADDING_WIDTH_RATE :: rat where "PADDING_WIDTH_RATE = 1 / 10"
definition BOARD_WIDTH_RATE :: rat where "BOARD_WIDTH_RATE = 4 / 10"
definition BOARD_HEIGHT_RATE :: rat where "BOARD_HEIGHT_RATE = 9 / 10"
definition MENU_WIDTH :: int where "MENU_WIDTH = 200"
definition MENU_HEIGHT :: int where "MENU_HEIGHT = 100"

definition EXIT_TEXT :: pystr where "EXIT_TEXT = [0xB098, 0xAC00, 0xAE30]"
definition GIVEUP_TEXT :: pystr where "GIVEUP_TEXT = [0xD3EC, 0xAE30]"

definition title_text :: "pystr \<Rightarrow> pystr" where
  "title_text title = [0xBC29, 32, 0xC81C, 0xBAA9, 58, 32] @ title"

definition password_text :: "pystr option \<Rightarrow> pystr" where
  "password_text pw = (case pw of None \<Rightarrow> [0xBE44, 0xBC00, 0xBC88, 0xD638, 58, 32, 0xC5C6, 0xC74C] | Some p \<Rightarrow> [0xBE44, 0xBC00, 0xBC88, 0xD638, 58, 32] @ p)"

definition exit_rect :: rect where
  "exit_rect = \<lparr>rect_x = fst screen_size - MENU_WIDTH, rect_y = 0, rect_w = MENU_WIDTH, rect_h = MENU_HEIGHT\<rparr>"

text \<open>\<open>TetrisSession(...)\<close> with the heights its layout computes.\<close>

definition TetrisSession :: "rect \<Rightarrow> bool \<Rightarrow> tsession" where
  "TetrisSession r single =
     (let board_h = scaled (rect_h r) (9 / 10);
          v = valid_grid_rect (TetrisBoard (r\<lparr>rect_h := board_h\<rparr>))
      in tsession_layout board_h (scaled (rect_h v) (1 / 10)) r single)"

subsection \<open>Single play\<close>

record single_play_state = base_state +
  sp_title :: pystr
  sp_password :: "pystr option"
  tetris_session :: tsession
  sp_title_box :: pystr
  sp_password_box :: pystr
  sp_btn_exit :: button
  btn_giveup :: button

definition single_board_rect :: rect where
  "single_board_rect =
     (let (sw, sh) = screen_size;
          tetris_w = scaled sw BOARD_WIDTH_RATE;
          tetris_h = scaled sh BOARD_HEIGHT_RATE
      in \<lparr>rect_x = (sw - scaled tetris_w (66 / 100)) div 2, rect_y = scaled sh INFO_HEADER_HEIGHT,
          rect_w = tetris_w, rect_h = tetris_h\<rparr>)"

definition SinglePlayState :: "session \<Rightarrow> pystr \<Rightarrow> pystr option \<Rightarrow> single_play_state py" where
  "SinglePlayState se title password =
     py_bind (init_session se (TetrisSession single_board_rect True)) (\<lambda>ts. Inr
       (base_state.extend (BaseState se) (single_play_state.fields title password ts (title_text title)
         (password_text password) (Button exit_rect True EXIT_TEXT)
         (Button (exit_rect\<lparr>rect_x := rect_x exit_rect - MENU_WIDTH\<rparr>) True GIVEUP_TEXT))))"

definition single_clear :: "single_play_state \<Rightarrow> single_play_state py" where
  "single_clear s = py_bind (tsession_clear (tetris_session s)) (\<lambda>ts. Inr (s\<lparr>tetris_session := ts\<rparr>))"

definition single_ingame :: "s2c \<Rightarrow> single_play_state \<Rightarrow> single_play_state py" where
  "single_ingame p s = py_bind (handle_packet p (tetris_session s)) (\<lambda>ts. Inr (s\<lparr>tetris_session := ts\<rparr>))"

text \<open>
  \<open>tetris_session.session\<close> and \<open>self.session\<close> are one object: a write through the one is
  seen through the other.
\<close>

fun single_handle_packet :: "s2c \<Rightarrow> single_play_state \<Rightarrow> single_play_state py" where
  "single_handle_packet (P_SINGLE_START start_score) s =
     Inr (s\<lparr>tetris_session := set_state PLAY (set_score start_score (tetris_session s))\<rparr>)"
| "single_handle_packet (P_DELETE_USER i) s = (case ts_session (tetris_session s) of
     None \<Rightarrow> Inl AttributeError
   | Some se \<Rightarrow> Inr (if i = s_id se then queue_state To_lobby s else s))"
| "single_handle_packet (P_GAMEOVER i) s =
     py_bind (process_gameover (tetris_session s)) (\<lambda>ts. Inr (s\<lparr>tetris_session := ts\<rparr>))"
| "single_handle_packet (P_UPDATE_SCORE new_max) s = (case ts_session (tetris_session s) of
     None \<Rightarrow> Inl AttributeError
   | Some se \<Rightarrow> let se = se\<lparr>max_score := new_max\<rparr> in
       Inr (s\<lparr>tetris_session := (tetris_session s)\<lparr>ts_session := Some se\<rparr>, my_session := se\<rparr>))"
| "single_handle_packet (P_MOVE i m) s = single_ingame (P_MOVE i m) s"
| "single_handle_packet (P_SPAWN i t n x y) s = single_ingame (P_SPAWN i t n x y) s"
| "single_handle_packet (P_FIX i x y) s = single_ingame (P_FIX i x y) s"
| "single_handle_packet (P_CLEARLINE i l c sc) s = single_ingame (P_CLEARLINE i l c sc) s"
| "single_handle_packet (P_ADDLINE i h) s = single_ingame (P_ADDLINE i h) s"
| "single_handle_packet _ s = Inr s"

definition single_handle_event :: "collide \<Rightarrow> event \<Rightarrow> single_play_state \<Rightarrow> single_play_state py" where
  "single_handle_event collide ev s =
     (let (res, ts) = tsession_handle_event collide ev (tetris_session s);
          s = s\<lparr>tetris_session := ts\<rparr> in
      py_bind (if res = Some A_start then send Start s else Inr s) (\<lambda>s.
      let (leave, b) = button_handle_event collide ev (sp_btn_exit s); s = s\<lparr>sp_btn_exit := b\<rparr> in
      py_bind (if leave then send Delete_user s else Inr s) (\<lambda>s.
        if ts_state (tetris_session s) = PLAY then
          let (giveup, b) = button_handle_event collide ev (btn_giveup s); s = s\<lparr>btn_giveup := b\<rparr> in
          if giveup then send Giveup s else Inr s
        else Inr s)))"

definition single_update :: "collide \<Rightarrow> rat \<Rightarrow> event list \<Rightarrow> single_play_state
    \<Rightarrow> (scene option \<times> single_play_state) py" where
  "single_update collide dt_ms events s =
     py_bind (py_for (single_handle_event collide) events s) (\<lambda>s.
     py_bind (tsession_update dt_ms (tetris_session s)) (\<lambda>(moves, ts).
     py_bind (send_all (map (\<lambda>m. Move (move_code m)) moves) (s\<lparr>tetris_session := ts\<rparr>)) (\<lambda>s.
       Inr (consume_state (update_fade dt_ms s)))))"

subsection \<open>Multiplayer room\<close>

datatype RoomState = R_WAIT | R_PLAY

record multi_play_state = base_state +
  mp_title :: pystr
  mp_password :: "pystr option"
  max_player :: int
  players :: "tsession list"
  mp_title_box :: pystr
  mp_password_box :: pystr
  mp_btn_exit :: "button option"
  room_state :: RoomState
  mp_error_popup :: "popup option"
  winner_popup :: "popup option"
  mp_reactable :: bool
  host_index :: int

definition left_board_rect :: rect where
  "left_board_rect =
     (let (sw, sh) = screen_size;
          half_padding = \<lfloor>of_int sw * PADDING_WIDTH_RATE / 2\<rfloor>;
          tetris_w = scaled sw BOARD_WIDTH_RATE;
          tetris_h = scaled sh BOARD_HEIGHT_RATE
      in \<lparr>rect_x = (sw div 2) - half_padding - tetris_w, rect_y = scaled sh INFO_HEADER_HEIGHT,
          rect_w = tetris_w, rect_h = tetris_h\<rparr>)"

definition right_board_rect :: rect where
  "right_board_rect =
     (let (sw, sh) = screen_size; half_padding = \<lfloor>of_int sw * PADDING_WIDTH_RATE / 2\<rfloor>
      in left_board_rect\<lparr>rect_x := (sw div 2) + half_padding\<rparr>)"

definition layout_2player :: "session \<Rightarrow> tsession list py" where
  "layout_2player se = py_bind (init_session se (TetrisSession left_board_rect False)) (\<lambda>p1.
     Inr [p1, TetrisSession right_board_rect False])"

definition layout_5player :: "session \<Rightarrow> tsession list py" where
  "layout_5player se = py_bind (layout_2player se) (\<lambda>ps.
     let right_rect = ts_rect (last ps);
         sub_w = rect_w right_rect div 2; sub_h = rect_h right_rect div 2
     in Inr (butlast ps @ map (\<lambda>(row, col). TetrisSession
          \<lparr>rect_x = rect_x right_rect + sub_w * col, rect_y = rect_y right_rect + sub_h * row,
           rect_w = sub_w, rect_h = sub_h\<rparr> False) [(0, 0), (0, 1), (1, 0), (1, 1)]))"

text \<open>With another number of players \<open>set_layout\<close> passes: no player and no button is made.\<close>

definition MultiPlayState :: "session \<Rightarrow> pystr \<Rightarrow> int \<Rightarrow> pystr option \<Rightarrow> multi_play_state py" where
  "MultiPlayState se title maxp password =
     py_bind (if maxp = 2 then layout_2player se else if maxp = 5 then layout_5player se else Inr []) (\<lambda>ps.
       Inr (base_state.extend (BaseState se) (multi_play_state.fields title password maxp ps (title_text title)
         (password_text password)
         (if maxp = 2 \<or> maxp = 5 then Some (Button exit_rect True EXIT_TEXT) else None)
         R_WAIT None None True (-1))))"

definition has_id :: "int \<Rightarrow> tsession \<Rightarrow> bool" where
  "has_id i p = (case ts_session p of None \<Rightarrow> False | Some se \<Rightarrow> s_id se = i)"

definition self_player :: "tsession \<Rightarrow> bool" where
  "self_player p = (case ts_session p of None \<Rightarrow> False | Some se \<Rightarrow> is_self se)"

text \<open>\<open>for player in self.players: if ...: ...; break\<close> stops at the first player that satisfies the test.\<close>

definition first_player :: "(tsession \<Rightarrow> bool) \<Rightarrow> multi_play_state \<Rightarrow> nat option" where
  "first_player P s = List.find (\<lambda>k. P (players s ! k)) [0..<length (players s)]"

definition set_player :: "nat \<Rightarrow> tsession \<Rightarrow> multi_play_state \<Rightarrow> multi_play_state" where
  "set_player k p s = s\<lparr>players := (players s)[k := p]\<rparr>"

definition with_player :: "int \<Rightarrow> (tsession \<Rightarrow> tsession py) \<Rightarrow> multi_play_state \<Rightarrow> multi_play_state py" where
  "with_player i f s = (case first_player (has_id i) s of
     None \<Rightarrow> Inr s
   | Some k \<Rightarrow> py_bind (f (players s ! k)) (\<lambda>p. Inr (set_player k p s)))"

definition for_players :: "(nat \<Rightarrow> tsession \<Rightarrow> multi_play_state \<Rightarrow> multi_play_state py)
    \<Rightarrow> multi_play_state \<Rightarrow> multi_play_state py" where
  "for_players f s = py_for (\<lambda>k s. f k (players s ! k) s) [0..<length (players s)] s"

definition reset_room :: "multi_play_state \<Rightarrow> multi_play_state py" where
  "reset_room = for_players (\<lambda>k p s.
     if ts_session p = None then Inr s
     else py_bind (tsession_reset p) (\<lambda>p. Inr (set_player k p s)))"

definition add_user :: "session \<Rightarrow> multi_play_state \<Rightarrow> multi_play_state py" where
  "add_user se s =
     (if first_player (has_id (s_id se)) s \<noteq> None then Inr s
      else case first_player (\<lambda>p. ts_session p = None) s of
        None \<Rightarrow> Inr s
      | Some k \<Rightarrow> py_bind (init_session se (players s ! k)) (\<lambda>p.
          let s = set_player k p s in
          if host_index s \<noteq> -1 then
            py_bind (py_get (players s) (host_index s)) (\<lambda>h.
              Inr (if self_player h then set_player k (make_btn_kick p) s else s))
          else Inr s))"

definition find_host_index :: "multi_play_state \<Rightarrow> int" where
  "find_host_index s = (case first_player is_host s of None \<Rightarrow> -1 | Some k \<Rightarrow> int k)"

definition update_host :: "int \<Rightarrow> multi_play_state \<Rightarrow> multi_play_state py" where
  "update_host new_host_id s =
     py_bind (case first_player (has_id new_host_id) s of
         None \<Rightarrow> Inr s
       | Some k \<Rightarrow> py_bind (set_is_host (players s ! k)) (\<lambda>p. Inr (set_player k p s\<lparr>host_index := int k\<rparr>)))
       (\<lambda>s. py_bind (py_get (players s) (host_index s)) (\<lambda>h. case ts_session h of
         None \<Rightarrow> Inl AttributeError
       | Some se \<Rightarrow>
           if is_self se then
             for_players (\<lambda>k p s. Inr (if ts_session p \<noteq> None \<and> int k \<noteq> host_index s
               then set_player k (make_btn_kick p) s else s)) s
           else Inr s))"

definition delete_player :: "int \<Rightarrow> multi_play_state \<Rightarrow> multi_play_state py" where
  "delete_player i s = (case first_player (has_id i) s of
     None \<Rightarrow> Inr s
   | Some k \<Rightarrow>
       if self_player (players s ! k) then Inr (queue_state To_lobby s)
       else py_bind (tsession_clear (players s ! k)) (\<lambda>p. Inr (set_player k (set_nickname [] p) s)))"

definition popup_of :: "pystr \<Rightarrow> popup py" where
  "popup_of message = PopupBox screen_size message [OK_TEXT] None None None None"

definition WIN_TEXT :: pystr where "WIN_TEXT = [32, 0xC2B9, 0xB9AC, 33]"

definition game_end :: "int \<Rightarrow> multi_play_state \<Rightarrow> multi_play_state py" where
  "game_end winner_id s =
     (let winner_nickname = (case first_player (has_id winner_id) s of
            None \<Rightarrow> [63]
          | Some k \<Rightarrow> (case ts_session (players s ! k) of None \<Rightarrow> [63] | Some se \<Rightarrow> nickname se))
      in py_bind (reset_room s) (\<lambda>s.
         py_bind (popup_of (winner_nickname @ WIN_TEXT)) (\<lambda>p.
           Inr (s\<lparr>winner_popup := Some p, mp_reactable := False\<rparr>))))"

text \<open>The record is the object \<open>self.session\<close> of the own player, see \<open>single_handle_packet\<close>.\<close>

definition match_record :: "int \<Rightarrow> int \<Rightarrow> multi_play_state \<Rightarrow> multi_play_state py" where
  "match_record win_count lose_count s = (case first_player self_player s of
     None \<Rightarrow> Inr s
   | Some k \<Rightarrow> (case ts_session (players s ! k) of
       None \<Rightarrow> Inr s
     | Some se \<Rightarrow> let se = se\<lparr>win := win_count, lose := lose_count\<rparr> in
         Inr (set_player k ((players s ! k)\<lparr>ts_session := Some se\<rparr>) s\<lparr>my_session := se\<rparr>)))"

fun multi_handle_packet :: "s2c \<Rightarrow> multi_play_state \<Rightarrow> multi_play_state py" where
  "multi_handle_packet (P_ERROR code) s =
     py_bind (dict_get ERROR_MESSAGES code) (\<lambda>error_message.
     py_bind (popup_of error_message) (\<lambda>p.
       Inr (s\<lparr>mp_error_popup := Some p, mp_reactable := False\<rparr>)))"
| "multi_handle_packet P_MULTI_START s =
     for_players (\<lambda>k p s. Inr (if ts_session p = None then s else set_player k (set_state PLAY p) s))
       (s\<lparr>room_state := R_PLAY\<rparr>)"
| "multi_handle_packet (P_UPDATE_HOST new_host_id) s = update_host new_host_id s"
| "multi_handle_packet (P_ADD_USER i name) s = add_user (set_is_not_my_session i name Session) s"
| "multi_handle_packet (P_READY i is_ready) s = with_player i (set_ready is_ready) s"
| "multi_handle_packet (P_DELETE_USER i) s = delete_player i s"
| "multi_handle_packet (P_GAMEOVER i) s = with_player i process_gameover s"
| "multi_handle_packet (P_GAMEEND winner_id) s = game_end winner_id s"
| "multi_handle_packet (P_MATCH_RECORD w l) s = match_record w l s"
| "multi_handle_packet (P_MOVE i m) s = with_player i (handle_packet (P_MOVE i m)) s"
| "multi_handle_packet (P_SPAWN i t n x y) s = with_player i (handle_packet (P_SPAWN i t n x y)) s"
| "multi_handle_packet (P_FIX i x y) s = with_player i (handle_packet (P_FIX i x y)) s"
| "multi_handle_packet (P_CLEARLINE i l c sc) s = with_player i (handle_packet (P_CLEARLINE i l c sc)) s"
| "multi_handle_packet (P_ADDLINE i h) s = with_player i (handle_packet (P_ADDLINE i h)) s"
| "multi_handle_packet _ s = Inr s"

definition multi_popups :: "collide \<Rightarrow> event \<Rightarrow> multi_play_state \<Rightarrow> multi_play_state" where
  "multi_popups collide ev s =
     (if mp_reactable s then s
      else case mp_error_popup s of
        Some p \<Rightarrow> (let (res, p) = popup_handle_event collide ev p in
          if res = Some OK_TEXT then s\<lparr>mp_error_popup := None, mp_reactable := True\<rparr>
          else s\<lparr>mp_error_popup := Some p\<rparr>)
      | None \<Rightarrow> (case winner_popup s of
          Some p \<Rightarrow> (let (res, p) = popup_handle_event collide ev p in
            if res = Some OK_TEXT then s\<lparr>winner_popup := None, mp_reactable := True\<rparr>
            else s\<lparr>winner_popup := Some p\<rparr>)
        | None \<Rightarrow> s))"

definition player_event :: "collide \<Rightarrow> event \<Rightarrow> nat \<Rightarrow> tsession \<Rightarrow> multi_play_state \<Rightarrow> multi_play_state py" where
  "player_event collide ev k p s =
     (if ts_session p = None then Inr s
      else let (res, p) = tsession_handle_event collide ev p; s = set_player k p s in
        case res of
          Some A_start \<Rightarrow> send Start s
        | Some A_ready \<Rightarrow> send Ready s
        | Some A_kick \<Rightarrow> (case ts_session p of
            None \<Rightarrow> Inl AttributeError | Some se \<Rightarrow> send (Kick (s_id se)) s)
        | None \<Rightarrow> Inr s)"

definition multi_handle_event :: "collide \<Rightarrow> event \<Rightarrow> multi_play_state \<Rightarrow> multi_play_state py" where
  "multi_handle_event collide ev s = for_players (player_event collide ev) (multi_popups collide ev s)"

definition multi_event :: "collide \<Rightarrow> event \<Rightarrow> multi_play_state \<Rightarrow> multi_play_state py" where
  "multi_event collide ev s = py_bind (multi_handle_event collide ev s) (\<lambda>s. case mp_btn_exit s of
     None \<Rightarrow> Inl AttributeError
   | Some b \<Rightarrow> let (leave, b) = button_handle_event collide ev b; s = s\<lparr>mp_btn_exit := Some b\<rparr> in
       if leave then send Delete_user s else Inr s)"

definition player_update :: "rat \<Rightarrow> nat \<Rightarrow> tsession \<Rightarrow> multi_play_state \<Rightarrow> multi_play_state py" where
  "player_update dt_ms k p s = py_bind (tsession_update dt_ms p) (\<lambda>(moves, p).
     send_all (map (\<lambda>m. Move (move_code m)) moves) (set_player k p s))"

definition multi_update :: "collide \<Rightarrow> rat \<Rightarrow> event list \<Rightarrow> multi_play_state
    \<Rightarrow> (scene option \<times> multi_play_state) py" where
  "multi_update collide dt_ms events s =
     py_bind (py_for (multi_event collide) events s) (\<lambda>s.
     py_bind (for_players (player_update dt_ms) s) (\<lambda>s.
       Inr (consume_state (update_fade dt_ms s))))"

end
