(* ===== verification/ListInv.thy ===== *)
theory ListInv
  imports Lists
begin

text \<open>
  The two lists of the lobby keep their view valid, and the user list implements a finite map from
  ids to nicknames and states.
\<close>

subsection \<open>What scrolling leaves alone\<close>

lemma scroll_user_fields [simp]:
  "user_infos (scroll_handle_event collide ev l) = user_infos l"
  "user_infos (set_scroll_len l) = user_infos l" "user_infos (set_scroll_info n l) = user_infos l"
  "user_infos (set_show_start_index l) = user_infos l" "user_infos (set_show_range n l) = user_infos l"
  "user_infos (scroll_clear n l) = user_infos l"
  by (cases ev) (simp_all add: scroll_ops set_show_range_def Let_def)

lemma scroll_room_fields [simp]:
  "rooms (scroll_handle_event collide ev l) = rooms l"
  "rooms (set_scroll_len l) = rooms l" "rooms (set_scroll_info n l) = rooms l"
  "rooms (set_show_start_index l) = rooms l" "rooms (set_show_range n l) = rooms l"
  "rooms (scroll_clear n l) = rooms l"
  by (cases ev) (simp_all add: scroll_ops set_show_range_def Let_def)

lemma wf_scroll_items [simp]:
  "wf_scroll n (l\<lparr>user_infos := us\<rparr>) = wf_scroll n l" "wf_scroll n (r\<lparr>rooms := rs\<rparr>) = wf_scroll n r"
  "wf_scroll n (r\<lparr>btn_refresh := b\<rparr>) = wf_scroll n r"
  "wf_frame (l\<lparr>user_infos := us\<rparr>) = wf_frame l" "wf_frame (r\<lparr>rooms := rs\<rparr>) = wf_frame r"
  by (simp_all add: wf_scroll_def wf_track_def wf_frame_def track_top_def track_bottom_def)

lemma items_len_nonneg: "0 \<le> user_items_len l" "0 \<le> room_items_len r"
  by (simp_all add: user_items_len_def room_items_len_def)

lemma wf_show_range: "wf_scroll n s \<Longrightarrow> 0 \<le> n \<Longrightarrow> wf_scroll n (set_show_range n s)"
  using show_range_ok by blast

subsection \<open>The user list as a map\<close>

definition user_entry :: "user_info \<Rightarrow> int \<times> pystr \<times> bool" where
  "user_entry u = (ui_id u, ui_nickname u, ui_state u)"

definition users_of :: "user_list \<Rightarrow> int \<rightharpoonup> pystr \<times> bool" where
  "users_of l = map_of (map user_entry (user_infos l))"

datatype user_op =
    User_add int pystr bool
  | User_delete int
  | User_update int pystr bool
  | User_update_state int bool
  | User_clear
  | User_event event
  | User_draw

fun user_step :: "collide \<Rightarrow> user_op \<Rightarrow> user_list \<Rightarrow> user_list py" where
  "user_step collide (User_add i nick st) l = Inr (user_list_add i nick st l)"
| "user_step collide (User_delete i) l = Inr (user_list_delete i l)"
| "user_step collide (User_update i nick st) l = Inr (user_list_update i nick st l)"
| "user_step collide (User_update_state i st) l = Inr (user_list_update_state i st l)"
| "user_step collide User_clear l = Inr (user_list_clear l)"
| "user_step collide (User_event ev) l = Inr (snd (user_list_handle_event collide ev l))"
| "user_step collide User_draw l = user_list_draw l"

text \<open>What each operation does to the map.\<close>

fun user_spec :: "user_op \<Rightarrow> (int \<rightharpoonup> pystr \<times> bool) \<Rightarrow> int \<rightharpoonup> pystr \<times> bool" where
  "user_spec (User_add i nick st) m = m(i \<mapsto> (nick, st))"
| "user_spec (User_delete i) m = m(i := None)"
| "user_spec (User_update i nick st) m = m(i := map_option (\<lambda>_. (nick, st)) (m i))"
| "user_spec (User_update_state i st) m = m(i := map_option (\<lambda>(nick, _). (nick, st)) (m i))"
| "user_spec User_clear m = Map.empty"
| "user_spec _ m = m"

definition wf_users :: "user_list \<Rightarrow> bool" where
  "wf_users l \<longleftrightarrow> wf_scroll (user_items_len l) l \<and> distinct (map ui_id (user_infos l))"

lemma user_setters [simp]:
  "ui_id (user_set_state st u) = ui_id u" "ui_id (user_set_nickname n u) = ui_id u" "ui_id (user_set_rect r u) = ui_id u"
  "user_entry (user_set_rect r u) = user_entry u" "ui_nickname (user_set_nickname n u) = n"
  "snd (user_entry u) = (ui_nickname u, ui_state u)"
  "user_entry (user_set_state st (user_set_nickname n u)) = (ui_id u, n, st)"
  "user_entry (user_set_state st u) = (ui_id u, ui_nickname u, st)"
  "user_entry (UserInfo r i n st) = (i, n, st)" "ui_id (UserInfo r i n st) = i"
  by (simp_all add: user_entry_def user_set_state_def user_set_nickname_def user_update_info_def user_set_rect_def
      UserInfo_def Let_def)

lemma map_update_first: "(\<And>u. g (f u) = g u) \<Longrightarrow> map g (update_first P f us) = map g us"
  by (induction us) auto

lemma map_of_update_first:
  assumes "\<And>u. user_entry (f u) = (ui_id u, h (snd (user_entry u)))"
  shows "map_of (map user_entry (update_first (\<lambda>u. ui_id u = i) f us)) =
    (map_of (map user_entry us))(i := map_option h (map_of (map user_entry us) i))"
proof (induction us)
  case (Cons u us)
  then show ?case using assms [of u] by (auto simp: user_entry_def fun_eq_iff)
qed auto

lemma map_of_user_None: "map_of (map user_entry us) i = None \<longleftrightarrow> i \<notin> ui_id ` set us"
  by (auto simp: map_of_eq_None_iff user_entry_def image_image)

lemma map_of_delete:
  assumes "distinct (map ui_id us)" "k < length us" "ui_id (us ! k) = i"
  shows "map_of (map user_entry (take k us @ drop (Suc k) us)) = (map_of (map user_entry us))(i := None)"
proof -
  have us: "us = take k us @ us ! k # drop (Suc k) us" using assms(2) by (rule id_take_nth_drop)
  with assms(1) have "distinct (map ui_id (take k us @ us ! k # drop (Suc k) us))" by metis
  then have "i \<notin> ui_id ` set (take k us)" "i \<notin> ui_id ` set (drop (Suc k) us)" using assms(3) by auto
  then have n: "map_of (map user_entry (take k us)) i = None" "map_of (map user_entry (drop (Suc k) us)) i = None"
    by (simp_all only: map_of_user_None not_False_eq_True)
  have "map_of (map user_entry us) = map_of (map user_entry (take k us @ us ! k # drop (Suc k) us))"
    using us by metis
  with n assms(3) show ?thesis by (auto simp: fun_eq_iff user_entry_def map_add_def split: option.splits)
qed

lemma distinct_delete: "distinct (map f us) \<Longrightarrow> distinct (map f (take k us @ drop (Suc k) us))"
proof (cases "k < length us")
  case True
  assume "distinct (map f us)"
  then have "distinct (map f (take k us @ us ! k # drop (Suc k) us))" using id_take_nth_drop [OF True] by metis
  then show ?thesis by auto
qed simp

lemma user_add_refines:
  assumes "wf_users l"
  shows "wf_users (user_list_add i nick st l) \<and> users_of (user_list_add i nick st l) = (users_of l)(i \<mapsto> (nick, st))"
proof (cases "i \<in> ui_id ` set (user_infos l)")
  case True
  then have "\<exists>v. map_of (map user_entry (user_infos l)) i = Some v"
    using map_of_user_None [of "user_infos l" i] by auto
  with True assms show ?thesis
    by (auto simp: user_list_add_def wf_users_def users_of_def user_items_len_def map_update_first
        map_of_update_first [where h = "\<lambda>_. (nick, st)"])
next
  case False
  let ?u = "UserInfo (user_row_rect l (user_items_len l mod show_lines l)) i nick st"
  let ?l = "l\<lparr>user_infos := user_infos l @ [?u]\<rparr>"
  have "wf_scroll (user_items_len l) ?l" using assms by (simp add: wf_users_def)
  then have "wf_scroll (user_items_len ?l) (resized (user_items_len ?l) ?l)"
    by (rule wf_resized_grow) (simp_all add: user_items_len_def)
  moreover have "users_of ?l = (users_of l)(i \<mapsto> (nick, st))"
    using False map_of_user_None [of "user_infos l" i]
    by (auto simp: users_of_def fun_eq_iff map_add_def split: option.splits)
  moreover have "user_list_add i nick st l = set_show_range (user_items_len ?l) (resized (user_items_len ?l) ?l)"
    using False by (auto simp: user_list_add_def update_show_user_infos_def resized_def user_items_len_def Let_def)
  ultimately show ?thesis using False assms
    by (auto simp: wf_users_def users_of_def user_items_len_def resized_def wf_show_range)
qed

lemma user_delete_refines:
  assumes "wf_users l"
  shows "wf_users (user_list_delete i l) \<and> users_of (user_list_delete i l) = (users_of l)(i := None)"
proof -
  let ?find = "List.find (\<lambda>k. ui_id (user_infos l ! k) = i) [0..<length (user_infos l)]"
  define l1 where "l1 = (case ?find of None \<Rightarrow> l | Some k \<Rightarrow> update_user_infos (int k)
    (l\<lparr>user_infos := take k (user_infos l) @ drop (Suc k) (user_infos l)\<rparr>))"
  have l1: "users_of l1 = (users_of l)(i := None) \<and> distinct (map ui_id (user_infos l1)) \<and> wf_frame l1"
  proof (cases ?find)
    case None
    then have "i \<notin> ui_id ` set (user_infos l)" by (auto simp: find_None_iff in_set_conv_nth)
    then have "users_of l i = None" unfolding users_of_def by (intro iffD2 [OF map_of_user_None])
    with None assms show ?thesis by (auto simp: l1_def wf_users_def dest: wf_scroll_frame)
  next
    case (Some k)
    then have k: "k < length (user_infos l)" "ui_id (user_infos l ! k) = i" by (auto simp: find_Some_iff)
    have "map user_entry (user_infos l1) = map user_entry (take k (user_infos l) @ drop (Suc k) (user_infos l))"
      "map ui_id (user_infos l1) = map ui_id (take k (user_infos l) @ drop (Suc k) (user_infos l))"
      using Some by (simp_all add: l1_def update_user_infos_def map_slice_map)
    moreover have "wf_frame l1" using assms Some
      by (auto simp: l1_def update_user_infos_def wf_users_def dest: wf_scroll_frame)
    ultimately show ?thesis
      using map_of_delete [OF _ k] distinct_delete [of ui_id "user_infos l" k] assms
      by (simp add: users_of_def wf_users_def)
  qed
  have "user_list_delete i l =
    set_show_range (user_items_len l1) (set_show_start_index (resized (user_items_len l1) l1))"
    by (simp add: user_list_delete_def Let_def l1_def [symmetric] resized_def update_show_user_infos_def user_items_len_def)
  with l1 wf_resized_start [of l1 "user_items_len l1"] show ?thesis
    by (simp add: wf_users_def users_of_def user_items_len_def resized_def wf_show_range)
qed

lemma user_event_refines:
  assumes "wf_users l"
  shows "wf_users (snd (user_list_handle_event collide ev l)) \<and>
    users_of (snd (user_list_handle_event collide ev l)) = users_of l"
  using assms wf_scroll_event [of "user_items_len l" l collide ev]
  by (simp add: user_list_handle_event_def update_show_user_infos_def wf_users_def users_of_def user_items_len_def
      wf_show_range Let_def)

text \<open>Drawing reads only users that exist, so it does not raise.\<close>

lemma user_draw_refines:
  assumes "wf_users l"
  shows "\<exists>l'. user_list_draw l = Inr l' \<and> wf_users l' \<and> users_of l' = users_of l"
proof -
  let ?n = "user_items_len l" and ?l = "set_show_range (user_items_len l) l"
  let ?P = "\<lambda>t. wf_users t \<and> users_of t = users_of l \<and> user_items_len t = ?n"
  have v: "view_ok ?n ?l" "wf_scroll ?n ?l" using show_range_ok [of ?n l] assms items_len_nonneg by (auto simp: wf_users_def)
  have "\<exists>l'. py_for (\<lambda>i t. user_draw_item i (rect_y (window_rect t) + (i - show_start t) * line_height t) t)
      [show_start ?l..show_end ?l - 1] ?l = Inr l' \<and> ?P l'"
  proof (rule py_for_defined)
    show "?P ?l" using v(2) assms by (simp add: wf_users_def users_of_def user_items_len_def)
    fix i t assume "i \<in> set [show_start ?l..show_end ?l - 1]" and t: "?P t"
    then have i: "0 \<le> i" "i < int (length (user_infos t))" using v(1) by (auto simp: view_ok_def user_items_len_def)
    let ?us = "(user_infos t)[nat i := user_set_rect ((base_user_rect t)\<lparr>rect_y :=
      rect_y (window_rect t) + (i - show_start t) * line_height t\<rparr>) (user_infos t ! nat i)]"
    have "map user_entry ?us = map user_entry (user_infos t)" "map ui_id ?us = map ui_id (user_infos t)"
      using i by (simp_all add: map_update list_update_same_conv)
    with t i show "\<exists>t'. user_draw_item i (rect_y (window_rect t) + (i - show_start t) * line_height t) t = Inr t' \<and> ?P t'"
      by (auto simp: user_draw_item_def py_get_nonneg py_set_nonneg wf_users_def users_of_def user_items_len_def)
  qed
  then obtain l' where l': "py_for (\<lambda>i t. user_draw_item i (rect_y (window_rect t) + (i - show_start t) * line_height t) t)
      [show_start ?l..show_end ?l - 1] ?l = Inr l'" "?P l'" by blast
  then have "user_list_draw l = Inr (update_show_user_infos l')" by (simp add: user_list_draw_def Let_def)
  moreover have "?P (update_show_user_infos l')"
    using l'(2) by (auto simp add: update_show_user_infos_def wf_users_def users_of_def user_items_len_def wf_show_range)
  ultimately show ?thesis by blast
qed

lemma user_step_refines:
  assumes "wf_users l"
  shows "\<exists>l'. user_step collide e l = Inr l' \<and> wf_users l' \<and> users_of l' = user_spec e (users_of l)"
proof (cases e)
  case (User_update i nick st)
  with assms show ?thesis
    by (simp add: user_list_update_def wf_users_def users_of_def user_items_len_def map_update_first
        map_of_update_first [where h = "\<lambda>_. (nick, st)"])
next
  case (User_update_state i st)
  with assms show ?thesis
    by (simp add: user_list_update_state_def wf_users_def users_of_def user_items_len_def map_update_first
        map_of_update_first [where h = "\<lambda>(nick, _). (nick, st)"])
next
  case User_clear
  have "wf_scroll 0 (scroll_clear 0 (l\<lparr>user_infos := []\<rparr>))"
    using assms by (intro wf_scroll_clear) (auto simp: wf_users_def dest: wf_scroll_frame)
  with User_clear show ?thesis by (simp add: user_list_clear_def wf_users_def users_of_def user_items_len_def)
next
  case (User_event ev)
  with user_event_refines [OF assms] show ?thesis by simp
next
  case User_draw
  with user_draw_refines [OF assms] show ?thesis by simp
qed (use user_add_refines [OF assms] user_delete_refines [OF assms] in auto)

interpretation users: scrolled "user_step collide" wf_users scroll_window.truncate user_items_len for collide
proof unfold_locales
  show "wf_users l'" if "wf_users l" "user_step collide e l = Inr l'" for l e l'
    using user_step_refines [OF that(1), of collide e] that(2) by auto
qed (auto simp: wf_users_def user_items_len_def)

interpretation user_map: simulation "\<lambda>e m. (user_spec e m, [e])" "user_step collide"
    "\<lambda>m l. wf_users l \<and> users_of l = m" "\<lambda>_. True" for collide
proof unfold_locales
  fix m l e m' es
  assume "wf_users l \<and> users_of l = m" "(user_spec e m, [e]) = (m', es)"
  then show "\<exists>l'. py_for (user_step collide) es l = Inr l' \<and> wf_users l' \<and> users_of l' = m'"
    using user_step_refines [of l collide e] by auto
qed

subsection \<open>The room list\<close>

datatype room_list_op = Rooms_add room_data | Rooms_clear | Rooms_event event | Rooms_draw

fun room_list_step :: "collide \<Rightarrow> room_list_op \<Rightarrow> room_list \<Rightarrow> room_list py" where
  "room_list_step collide (Rooms_add d) l = Inr (room_list_add d l)"
| "room_list_step collide Rooms_clear l = Inr (room_list_clear l)"
| "room_list_step collide (Rooms_event ev) l = Inr (snd (room_list_handle_event collide ev l))"
| "room_list_step collide Rooms_draw l = room_list_draw l"

definition wf_rooms :: "room_list \<Rightarrow> bool" where
  "wf_rooms l \<longleftrightarrow> wf_scroll (room_items_len l) l"

lemma update_show_rooms_wf:
  "wf_rooms l \<Longrightarrow> wf_rooms (update_show_rooms l) \<and> view_ok (room_items_len l) (update_show_rooms l) \<and>
   length (rooms (update_show_rooms l)) = length (rooms l)"
  using show_range_ok [of "room_items_len l" l] items_len_nonneg(2) [of l]
  by (auto simp: wf_rooms_def update_show_rooms_def room_items_len_def view_ok_def Let_def)

lemma rooms_handle_event_length:
  "rooms_handle_event collide ev rs = (k, rs') \<Longrightarrow> length rs' = length rs \<and> (\<forall>i. k = Some i \<longrightarrow> i < length rs)"
  by (induction rs arbitrary: k rs') (auto simp: Let_def split: prod.splits if_splits)

lemma room_list_event_wf:
  assumes "wf_rooms l" "room_list_handle_event collide ev l = (r, l')"
  shows "wf_rooms l' \<and> (\<forall>k. r = Some (Join_room k) \<longrightarrow>
    int k < show_end l' - show_start l' \<and> view_ok (room_items_len l') l')"
proof -
  let ?l = "update_show_rooms (scroll_handle_event collide ev l)"
  have "wf_rooms (scroll_handle_event collide ev l)"
    using assms(1) by (simp add: wf_rooms_def room_items_len_def wf_scroll_event)
  note w = update_show_rooms_wf [OF this]
  obtain refresh b where b: "button_handle_event collide ev (btn_refresh ?l) = (refresh, b)" by fastforce
  let ?a = "nat (show_start ?l)" and ?n = "nat (show_end ?l - show_start ?l)"
  obtain k rs where k: "rooms_handle_event collide ev (take ?n (drop ?a (rooms ?l))) = (k, rs)" by fastforce
  from rooms_handle_event_length [OF k] have len: "length rs = min (length (rooms ?l) - ?a) ?n"
    "\<And>i. k = Some i \<Longrightarrow> i < min (length (rooms ?l) - ?a) ?n" by simp_all
  have view_btn: "view_ok n (l\<lparr>btn_refresh := b\<rparr>) = view_ok n l" "view_ok n (l\<lparr>rooms := rs\<rparr>) = view_ok n l"
    for n rs and l :: room_list by (simp_all add: view_ok_def)
  have l': "l' = ?l\<lparr>btn_refresh := b\<rparr> \<or>
    l' = ?l\<lparr>btn_refresh := b, rooms := take ?a (rooms ?l) @ rs @ drop ?n (drop ?a (rooms ?l))\<rparr>"
    "r = (if refresh then Some Refresh else map_option Join_room k)"
    using assms(2) b k by (auto simp: room_list_handle_event_def Let_def split: if_splits)
  moreover have "length (take ?a (rooms ?l) @ rs @ drop ?n (drop ?a (rooms ?l))) = length (rooms ?l)"
    unfolding length_append length_take length_drop len(1) by (auto simp: min_def)
  ultimately have n: "room_items_len l' = room_items_len ?l" "wf_rooms l'" "show_end l' = show_end ?l"
    "show_start l' = show_start ?l" "view_ok (room_items_len l') l'"
    using w by (auto simp: wf_rooms_def room_items_len_def view_btn)
  with len(2) l'(2) show ?thesis by (auto split: if_splits)
qed

lemma room_list_add_wf:
  assumes "wf_rooms l"
  shows "wf_rooms (room_list_add d l)"
proof -
  obtain x where x: "room_list_add d l =
    update_show_rooms (resized (room_items_len l + 1) (l\<lparr>rooms := rooms l @ [x]\<rparr>))"
    by (simp add: room_list_add_def resized_def room_items_len_def Let_def add.commute)
  have "wf_scroll (room_items_len l) (l\<lparr>rooms := rooms l @ [x]\<rparr>)" using assms by (simp add: wf_rooms_def)
  then have "wf_scroll (room_items_len l + 1) (resized (room_items_len l + 1) (l\<lparr>rooms := rooms l @ [x]\<rparr>))"
    by (rule wf_resized_grow) (simp_all add: room_items_len_def)
  then have "wf_rooms (resized (room_items_len l + 1) (l\<lparr>rooms := rooms l @ [x]\<rparr>))"
    by (simp add: wf_rooms_def room_items_len_def resized_def add.commute)
  then show ?thesis unfolding x using update_show_rooms_wf by blast
qed

lemma room_list_draw_defined:
  assumes "wf_rooms l"
  shows "\<exists>l'. room_list_draw l = Inr l' \<and> wf_rooms l'"
proof -
  let ?n = "room_items_len l" and ?l = "set_show_range (room_items_len l) l"
  let ?P = "\<lambda>t. wf_rooms t \<and> room_items_len t = ?n"
  have v: "view_ok ?n ?l" "wf_scroll ?n ?l" using show_range_ok [of ?n l] assms items_len_nonneg by (auto simp: wf_rooms_def)
  have "\<exists>l'. py_for (\<lambda>i t. room_draw_item i (rect_y (window_rect t) + (i - show_start t) * line_height t) t)
      [show_start ?l..show_end ?l - 1] ?l = Inr l' \<and> ?P l'"
  proof (rule py_for_defined)
    show "?P ?l" using v(2) by (simp add: wf_rooms_def room_items_len_def)
    fix i t assume "i \<in> set [show_start ?l..show_end ?l - 1]" and t: "?P t"
    then have "0 \<le> i" "i < int (length (rooms t))" using v(1) by (auto simp: view_ok_def room_items_len_def)
    with t show "\<exists>t'. room_draw_item i (rect_y (window_rect t) + (i - show_start t) * line_height t) t = Inr t' \<and> ?P t'"
      by (auto simp: room_draw_item_def py_get_nonneg py_set_nonneg wf_rooms_def room_items_len_def)
  qed
  then show ?thesis using update_show_rooms_wf by (fastforce simp: room_list_draw_def Let_def)
qed

lemma room_list_step_wf:
  assumes "wf_rooms l"
  shows "\<exists>l'. room_list_step collide e l = Inr l' \<and> wf_rooms l'"
proof (cases e)
  case Rooms_clear
  have "wf_scroll 0 (scroll_clear 0 (l\<lparr>rooms := []\<rparr>))"
    using assms by (intro wf_scroll_clear) (auto simp: wf_rooms_def dest: wf_scroll_frame)
  with Rooms_clear show ?thesis by (simp add: room_list_clear_def wf_rooms_def room_items_len_def)
next
  case (Rooms_event ev)
  with room_list_event_wf [OF assms] show ?thesis by (cases "room_list_handle_event collide ev l") simp
qed (use room_list_add_wf room_list_draw_defined assms in auto)

interpretation room_view: scrolled "room_list_step collide" wf_rooms scroll_window.truncate room_items_len for collide
proof unfold_locales
  show "wf_rooms l'" if "wf_rooms l" "room_list_step collide e l = Inr l'" for l e l'
    using room_list_step_wf [OF that(1), of collide e] that(2) by auto
qed (auto simp: wf_rooms_def room_items_len_def)

lemma wf_UserList: "50 \<le> rect_h r \<Longrightarrow> wf_users (UserList r) \<and> users_of (UserList r) = Map.empty"
proof -
  assume h: "50 \<le> rect_h r"
  let ?s = "ScrollWindowBase (r\<lparr>rect_y := rect_y r + HEADER_HEIGHT, rect_h := rect_h r - HEADER_HEIGHT\<rparr>) HEADER_HEIGHT 0"
  let ?l = "scroll_window.extend ?s (user_list.fields
    (r\<lparr>rect_y := rect_y r + HEADER_HEIGHT, rect_h := HEADER_HEIGHT\<rparr>) [])"
  have "wf_scroll 0 ?s" using h by (intro wf_ScrollWindowBase) (simp_all add: HEADER_HEIGHT_def)
  moreover have "scroll_window.truncate ?l = ?s" by (simp add: scroll_window.defs)
  ultimately have "wf_scroll 0 ?l" using truncate_scroll by metis
  then have "wf_scroll 0 (resized 0 ?l)" by (rule wf_resized_grow) simp_all
  moreover have "user_infos ?l = []" by (simp add: scroll_window.defs user_list.defs)
  moreover have "UserList r = resized 0 ?l" by (simp add: UserList_def resized_def Let_def)
  ultimately show ?thesis by (simp add: wf_users_def users_of_def user_items_len_def resized_def)
qed

subsection \<open>Properties\<close>

lemma user_map_run: "user_map.arun es m = (fold user_spec es m, es)"
  by (induction es arbitrary: m) (simp_all add: Let_def split: prod.split)

text \<open>
  C33: the user list implements a finite map. Whatever users are added, renamed, set on or off
  line and deleted, with any clicks, wheel turns and drawings in between, nothing raises, no id occurs
  twice, the entries are exactly those of the map that the operations describe, and the users in view
  are existing ones, as many as there are and fit.
\<close>

theorem user_list_is_map:
  assumes "50 \<le> rect_h r"
  shows "\<exists>l. py_for (user_step collide) es (UserList r) = Inr l \<and>
    users_of l = fold user_spec es Map.empty \<and> distinct (map ui_id (user_infos l)) \<and>
    view_ok (user_items_len l) (update_show_user_infos l)"
proof -
  from wf_UserList [OF assms] have init: "wf_users (UserList r) \<and> users_of (UserList r) = Map.empty" .
  from user_map.sim_run [OF init TrueI user_map_run]
  obtain l where l: "py_for (user_step collide) es (UserList r) = Inr l" "wf_users l"
    "users_of l = fold user_spec es Map.empty" by blast
  then show ?thesis using show_range_ok [of "user_items_len l" l] items_len_nonneg(1) [of l]
    by (auto simp: wf_users_def update_show_user_infos_def)
qed

theorem user_list_is_map_witness:
  "\<exists>l. py_for (user_step (\<lambda>_ _. False)) [User_add 3 [65] True, User_draw, User_add 4 [66] False, User_delete 3]
      (UserList \<lparr>rect_x = 0, rect_y = 0, rect_w = 300, rect_h = 325\<rparr>) = Inr l \<and>
     users_of l 4 = Some ([66], False) \<and> users_of l 3 = None"
  using user_list_is_map [of "\<lparr>rect_x = 0, rect_y = 0, rect_w = 300, rect_h = 325\<rparr>" "\<lambda>_ _. False"
      "[User_add 3 [65] True, User_draw, User_add 4 [66] False, User_delete 3]"]
  by (auto simp del: user_step.simps)

end
