(* ===== verification/Tabs.thy ===== *)
theory Tabs
  imports ListInv Windows
begin

text \<open>
  The tabs of users and friends, \<open>UserTabs\<close> (\<^verbatim>\<open>client/tetris/ui/user_taps.py\<close>): a user list
  and a refresh button per tab. The lemmas show that its operations do not raise and keep every list
  well formed.
\<close>

definition TAB_WIDTH :: int where "TAB_WIDTH = 100"
definition TAB_HEIGHT :: int where "TAB_HEIGHT = 50"
definition TAB_GAP :: int where "TAB_GAP = 0"
definition FOOTER_HEIGHT :: int where "FOOTER_HEIGHT = 0"
definition REFRESH_BUTTON_WIDTH :: int where "REFRESH_BUTTON_WIDTH = 50"
definition REFRESH_BUTTON_HEIGHT :: int where "REFRESH_BUTTON_HEIGHT = 50"
definition USER_TAB_NAME :: pystr where "USER_TAB_NAME = [0xC720, 0xC800]"
definition FRIEND_TAB_NAME :: pystr where "FRIEND_TAB_NAME = [0xCE5C, 0xAD6C]"
definition ADD_EVENT :: pystr where "ADD_EVENT = [97, 100, 100]"
definition DELETE_EVENT :: pystr where "DELETE_EVENT = [100, 101, 108, 101, 116, 101]"

lemmas tab_consts = TAB_WIDTH_def TAB_HEIGHT_def TAB_GAP_def FOOTER_HEIGHT_def REFRESH_BUTTON_WIDTH_def
  REFRESH_BUTTON_HEIGHT_def

text \<open>The buttons are labelled by their index; the two dictionaries are maps from the tab's name.\<close>

record user_tabs =
  tab_names :: "pystr list"
  cur_tab_index :: int
  tab_buttons :: "(int \<times> toggle_button) list"
  user_lists :: "pystr \<rightharpoonup> user_list"
  refresh_buttons :: "pystr \<rightharpoonup> button"

definition UserTabs :: "rect \<Rightarrow> pystr list \<Rightarrow> user_tabs" where
  "UserTabs r names =
     (let list_rect = r\<lparr>rect_y := rect_y r + (TAB_HEIGHT + TAB_GAP),
            rect_h := rect_h r - (TAB_HEIGHT + TAB_GAP + FOOTER_HEIGHT)\<rparr>;
          refresh_rect = \<lparr>rect_x = rect_x list_rect + rect_w list_rect - REFRESH_BUTTON_WIDTH,
            rect_y = rect_y list_rect - REFRESH_BUTTON_HEIGHT, rect_w = REFRESH_BUTTON_WIDTH,
            rect_h = REFRESH_BUTTON_HEIGHT\<rparr>
      in \<lparr>tab_names = names, cur_tab_index = 0,
          tab_buttons = map (\<lambda>k. (k, ToggleButton \<lparr>rect_x = rect_x r + k * (TAB_WIDTH + TAB_GAP),
            rect_y = rect_y r, rect_w = TAB_WIDTH, rect_h = TAB_HEIGHT\<rparr>)) [0..int (length names) - 1],
          user_lists = (\<lambda>n. if n \<in> set names then Some (UserList list_rect) else None),
          refresh_buttons = (\<lambda>n. if n \<in> set names then Some (Button refresh_rect True []) else None)\<rparr>)"

definition get_cur_tab_name :: "user_tabs \<Rightarrow> pystr py" where
  "get_cur_tab_name t = py_get (tab_names t) (cur_tab_index t)"

definition get_cur_user_list :: "user_tabs \<Rightarrow> user_list py" where
  "get_cur_user_list t = py_bind (get_cur_tab_name t) (\<lambda>n. case user_lists t n of
     None \<Rightarrow> Inl KeyError | Some l \<Rightarrow> Inr l)"

text \<open>\<open>if tab_name not in self.user_lists: return\<close>, then the operation on that list.\<close>

definition on_tab :: "pystr \<Rightarrow> (user_list \<Rightarrow> user_list) \<Rightarrow> user_tabs \<Rightarrow> user_tabs" where
  "on_tab n f t = (case user_lists t n of
     None \<Rightarrow> t | Some l \<Rightarrow> t\<lparr>user_lists := (user_lists t)(n \<mapsto> f l)\<rparr>)"

definition tabs_add_user :: "pystr \<Rightarrow> int \<Rightarrow> pystr \<Rightarrow> bool \<Rightarrow> user_tabs \<Rightarrow> user_tabs" where
  "tabs_add_user n i nick st = on_tab n (user_list_add i nick st)"

definition tabs_delete_user :: "pystr \<Rightarrow> int \<Rightarrow> user_tabs \<Rightarrow> user_tabs" where
  "tabs_delete_user n i = on_tab n (user_list_delete i)"

definition tabs_update_user :: "pystr \<Rightarrow> int \<Rightarrow> pystr \<Rightarrow> bool \<Rightarrow> user_tabs \<Rightarrow> user_tabs" where
  "tabs_update_user n i nick st = on_tab n (user_list_update i nick st)"

definition tabs_update_user_state :: "pystr \<Rightarrow> int \<Rightarrow> bool \<Rightarrow> user_tabs \<Rightarrow> user_tabs" where
  "tabs_update_user_state n i st = on_tab n (user_list_update_state i st)"

definition tabs_clear :: "pystr option \<Rightarrow> user_tabs \<Rightarrow> user_tabs" where
  "tabs_clear tab_name t = (case tab_name of
     None \<Rightarrow> t\<lparr>user_lists := map_option user_list_clear \<circ> user_lists t\<rparr>
   | Some n \<Rightarrow> on_tab n user_list_clear t)"

text \<open>A friend request is handed back: the requester's id and nickname.\<close>

fun tabs_handle_packet :: "s2c \<Rightarrow> user_tabs \<Rightarrow> (int \<times> pystr) option \<times> user_tabs" where
  "tabs_handle_packet (P_LOBBY_USER_INFO i nick) t = (None, tabs_add_user USER_TAB_NAME i nick True t)"
| "tabs_handle_packet (P_FRIEND_INFO i nick is_lobby) t = (None, tabs_add_user FRIEND_TAB_NAME i nick is_lobby t)"
| "tabs_handle_packet (P_ADD_FRIEND i nick) t = (None, tabs_add_user FRIEND_TAB_NAME i nick True t)"
| "tabs_handle_packet (P_DELETE_FRIEND i) t = (None, tabs_delete_user FRIEND_TAB_NAME i t)"
| "tabs_handle_packet (P_REQUEST_FRIEND i nick) t = (Some (i, nick), t)"
| "tabs_handle_packet _ t = (None, t)"

text \<open>\<open>handle_event\<close> answers with the name of the tab to refresh, or with a friend event.\<close>

datatype tabs_event = Refresh_tab pystr | Friend_event event_friend

definition tabs_list_event :: "collide \<Rightarrow> event \<Rightarrow> pystr \<Rightarrow> user_tabs \<Rightarrow> (tabs_event option \<times> user_tabs) py" where
  "tabs_list_event collide ev cur t = py_bind (get_cur_user_list t) (\<lambda>l.
     let (result, l) = user_list_handle_event collide ev l;
         t = t\<lparr>user_lists := (user_lists t)(cur \<mapsto> l)\<rparr>
     in Inr (case result of
          None \<Rightarrow> None
        | Some e \<Rightarrow> if cur = USER_TAB_NAME then Some (Friend_event (e\<lparr>ev_type := ADD_EVENT\<rparr>))
            else if cur = FRIEND_TAB_NAME then Some (Friend_event (e\<lparr>ev_type := DELETE_EVENT\<rparr>))
            else None, t))"

definition tabs_handle_event :: "collide \<Rightarrow> event \<Rightarrow> user_tabs \<Rightarrow> (tabs_event option \<times> user_tabs) py" where
  "tabs_handle_event collide ev t =
     (let (chosen, bs) = options_handle_event collide ev (tab_buttons t) in case chosen of
        Some k \<Rightarrow> Inr (None, t\<lparr>tab_buttons := press_only (Some k) bs, cur_tab_index := k\<rparr>)
      | None \<Rightarrow> let t = t\<lparr>tab_buttons := bs\<rparr> in
        py_bind (get_cur_tab_name t) (\<lambda>cur.
          case refresh_buttons t cur of
            None \<Rightarrow> tabs_list_event collide ev cur t
          | Some b \<Rightarrow> let (c, b) = button_handle_event collide ev b;
                t = t\<lparr>refresh_buttons := (refresh_buttons t)(cur \<mapsto> b)\<rparr>
              in if c then Inr (Some (Refresh_tab cur), t) else tabs_list_event collide ev cur t))"

definition tabs_draw :: "user_tabs \<Rightarrow> user_tabs py" where
  "tabs_draw t =
     (let t = t\<lparr>tab_buttons := press_only (Some (cur_tab_index t)) (tab_buttons t)\<rparr> in
      py_bind (get_cur_tab_name t) (\<lambda>cur. py_bind (get_cur_user_list t) (\<lambda>l.
      py_bind (user_list_draw l) (\<lambda>l. Inr (t\<lparr>user_lists := (user_lists t)(cur \<mapsto> l)\<rparr>)))))"

subsection \<open>Lemmas\<close>

lemma options_frame:
  "options_handle_event collide ev os = (r, os') \<Longrightarrow> map fst os' = map fst os \<and> (\<forall>t. r = Some t \<longrightarrow> t \<in> fst ` set os)"
  by (induction os arbitrary: r os') (fastforce simp: Let_def split: prod.splits if_splits)+

lemma press_only_labels [simp]: "map fst (press_only v os) = map fst os"
  by (simp add: press_only_def case_prod_unfold comp_def)

text \<open>A tab is selected, every tab has its list and its button, and every list is well formed.\<close>

definition wf_tabs :: "user_tabs \<Rightarrow> bool" where
  "wf_tabs t \<longleftrightarrow> 0 \<le> cur_tab_index t \<and> cur_tab_index t < int (length (tab_names t)) \<and>
     map fst (tab_buttons t) = [0..int (length (tab_names t)) - 1] \<and>
     dom (user_lists t) = set (tab_names t) \<and> (\<forall>n l. user_lists t n = Some l \<longrightarrow> wf_users l)"

lemma wf_UserTabs: "names \<noteq> [] \<Longrightarrow> 100 \<le> rect_h r \<Longrightarrow> wf_tabs (UserTabs r names)"
  using wf_UserList by (auto simp: wf_tabs_def UserTabs_def tab_consts Let_def comp_def split: if_splits)

lemma wf_on_tab: "wf_tabs t \<Longrightarrow> (\<And>l. wf_users l \<Longrightarrow> wf_users (f l)) \<Longrightarrow> wf_tabs (on_tab n f t)"
  by (auto simp: wf_tabs_def on_tab_def split: option.splits if_splits)

lemma wf_current:
  assumes "wf_tabs t"
  obtains cur l where "get_cur_tab_name t = Inr cur" "get_cur_user_list t = Inr l" "wf_users l"
    "cur \<in> set (tab_names t)" "user_lists t cur = Some l"
proof -
  let ?cur = "tab_names t ! nat (cur_tab_index t)"
  from assms have cur: "py_get (tab_names t) (cur_tab_index t) = Inr ?cur" "?cur \<in> set (tab_names t)"
    by (auto simp: wf_tabs_def py_get_nonneg)
  with assms have "?cur \<in> dom (user_lists t)" by (simp add: wf_tabs_def)
  then obtain l where l: "user_lists t ?cur = Some l" by blast
  with assms have "wf_users l" by (simp add: wf_tabs_def)
  with cur l show thesis
    by (intro that [of ?cur l]) (simp_all add: get_cur_tab_name_def get_cur_user_list_def)
qed

datatype tabs_op = Tabs_packet s2c | Tabs_clear "pystr option" | Tabs_event event | Tabs_draw

fun tabs_step :: "collide \<Rightarrow> tabs_op \<Rightarrow> user_tabs \<Rightarrow> user_tabs py" where
  "tabs_step collide (Tabs_packet p) t = Inr (snd (tabs_handle_packet p t))"
| "tabs_step collide (Tabs_clear n) t = Inr (tabs_clear n t)"
| "tabs_step collide (Tabs_event ev) t = py_bind (tabs_handle_event collide ev t) (\<lambda>(_, t). Inr t)"
| "tabs_step collide Tabs_draw t = tabs_draw t"

lemma wf_user_ops:
  assumes "wf_users l"
  shows "wf_users (user_list_add i nick st l)" "wf_users (user_list_delete i l)" "wf_users (user_list_clear l)"
    "user_list_handle_event collide ev l = (r, l') \<Longrightarrow> wf_users l'" "\<exists>l'. user_list_draw l = Inr l' \<and> wf_users l'"
proof -
  note s = user_step_refines [OF assms]
  show "wf_users (user_list_add i nick st l)" using s [of undefined "User_add i nick st"] by simp
  show "wf_users (user_list_delete i l)" using s [of undefined "User_delete i"] by simp
  show "wf_users (user_list_clear l)" using s [of undefined User_clear] by simp
  show "user_list_handle_event collide ev l = (r, l') \<Longrightarrow> wf_users l'" using s [of collide "User_event ev"] by simp
  show "\<exists>l'. user_list_draw l = Inr l' \<and> wf_users l'" using s [of undefined User_draw] by auto
qed

lemma wf_tabs_packet: "wf_tabs t \<Longrightarrow> wf_tabs (snd (tabs_handle_packet p t))"
  by (cases p) (auto simp: tabs_add_user_def tabs_delete_user_def intro!: wf_on_tab wf_user_ops)

lemma wf_tabs_clear: "wf_tabs t \<Longrightarrow> wf_tabs (tabs_clear n t)"
proof (cases n)
  case None
  assume "wf_tabs t"
  with None show ?thesis by (auto simp: tabs_clear_def wf_tabs_def dom_map_option_comp wf_user_ops(3))
next
  case (Some m)
  assume "wf_tabs t"
  with Some show ?thesis by (simp add: tabs_clear_def wf_on_tab wf_user_ops(3))
qed

lemma wf_tabs_list_event:
  assumes "wf_tabs t" "user_lists t cur = Some l" "get_cur_user_list t = Inr l"
  shows "\<exists>r t'. tabs_list_event collide ev cur t = Inr (r, t') \<and> wf_tabs t' \<and>
    (\<forall>e. r = Some (Friend_event e) \<longrightarrow> ev_type e = ADD_EVENT \<or> ev_type e = DELETE_EVENT)"
proof -
  obtain r l' where l': "user_list_handle_event collide ev l = (r, l')" by fastforce
  from assms(1,2) have "wf_users l" by (simp add: wf_tabs_def)
  from wf_user_ops(4) [OF this l'] assms l' show ?thesis
    by (auto simp: tabs_list_event_def wf_tabs_def dom_def split: option.split)
qed

lemma wf_tabs_event:
  assumes "wf_tabs t"
  shows "\<exists>r t'. tabs_handle_event collide ev t = Inr (r, t') \<and> wf_tabs t' \<and>
    (\<forall>e. r = Some (Friend_event e) \<longrightarrow> ev_type e = ADD_EVENT \<or> ev_type e = DELETE_EVENT)"
proof -
  obtain chosen bs where o: "options_handle_event collide ev (tab_buttons t) = (chosen, bs)" by fastforce
  from options_frame [OF o] assms have bs: "map fst bs = [0..int (length (tab_names t)) - 1]"
    and k: "\<And>k. chosen = Some k \<Longrightarrow> k \<in> set [0..int (length (tab_names t)) - 1]"
    by (auto simp: wf_tabs_def simp flip: set_map simp del: set_upto)
  let ?t = "t\<lparr>tab_buttons := bs\<rparr>"
  have wf: "wf_tabs ?t" using assms bs by (simp add: wf_tabs_def)
  from wf_current [OF this] obtain cur l where cur: "get_cur_tab_name ?t = Inr cur"
    "get_cur_user_list ?t = Inr l" "wf_users l" "cur \<in> set (tab_names ?t)" "user_lists ?t cur = Some l" .
  let ?u = "\<lambda>b. ?t\<lparr>refresh_buttons := (refresh_buttons t)(cur \<mapsto> b)\<rparr>"
  have "wf_tabs (?u b)" "get_cur_user_list (?u b) = Inr l" "user_lists (?u b) cur = Some l" for b
    using wf cur by (simp_all add: wf_tabs_def get_cur_user_list_def get_cur_tab_name_def)
  note u = wf_tabs_list_event [OF this(1,3,2)] wf_tabs_list_event [OF wf cur(5,2)] this(1)
  show ?thesis
  proof (cases chosen)
    case (Some k)
    with o bs k [OF Some] assms show ?thesis
      by (auto simp: tabs_handle_event_def wf_tabs_def)
  next
    case None
    with o cur(1) u show ?thesis
      by (auto simp: tabs_handle_event_def Let_def split: option.split prod.split)
  qed
qed

lemma wf_tabs_draw:
  assumes "wf_tabs t"
  shows "\<exists>t'. tabs_draw t = Inr t' \<and> wf_tabs t'"
proof -
  let ?t = "t\<lparr>tab_buttons := press_only (Some (cur_tab_index t)) (tab_buttons t)\<rparr>"
  have wf: "wf_tabs ?t" using assms by (simp add: wf_tabs_def)
  from wf_current [OF this] obtain cur l where cur: "get_cur_tab_name ?t = Inr cur"
    "get_cur_user_list ?t = Inr l" "wf_users l" "cur \<in> set (tab_names ?t)" "user_lists ?t cur = Some l" .
  from wf_user_ops(5) [OF cur(3)] obtain l' where "user_list_draw l = Inr l'" "wf_users l'" by blast
  with cur wf show ?thesis by (auto simp: tabs_draw_def wf_tabs_def)
qed

interpretation tabs: safe_machine "tabs_step collide" wf_tabs "\<lambda>_. True" for collide
proof unfold_locales
  show "wf_tabs t'" if "wf_tabs t" "tabs_step collide e t = Inr t'" for e t t'
  proof (cases e)
    case (Tabs_event ev)
    with wf_tabs_event [OF that(1), of collide ev] that(2) show ?thesis by auto
  next
    case Tabs_draw
    with wf_tabs_draw [OF that(1)] that(2) show ?thesis by auto
  qed (use that in \<open>auto simp: wf_tabs_packet wf_tabs_clear\<close>)
  show "\<exists>t'. tabs_step collide e t = Inr t'" if "wf_tabs t" for e t
  proof (cases e)
    case (Tabs_event ev)
    with wf_tabs_event [OF that, of collide ev] show ?thesis by auto
  next
    case Tabs_draw
    with wf_tabs_draw [OF that] show ?thesis by auto
  qed simp_all
qed

end
