(* ===== verification/Lobby.thy ===== *)
theory Lobby
  imports Rooms Tabs Settings
begin

text \<open>
  The lobby, \<open>LobbyState\<close> (\<^verbatim>\<open>client/tetris/states/lobby_state.py\<close>): the room list, the
  chat, the tabs of users and friends, and the dialogs that lock them while they are open
  (\<open>lb_reactable\<close>). The profile panel only draws (\<open>Visuals\<close>). \<open>pygame.quit(); raise SystemExit\<close>
  ends the program: \<open>lb_exited\<close> records it, and nothing of the scene runs afterwards.
\<close>

text \<open>
  What the scenes take from pygame, the fonts and float arithmetic: which rectangles contain a point,
  which characters print, how wide a text is, and the two products of the volume slider.
\<close>

record platform =
  pf_collide :: collide
  pf_printable :: "nat \<Rightarrow> bool"
  pf_width :: "pystr \<Rightarrow> int"
  pf_floats :: floats

definition QUICK_START_SINGLE_ROOM_NAME :: pystr where "QUICK_START_SINGLE_ROOM_NAME = [0xBE60, 0xB978, 32, 0xC2F1, 0xAE00]"
definition EXIT_GAME_TEXT :: pystr where "EXIT_GAME_TEXT = [0xAC8C, 0xC784, 0xC885, 0xB8CC]"
definition CONTINUE_TEXT :: pystr where "CONTINUE_TEXT = [0xACC4, 0xC18D, 0xD558, 0xAE30]"
definition EXIT_QUESTION :: pystr where "EXIT_QUESTION = [0xC885, 0xB8CC, 0xD558, 0xC2DC, 0xACA0, 0xC2B5, 0xB2C8, 0xAE4C, 63]"
definition ACCEPT_TEXT :: pystr where "ACCEPT_TEXT = [0xC218, 0xB77D]"
definition CLOSE_TEXT :: pystr where "CLOSE_TEXT = [0xB2EB, 0xAE30]"
definition SAVED_TEXT :: pystr where "SAVED_TEXT = [0xC800, 0xC7A5, 0xC5D0, 32, 0xC131, 0xACF5, 0xD588, 0xC2B5, 0xB2C8, 0xB2E4, 46]"
definition ADD_FRIEND_TEXT :: pystr where "ADD_FRIEND_TEXT = [0xCE5C, 0xAD6C, 0xCD94, 0xAC00]"
definition DELETE_FRIEND_TEXT :: pystr where "DELETE_FRIEND_TEXT = [0xCE5C, 0xAD6C, 0xC0AD, 0xC81C]"

definition friend_message :: "pystr \<Rightarrow> pystr" where
  "friend_message nick = nick @ [32, 0xB2D8, 0xC774, 32, 0xCE5C, 0xAD6C, 32, 0xC694, 0xCCAD, 0xC744, 32, 0xBCF4, 0xB0C8, 0xC2B5, 0xB2C8, 0xB2E4, 46]"

definition menu_texts :: "pystr list" where
  "menu_texts = [[0xBE60, 0xB978, 0xC2DC, 0xC791], [0xBC29, 0xB9CC, 0xB4E4, 0xAE30], [0xB7AD, 0xD0B9], [0xC0C1, 0xC810], [0xC124, 0xC815], EXIT_GAME_TEXT]"

record lobby_state = base_state +
  top_menus :: "button list"
  lb_rooms :: room_list
  lb_chat :: chat_window
  lb_tabs :: user_tabs
  lb_sounds :: sounds
  lb_error_popup :: "popup option"
  quick_start_window :: "popup option"
  lb_fast_window :: "fast_matching_window option"
  room_create_window :: "create_room_window option"
  lb_setting_window :: "setting_window option"
  exit_popup :: "popup option"
  save_success_popup :: "popup option"
  input_pw_window :: "input_window option"
  lb_reactable :: bool
  info_popup :: "popup option"
  friend_request_popup :: "popup option"
  friend_requester_id :: "int option"
  friend_ev_btn :: "button option"
  friend_ev_target_id :: "int option"
  join_room_key :: "int option"
  lb_exited :: bool

subsection \<open>Construction\<close>

definition menu_rect :: "nat \<Rightarrow> rect" where
  "menu_rect k = \<lparr>rect_x = (if k = 5 then fst screen_size - MENU_WIDTH else 50 + int k * MENU_WIDTH),
     rect_y = 0, rect_w = MENU_WIDTH, rect_h = MENU_HEIGHT\<rparr>"

definition request_room_list :: "lobby_state \<Rightarrow> lobby_state py" where
  "request_room_list s = send Room_list (s\<lparr>lb_rooms := room_list_clear (lb_rooms s)\<rparr>)"

definition request_lobby_user_list :: "lobby_state \<Rightarrow> lobby_state py" where
  "request_lobby_user_list s =
     send Lobby_user_list (s\<lparr>lb_tabs := tabs_clear (Some USER_TAB_NAME) (lb_tabs s)\<rparr>)"

definition request_friend_list :: "lobby_state \<Rightarrow> lobby_state py" where
  "request_friend_list s =
     send Friend_list (s\<lparr>lb_tabs := tabs_clear (Some FRIEND_TAB_NAME) (lb_tabs s)\<rparr>)"

definition LobbyState :: "session \<Rightarrow> sounds \<Rightarrow> lobby_state py" where
  "LobbyState se snds =
     py_bind (request_room_list (base_state.extend (BaseState se) (lobby_state.fields
       (map (\<lambda>k. Button (menu_rect k) True (menu_texts ! k)) [0..<6])
       (RoomList \<lparr>rect_x = 50, rect_y = 135, rect_w = 900, rect_h = 400\<rparr>)
       (ChatWindow \<lparr>rect_x = 50, rect_y = 575, rect_w = 900, rect_h = 260\<rparr>)
       (UserTabs \<lparr>rect_x = 1100, rect_y = 150, rect_w = 300, rect_h = 375\<rparr> [USER_TAB_NAME, FRIEND_TAB_NAME])
       snds None None None None None None None None True None None None None None None False)))
     (\<lambda>s. py_bind (request_lobby_user_list s) request_friend_list)"

subsection \<open>Packets\<close>

definition open_room :: "pystr \<Rightarrow> int \<Rightarrow> pystr option \<Rightarrow> lobby_state \<Rightarrow> lobby_state py" where
  "open_room name maxu pw s =
     (if maxu = 1 then py_bind (SinglePlayState (my_session s) name pw) (\<lambda>_. Inr (queue_state (To_single name pw) s))
      else if maxu = 2 \<or> maxu = 5
      then py_bind (MultiPlayState (my_session s) name maxu pw) (\<lambda>_. Inr (queue_state (To_multi name maxu pw) s))
      else Inr s)"

definition lobby_tabs_packet :: "s2c \<Rightarrow> lobby_state \<Rightarrow> lobby_state py" where
  "lobby_tabs_packet p s =
     (let (result, t) = tabs_handle_packet p (lb_tabs s); s = s\<lparr>lb_tabs := t\<rparr> in
      case result of
        None \<Rightarrow> Inr s
      | Some (i, nick) \<Rightarrow>
          py_bind (PopupBox screen_size (friend_message nick) [ACCEPT_TEXT, CLOSE_TEXT] None None None None) (\<lambda>pop.
            Inr (s\<lparr>friend_requester_id := Some i, friend_request_popup := Some pop, lb_reactable := False\<rparr>)))"

fun lobby_handle_packet :: "platform \<Rightarrow> s2c \<Rightarrow> lobby_state \<Rightarrow> lobby_state py" where
  "lobby_handle_packet pf (P_ERROR code) s =
     py_bind (dict_get ERROR_MESSAGES code) (\<lambda>m. py_bind (popup_of m) (\<lambda>p.
       Inr (s\<lparr>lb_error_popup := Some p, lb_reactable := False\<rparr>)))"
| "lobby_handle_packet pf (P_INFO kind) s =
     py_bind (dict_get INFO_MESSAGES kind) (\<lambda>m. py_bind (popup_of m) (\<lambda>p.
       Inr (s\<lparr>info_popup := Some p, lb_reactable := False\<rparr>)))"
| "lobby_handle_packet pf (P_LOBBY_USER_INFO i nick) s = lobby_tabs_packet (P_LOBBY_USER_INFO i nick) s"
| "lobby_handle_packet pf (P_FRIEND_INFO i nick st) s = lobby_tabs_packet (P_FRIEND_INFO i nick st) s"
| "lobby_handle_packet pf (P_ADD_FRIEND i nick) s = lobby_tabs_packet (P_ADD_FRIEND i nick) s"
| "lobby_handle_packet pf (P_DELETE_FRIEND i) s = lobby_tabs_packet (P_DELETE_FRIEND i) s"
| "lobby_handle_packet pf (P_REQUEST_FRIEND i nick) s = lobby_tabs_packet (P_REQUEST_FRIEND i nick) s"
| "lobby_handle_packet pf (P_MESSAGE i name msg) s =
     Inr (s\<lparr>lb_chat := add_new_message (pf_width pf) name msg (lb_chat s)\<rparr>)"
| "lobby_handle_packet pf (P_ROOM_INFO key name maxu cur priv play) s = Inr (s\<lparr>lb_rooms := room_list_add
     \<lparr>room_key = key, room_name = name, max_user = maxu, cur_user = cur, is_private = priv, is_play = play\<rparr>
     (lb_rooms s)\<rparr>)"
| "lobby_handle_packet pf (P_ADD_OPEN_ROOM key maxu name) s = open_room name maxu None s"
| "lobby_handle_packet pf (P_ADD_LOCK_ROOM key maxu name pw) s = open_room name maxu (Some pw) s"
| "lobby_handle_packet pf _ s = Inr s"

subsection \<open>Events while no dialog is open\<close>

text \<open>The index of the first menu clicked.\<close>

fun menus_handle_event :: "collide \<Rightarrow> event \<Rightarrow> button list \<Rightarrow> nat option \<times> button list" where
  "menus_handle_event collide ev [] = (None, [])"
| "menus_handle_event collide ev (b # bs) =
     (let (c, b) = button_handle_event collide ev b in
      if c then (Some 0, b # bs)
      else let (k, bs) = menus_handle_event collide ev bs in (map_option Suc k, b # bs))"

text \<open>
  The menu's index is compared with the numbers first; the comparisons with texts that follow can
  not succeed on a number.
\<close>

definition lobby_menu :: "platform \<Rightarrow> nat \<Rightarrow> lobby_state \<Rightarrow> lobby_state py" where
  "lobby_menu pf k s =
     (if k = 0 then py_bind QuickStartWindow (\<lambda>w. Inr (s\<lparr>quick_start_window := Some w, lb_reactable := False\<rparr>))
      else if k = 1 then py_bind CreateRoomWindow (\<lambda>w. Inr (s\<lparr>room_create_window := Some w, lb_reactable := False\<rparr>))
      else if k = 2 then Inr (queue_state To_ranking s)
      else if k = 4 then py_bind (SettingWindow (pf_floats pf) (lb_sounds s)) (\<lambda>w.
        Inr (s\<lparr>lb_setting_window := Some w, lb_reactable := False\<rparr>))
      else if k = 5 then py_bind (PopupBox screen_size EXIT_QUESTION [EXIT_GAME_TEXT, CONTINUE_TEXT] None None None None) (\<lambda>p.
        Inr (s\<lparr>exit_popup := Some p, lb_reactable := False\<rparr>))
      else Inr s)"

text \<open>\<open>build_join_room_pkt(self.join_room_key, pw)\<close>; packing \<open>None\<close> as the key raises.\<close>

definition send_join :: "pystr option \<Rightarrow> lobby_state \<Rightarrow> lobby_state py" where
  "send_join pw s = (case join_room_key s of
     Some k \<Rightarrow> send (Join k pw) s
   | None \<Rightarrow> (case pw of
       Some (c # cs) \<Rightarrow> py_bind (str_to_bytes (c # cs) MAX_ROOM_PASSWORD) (\<lambda>_. Inl StructError)
     | _ \<Rightarrow> Inl StructError))"

text \<open>\<open>self.room_list.show_rooms[index]\<close> is the room at that place of the part of the list in view.\<close>

definition lobby_rooms_event :: "platform \<Rightarrow> event \<Rightarrow> lobby_state \<Rightarrow> lobby_state py" where
  "lobby_rooms_event pf ev s =
     (let (room_event, l) = room_list_handle_event (pf_collide pf) ev (lb_rooms s); s = s\<lparr>lb_rooms := l\<rparr> in
      case room_event of
        None \<Rightarrow> Inr s
      | Some Refresh \<Rightarrow> request_room_list s
      | Some (Join_room k) \<Rightarrow>
          let room = rooms l ! (nat (show_start l) + k); s = s\<lparr>join_room_key := Some (room_key (ri_data room))\<rparr> in
          if is_private (ri_data room)
          then py_bind (InputWindow [JOIN_TEXT, CANCEL_TEXT]) (\<lambda>w.
            Inr (s\<lparr>input_pw_window := Some w, lb_reactable := False\<rparr>))
          else py_bind (send_join None s) (\<lambda>s. Inr (s\<lparr>join_room_key := None\<rparr>)))"

definition lobby_chat_event :: "platform \<Rightarrow> event \<Rightarrow> lobby_state \<Rightarrow> lobby_state py" where
  "lobby_chat_event pf ev s =
     py_bind (chat_handle_event (pf_printable pf) (pf_collide pf) ev (lb_chat s)) (\<lambda>(message, c).
       let s = s\<lparr>lb_chat := c\<rparr> in case message of None \<Rightarrow> Inr s | Some m \<Rightarrow> send (Message m) s)"

definition send_friend :: "(int \<Rightarrow> request) \<Rightarrow> lobby_state \<Rightarrow> lobby_state py" where
  "send_friend r s = (case friend_ev_target_id s of None \<Rightarrow> Inl StructError | Some i \<Rightarrow> send (r i) s)"

definition friend_button :: "event_friend \<Rightarrow> pystr \<Rightarrow> button" where
  "friend_button e txt = Button \<lparr>rect_x = fst (ev_pos e), rect_y = snd (ev_pos e), rect_w = 50, rect_h = 25\<rparr> True txt"

definition lobby_tabs_event :: "platform \<Rightarrow> event \<Rightarrow> lobby_state \<Rightarrow> lobby_state py" where
  "lobby_tabs_event pf ev s =
     py_bind (tabs_handle_event (pf_collide pf) ev (lb_tabs s)) (\<lambda>(r, t).
       let s = s\<lparr>lb_tabs := t\<rparr> in
       case r of
         None \<Rightarrow> Inr s
       | Some (Refresh_tab n) \<Rightarrow>
           if n = USER_TAB_NAME then request_lobby_user_list s
           else if n = FRIEND_TAB_NAME then request_friend_list s
           else Inl AttributeError
       | Some (Friend_event e) \<Rightarrow>
           let s = s\<lparr>friend_ev_target_id := Some (target_id e)\<rparr> in
           if ev_type e = ADD_EVENT then Inr (s\<lparr>friend_ev_btn := Some (friend_button e ADD_FRIEND_TEXT)\<rparr>)
           else if ev_type e = DELETE_EVENT then Inr (s\<lparr>friend_ev_btn := Some (friend_button e DELETE_FRIEND_TEXT)\<rparr>)
           else Inl NameError)"

text \<open>Events with a position: the friend button lies above the tabs.\<close>

definition lobby_mouse_event :: "platform \<Rightarrow> event \<Rightarrow> lobby_state \<Rightarrow> lobby_state py" where
  "lobby_mouse_event pf ev s = (case friend_ev_btn s of
     None \<Rightarrow> lobby_tabs_event pf ev s
   | Some b \<Rightarrow>
       let (c, b) = button_handle_event (pf_collide pf) ev b; s = s\<lparr>friend_ev_btn := Some b\<rparr> in
       if c then
         py_bind (if btn_text b = ADD_FRIEND_TEXT then send_friend Request_friend s
                  else if btn_text b = DELETE_FRIEND_TEXT then send_friend Delete_friend s
                  else Inr s) (\<lambda>s.
           Inr (s\<lparr>friend_ev_btn := None, friend_ev_target_id := None\<rparr>))
       else
         let s = (case left_down ev of
               None \<Rightarrow> s
             | Some p \<Rightarrow> if pf_collide pf (btn_rect b) p then s
                 else s\<lparr>friend_ev_btn := None, friend_ev_target_id := None\<rparr>)
         in lobby_tabs_event pf ev s)"

definition lobby_open_event :: "platform \<Rightarrow> event \<Rightarrow> lobby_state \<Rightarrow> lobby_state py" where
  "lobby_open_event pf ev s =
     (let (menu, bs) = menus_handle_event (pf_collide pf) ev (top_menus s); s = s\<lparr>top_menus := bs\<rparr> in
      case menu of
        Some k \<Rightarrow> lobby_menu pf k s
      | None \<Rightarrow>
          py_bind (lobby_rooms_event pf ev s) (\<lambda>s.
          py_bind (lobby_chat_event pf ev s) (\<lambda>s.
            if event_pos ev \<noteq> None then lobby_mouse_event pf ev s else Inr s)))"

subsection \<open>Events while a dialog is open\<close>

definition answered :: "pystr option \<Rightarrow> bool" where
  "answered r \<longleftrightarrow> r \<noteq> None \<and> r \<noteq> Some []"

definition quick_start_event :: "platform \<Rightarrow> event \<Rightarrow> popup \<Rightarrow> lobby_state \<Rightarrow> lobby_state py" where
  "quick_start_event pf ev w s =
     (let (r, w) = popup_handle_event (pf_collide pf) ev w in
      if r = None then Inr (s\<lparr>quick_start_window := Some w\<rparr>)
      else let s = s\<lparr>quick_start_window := None\<rparr> in
        if r = Some QUICK_START_SINGLE_TEXT
        then py_bind (send (Create QUICK_START_SINGLE_ROOM_NAME 1 True None) s) (\<lambda>s. Inr (s\<lparr>lb_reactable := True\<rparr>))
        else if r = Some QUICK_START_MULTI_TEXT
        then py_bind FastMatchingWindow (\<lambda>w. Inr (s\<lparr>lb_fast_window := Some w\<rparr>))
        else if r = Some CANCEL_TEXT then Inr (s\<lparr>lb_reactable := True\<rparr>)
        else Inr s)"

definition fast_event :: "platform \<Rightarrow> event \<Rightarrow> fast_matching_window \<Rightarrow> lobby_state \<Rightarrow> lobby_state py" where
  "fast_event pf ev w s =
     (let (r, rs, w) = fast_handle_event (pf_collide pf) ev w in
      py_bind (send_all rs (s\<lparr>lb_fast_window := Some w\<rparr>)) (\<lambda>s.
        Inr (if answered r then s\<lparr>lb_fast_window := None, lb_reactable := True\<rparr> else s)))"

definition create_event :: "platform \<Rightarrow> event \<Rightarrow> create_room_window \<Rightarrow> lobby_state \<Rightarrow> lobby_state py" where
  "create_event pf ev w s =
     py_bind (create_handle_event (pf_printable pf) (pf_collide pf) ev w) (\<lambda>(r, rs, w).
     py_bind (send_all rs (s\<lparr>room_create_window := Some w\<rparr>)) (\<lambda>s.
       Inr (if r = Some MAKE_TEXT \<or> r = Some CANCEL_TEXT
            then s\<lparr>room_create_window := None, lb_reactable := True\<rparr> else s)))"

definition exit_event :: "platform \<Rightarrow> event \<Rightarrow> popup \<Rightarrow> lobby_state \<Rightarrow> lobby_state py" where
  "exit_event pf ev p s =
     (let (r, p) = popup_handle_event (pf_collide pf) ev p; s = s\<lparr>exit_popup := Some p\<rparr> in
      if r = Some EXIT_GAME_TEXT then py_bind (send Disconnect s) (\<lambda>s. Inr (s\<lparr>lb_exited := True\<rparr>))
      else if r = Some CONTINUE_TEXT then Inr (s\<lparr>exit_popup := None, lb_reactable := True\<rparr>)
      else Inr s)"

definition settings_event :: "platform \<Rightarrow> event \<Rightarrow> setting_window \<Rightarrow> lobby_state \<Rightarrow> lobby_state py" where
  "settings_event pf ev w s =
     py_bind (setting_handle_event (pf_floats pf) (pf_collide pf) ev (w, lb_sounds s)) (\<lambda>(r, w, snds).
       let s = s\<lparr>lb_setting_window := Some w, lb_sounds := snds\<rparr> in
       if r = Some SUCCESS_TEXT
       then py_bind (popup_of SAVED_TEXT) (\<lambda>p. Inr (s\<lparr>save_success_popup := Some p, lb_setting_window := None\<rparr>))
       else if r = Some CANCEL_TEXT then Inr (s\<lparr>lb_reactable := True, lb_setting_window := None\<rparr>)
       else Inr s)"

definition password_event :: "platform \<Rightarrow> event \<Rightarrow> input_window \<Rightarrow> lobby_state \<Rightarrow> lobby_state py" where
  "password_event pf ev w s =
     py_bind (inputw_handle_event (pf_printable pf) (pf_collide pf) ev w) (\<lambda>(r, w).
       let s = s\<lparr>input_pw_window := Some w\<rparr> in
       if r = None then Inr s
       else py_bind (if r = Some JOIN_TEXT
           then py_bind (extract_text (iw_input w)) (\<lambda>(pw, _). send_join (Some pw) s) else Inr s) (\<lambda>s.
         Inr (s\<lparr>lb_reactable := True, input_pw_window := None, join_room_key := None\<rparr>)))"

definition friend_request_event :: "platform \<Rightarrow> event \<Rightarrow> popup \<Rightarrow> lobby_state \<Rightarrow> lobby_state py" where
  "friend_request_event pf ev p s =
     (let (r, p) = popup_handle_event (pf_collide pf) ev p; s = s\<lparr>friend_request_popup := Some p\<rparr> in
      if r = None then Inr s
      else py_bind (if r = Some ACCEPT_TEXT
          then (case friend_requester_id s of None \<Rightarrow> Inl StructError | Some i \<Rightarrow> send (Accept_friend i) s)
          else Inr s) (\<lambda>s.
        Inr (s\<lparr>friend_request_popup := None, friend_requester_id := None, lb_reactable := True\<rparr>)))"

text \<open>The first dialog of this order that is open gets the event.\<close>

definition lobby_dialog_event :: "platform \<Rightarrow> event \<Rightarrow> lobby_state \<Rightarrow> lobby_state py" where
  "lobby_dialog_event pf ev s = (case lb_error_popup s of
     Some p \<Rightarrow> let (r, p) = popup_handle_event (pf_collide pf) ev p
       in Inr (if answered r then s\<lparr>lb_error_popup := None, lb_reactable := True\<rparr> else s\<lparr>lb_error_popup := Some p\<rparr>)
   | None \<Rightarrow> (case quick_start_window s of Some w \<Rightarrow> quick_start_event pf ev w s
   | None \<Rightarrow> (case lb_fast_window s of Some w \<Rightarrow> fast_event pf ev w s
   | None \<Rightarrow> (case room_create_window s of Some w \<Rightarrow> create_event pf ev w s
   | None \<Rightarrow> (case exit_popup s of Some p \<Rightarrow> exit_event pf ev p s
   | None \<Rightarrow> (case lb_setting_window s of Some w \<Rightarrow> settings_event pf ev w s
   | None \<Rightarrow> (case save_success_popup s of
       Some p \<Rightarrow> let (r, p) = popup_handle_event (pf_collide pf) ev p
         in Inr (if r = Some OK_TEXT then s\<lparr>lb_reactable := True, save_success_popup := None\<rparr>
                 else s\<lparr>save_success_popup := Some p\<rparr>)
   | None \<Rightarrow> (case input_pw_window s of Some w \<Rightarrow> password_event pf ev w s
   | None \<Rightarrow> (case info_popup s of
       Some p \<Rightarrow> let (r, p) = popup_handle_event (pf_collide pf) ev p
         in Inr (if r = Some OK_TEXT then s\<lparr>info_popup := None, lb_reactable := True\<rparr> else s\<lparr>info_popup := Some p\<rparr>)
   | None \<Rightarrow> (case friend_request_popup s of Some p \<Rightarrow> friend_request_event pf ev p s
   | None \<Rightarrow> Inr s))))))))))"

definition lobby_handle_event :: "platform \<Rightarrow> event \<Rightarrow> lobby_state \<Rightarrow> lobby_state py" where
  "lobby_handle_event pf ev s = (if lb_reactable s then lobby_open_event pf ev s else lobby_dialog_event pf ev s)"

text \<open>The loop over the events ends with the program.\<close>

definition lobby_event :: "platform \<Rightarrow> event \<Rightarrow> lobby_state \<Rightarrow> lobby_state py" where
  "lobby_event pf ev s = (if lb_exited s then Inr s else lobby_handle_event pf ev s)"

definition lobby_update :: "platform \<Rightarrow> rat \<Rightarrow> event list \<Rightarrow> lobby_state \<Rightarrow> (scene option \<times> lobby_state) py" where
  "lobby_update pf dt_ms events s =
     py_bind (py_for (lobby_event pf) events (s\<lparr>lb_chat := chat_update dt_ms (lb_chat s)\<rparr>)) (\<lambda>s.
       if lb_exited s then Inr (None, s)
       else
         let s = s\<lparr>room_create_window := map_option (create_update dt_ms) (room_create_window s),
                   input_pw_window := map_option (inputw_update dt_ms) (input_pw_window s)\<rparr>
         in Inr (consume_state (update_fade dt_ms s)))"

text \<open>\<open>draw\<close> draws the lists, which moves the rectangles of their items.\<close>

definition lobby_draw :: "lobby_state \<Rightarrow> lobby_state py" where
  "lobby_draw s =
     py_bind (room_list_draw (lb_rooms s)) (\<lambda>l.
     py_bind (tabs_draw (lb_tabs s)) (\<lambda>t.
       Inr (s\<lparr>lb_rooms := l, lb_chat := set_show_range (chat_items_len (lb_chat s)) (lb_chat s), lb_tabs := t\<rparr>)))"

end
