(* ===== verification/Login.thy ===== *)
theory Login
  imports Lobby
begin

text \<open>
  The first and the smallest scenes: \<open>LoginState\<close> (\<^verbatim>\<open>client/tetris/states/login_state.py\<close>)
  with its labelled text fields, \<open>LabelFrame\<close> (ui/label_frame.py), and \<open>RankingState\<close>
  (states/ranking_state.py). What they draw is in \<open>SceneDraw\<close>.
\<close>

subsection \<open>Labelled text field\<close>

record label_frame =
  frame_rect :: rect
  lf_input :: input_box

definition LabelFrame :: "rect \<Rightarrow> rect \<Rightarrow> pystr \<Rightarrow> int option \<Rightarrow> bool \<Rightarrow> bool \<Rightarrow> label_frame" where
  "LabelFrame input_rect label_rect holder max_len password korean =
     \<lparr>frame_rect = label_rect, lf_input = InputBox input_rect holder max_len password korean\<rparr>"

definition label_handle_event :: "(nat \<Rightarrow> bool) \<Rightarrow> collide \<Rightarrow> event \<Rightarrow> label_frame \<Rightarrow> (pystr option \<times> label_frame) py" where
  "label_handle_event isprintable collide ev l =
     py_bind (input_handle_event isprintable collide ev (lf_input l)) (\<lambda>(r, b). Inr (r, l\<lparr>lf_input := b\<rparr>))"

definition label_update :: "rat \<Rightarrow> label_frame \<Rightarrow> label_frame" where
  "label_update dt_ms l = l\<lparr>lf_input := input_update dt_ms (lf_input l)\<rparr>"

subsection \<open>Login\<close>

definition ID_HOLDER :: pystr where "ID_HOLDER = [0xC544, 0xC774, 0xB514]"
definition PW_HOLDER :: pystr where "PW_HOLDER = [0xBE44, 0xBC00, 0xBC88, 0xD638]"
definition LOGIN_TEXT :: pystr where "LOGIN_TEXT = [0xB85C, 0xADF8, 0xC778]"
definition CONNECT_FAILED :: pystr where "CONNECT_FAILED = [0xC11C, 0xBC84, 0xC640, 0xC758, 32, 0xC5F0, 0xACB0, 0xC774, 32, 0xC6D0, 0xD65C, 0xD558, 0xC9C0, 32, 0xC54A, 0xC2B5, 0xB2C8, 0xB2E4, 46]"
definition RETRY_TEXT :: pystr where "RETRY_TEXT = [0xC7AC, 0xC2DC, 0xB3C4]"
definition QUIT_TEXT :: pystr where "QUIT_TEXT = [0xC885, 0xB8CC]"

text \<open>
  \<open>li_attempts\<close> counts the attempts to connect; whether the \<open>n\<close>-th one succeeds is up to the
  network, a parameter. \<open>li_exited\<close> records \<open>raise SystemExit\<close>.
\<close>

record login_state = base_state +
  id_label :: label_frame
  pw_label :: label_frame
  btn_login :: button
  li_reactable :: bool
  fail_connect_popup :: "popup option"
  fail_login_popup :: "popup option"
  li_attempts :: nat
  li_exited :: bool

text \<open>The two adjustment scales are 1, so the text field fills its label.\<close>

definition login_label :: "int \<Rightarrow> int \<Rightarrow> pystr \<Rightarrow> bool \<Rightarrow> label_frame" where
  "login_label x y holder password =
     (let r = \<lparr>rect_x = x, rect_y = y, rect_w = 400, rect_h = 50\<rparr>;
          l = LabelFrame r r holder (Some (int MAX_INPUT)) password False
      in l\<lparr>lf_input := (lf_input l)\<lparr>text_h := 30, ib_padding := 15\<rparr>\<rparr>)"

definition LoginState :: "session \<Rightarrow> login_state" where
  "LoginState se =
     (let (sw, sh) = screen_size; label_w = 400; label_h = 50; button_w = 200; button_h = 100; button_gap = 50;
          total_h = label_h * 2 + 10 + button_gap + button_h;
          y0 = (sh - total_h) div 2; x0 = (sw - label_w) div 2;
          y1 = y0 + label_h + 10;
          btn_rect = \<lparr>rect_x = x0 + (label_w - button_w) div 2, rect_y = y1 + label_h + button_gap,
                      rect_w = button_w, rect_h = button_h\<rparr>
      in base_state.extend (BaseState se) (login_state.fields (login_label x0 y0 ID_HOLDER False)
           (login_label x0 y1 PW_HOLDER True) (Button btn_rect True LOGIN_TEXT) True None None 0 False))"

definition login_connect :: "(nat \<Rightarrow> bool) \<Rightarrow> login_state \<Rightarrow> login_state py" where
  "login_connect net s =
     (let n = li_attempts s; s = s\<lparr>li_attempts := n + 1\<rparr> in
      if net n then Inr s
      else py_bind (PopupBox screen_size CONNECT_FAILED [RETRY_TEXT, QUIT_TEXT] None None None None) (\<lambda>p.
        Inr (s\<lparr>fail_connect_popup := Some p, li_reactable := False\<rparr>)))"

text \<open>The session is the object all scenes share, so the lobby that is constructed has the new one.\<close>

fun login_handle_packet :: "s2c \<Rightarrow> login_state \<Rightarrow> login_state py" where
  "login_handle_packet (P_ERROR code) s =
     py_bind (dict_get ERROR_MESSAGES code) (\<lambda>m. py_bind (popup_of m) (\<lambda>p.
       Inr (s\<lparr>fail_login_popup := Some p, li_reactable := False\<rparr>)))"
| "login_handle_packet (P_LOGIN i best w l name) s =
     Inr (queue_state To_lobby (s\<lparr>my_session := (my_session s)\<lparr>s_id := i, nickname := name, win := w, lose := l,
       max_score := best\<rparr>\<rparr>))"
| "login_handle_packet _ s = Inr s"

text \<open>\<open>str(x)\<close> of a text or \<open>None\<close>, which the packet builder applies.\<close>

definition str_of :: "pystr option \<Rightarrow> pystr" where
  "str_of r = (case r of None \<Rightarrow> [78, 111, 110, 101] | Some t \<Rightarrow> t)"

definition login_labels_event :: "platform \<Rightarrow> event \<Rightarrow> login_state \<Rightarrow> (pystr option \<times> pystr option \<times> login_state) py" where
  "login_labels_event pf ev s =
     py_bind (label_handle_event (pf_printable pf) (pf_collide pf) ev (id_label s)) (\<lambda>(i, il).
     py_bind (label_handle_event (pf_printable pf) (pf_collide pf) ev (pw_label s)) (\<lambda>(p, pl).
       Inr (i, p, s\<lparr>id_label := il, pw_label := pl\<rparr>)))"

definition login_open_event :: "platform \<Rightarrow> event \<Rightarrow> login_state \<Rightarrow> login_state py" where
  "login_open_event pf ev s =
     py_bind (login_labels_event pf ev s) (\<lambda>(i, p, s).
       if ev = KEYDOWN K_RETURN then send (Login (str_of i) (str_of p)) s
       else let (c, b) = button_handle_event (pf_collide pf) ev (btn_login s); s = s\<lparr>btn_login := b\<rparr> in
         if c then
           py_bind (extract_text (lf_input (id_label s))) (\<lambda>(i, ib).
           py_bind (extract_text (lf_input (pw_label s))) (\<lambda>(p, pb).
             send (Login i p) (s\<lparr>id_label := (id_label s)\<lparr>lf_input := ib\<rparr>, pw_label := (pw_label s)\<lparr>lf_input := pb\<rparr>\<rparr>)))
         else Inr s)"

definition login_popup_event :: "platform \<Rightarrow> (nat \<Rightarrow> bool) \<Rightarrow> event \<Rightarrow> login_state \<Rightarrow> login_state py" where
  "login_popup_event pf net ev s = (case fail_connect_popup s of
     Some p \<Rightarrow> let (r, p) = popup_handle_event (pf_collide pf) ev p in
       if r = Some RETRY_TEXT then login_connect net (s\<lparr>fail_connect_popup := None, li_reactable := True\<rparr>)
       else if r = Some QUIT_TEXT then Inr (s\<lparr>fail_connect_popup := Some p, li_exited := True\<rparr>)
       else Inr (s\<lparr>fail_connect_popup := Some p\<rparr>)
   | None \<Rightarrow> (case fail_login_popup s of
       Some p \<Rightarrow> let (r, p) = popup_handle_event (pf_collide pf) ev p in
         Inr (if r = Some OK_TEXT then s\<lparr>fail_login_popup := None, li_reactable := True\<rparr>
              else s\<lparr>fail_login_popup := Some p\<rparr>)
     | None \<Rightarrow> Inr s))"

definition login_handle_event :: "platform \<Rightarrow> (nat \<Rightarrow> bool) \<Rightarrow> event \<Rightarrow> login_state \<Rightarrow> login_state py" where
  "login_handle_event pf net ev s =
     (if li_exited s then Inr s
      else if li_reactable s then login_open_event pf ev s else login_popup_event pf net ev s)"

definition login_update :: "platform \<Rightarrow> (nat \<Rightarrow> bool) \<Rightarrow> rat \<Rightarrow> event list \<Rightarrow> login_state \<Rightarrow> (scene option \<times> login_state) py" where
  "login_update pf net dt_ms events s = py_bind (py_for (login_handle_event pf net) events s) (\<lambda>s.
     if li_exited s then Inr (None, s)
     else let s = s\<lparr>id_label := label_update dt_ms (id_label s), pw_label := label_update dt_ms (pw_label s)\<rparr>
       in Inr (consume_state (update_fade dt_ms s)))"

subsection \<open>Ranking\<close>

definition BACK_BUTTON_TEXT :: pystr where "BACK_BUTTON_TEXT = [0xB3CC, 0xC544, 0xAC00, 0xAE30]"

text \<open>A row is the rectangle and text of its two boxes.\<close>

record ranking_state = base_state +
  btn_back :: button
  rk_panel :: rect
  header_name :: rect
  header_score :: rect
  rk_rows :: "((rect \<times> pystr) \<times> (rect \<times> pystr)) list"
  rankings :: "(pystr \<times> int) list"

definition rank_texts :: "(pystr \<times> int) list \<Rightarrow> nat \<Rightarrow> pystr \<times> pystr" where
  "rank_texts infos k =
     (if k < length infos then (int_str (int k + 1) @ [46, 32] @ fst (infos ! k), int_str (snd (infos ! k)))
      else ([], []))"

definition rebuild_rows :: "ranking_state \<Rightarrow> ranking_state" where
  "rebuild_rows s =
     (let panel = rk_panel s; header_h = rect_h (header_name s);
          body_y = rect_y panel + header_h; body_h = rect_h panel - header_h;
          row_h = max 40 (body_h div 10); half_w = rect_w panel div 2
      in s\<lparr>rk_rows := map (\<lambda>k.
           let (name, pts) = rank_texts (rankings s) k; y = body_y + int k * row_h
           in ((\<lparr>rect_x = rect_x panel, rect_y = y, rect_w = half_w, rect_h = row_h\<rparr>, name),
               (\<lparr>rect_x = rect_x panel + half_w, rect_y = y, rect_w = rect_w panel - half_w, rect_h = row_h\<rparr>, pts)))
           [0..<10]\<rparr>)"

definition request_ranking :: "ranking_state \<Rightarrow> ranking_state py" where
  "request_ranking s = send Ranking (s\<lparr>rankings := [], rk_rows := []\<rparr>)"

definition RankingState :: "session \<Rightarrow> ranking_state py" where
  "RankingState se =
     (let (sw, sh) = screen_size;
          back_rect = \<lparr>rect_x = sw - MENU_WIDTH, rect_y = 0, rect_w = MENU_WIDTH, rect_h = MENU_HEIGHT\<rparr>;
          panel_w = scaled sw (75 / 100); panel_h = scaled (sh - MENU_HEIGHT) (8 / 10);
          panel = \<lparr>rect_x = (sw - panel_w) div 2, rect_y = (sh - panel_h) div 2, rect_w = panel_w, rect_h = panel_h\<rparr>;
          header_h = max 60 (panel_h div 12); half_w = panel_w div 2
      in request_ranking (rebuild_rows (base_state.extend (BaseState se) (ranking_state.fields
           (Button back_rect True BACK_BUTTON_TEXT) panel
           (panel\<lparr>rect_w := half_w, rect_h := header_h\<rparr>)
           (panel\<lparr>rect_x := rect_x panel + half_w, rect_w := panel_w - half_w, rect_h := header_h\<rparr>) [] []))))"

fun ranking_handle_packet :: "s2c \<Rightarrow> ranking_state \<Rightarrow> ranking_state py" where
  "ranking_handle_packet (P_RANKING_INFO nick pts) s =
     Inr (rebuild_rows (s\<lparr>rankings := rankings s @ [(nick, pts)]\<rparr>))"
| "ranking_handle_packet _ s = Inr s"

definition ranking_handle_event :: "collide \<Rightarrow> event \<Rightarrow> ranking_state \<Rightarrow> ranking_state" where
  "ranking_handle_event collide ev s =
     (let (c, b) = button_handle_event collide ev (btn_back s); s = s\<lparr>btn_back := b\<rparr>
      in if c then queue_state To_lobby s else s)"

definition ranking_update :: "collide \<Rightarrow> rat \<Rightarrow> event list \<Rightarrow> ranking_state \<Rightarrow> scene option \<times> ranking_state" where
  "ranking_update collide dt_ms events s =
     consume_state (update_fade dt_ms (fold (ranking_handle_event collide) events s))"

end
