(* ===== verification/Drawing.thy ===== *)
theory Drawing
  imports BoardDraw Login
begin

text \<open>
  What the lists, the chat, the dialogs and the sessions of a game put on the screen, from the states
  of the theories before. A widget's own \<open>draw\<close> is in \<open>Visuals\<close>, that of a board in \<open>BoardDraw\<close>. The
  size of a text in a font and the images by their key are parameters.
\<close>

subsection \<open>Layers\<close>

text \<open>
  A drawing is the list of its layers from the lowest on. \<open>Widget\<close> and \<open>Toggle\<close> stand for
  \<open>draw()\<close> of a button, \<open>Line\<close> is a line between two points, the last two are an image and a text
  with an alpha value.
\<close>

datatype layer =
    Drawn blit
  | Widget button
  | Toggle toggle_button
  | Line "int list" "int \<times> int" "int \<times> int"
  | Ghost int image int int
  | Faded int pystr int int

type_synonym text_size = "int \<Rightarrow> pystr \<Rightarrow> int \<times> int"

definition CLEAR :: "int list" where "CLEAR = [0, 0, 0, 0]"
definition SHADE :: "int list" where "SHADE = [0, 0, 0, 120]"

definition boxed :: "int list \<Rightarrow> rect \<Rightarrow> layer list" where
  "boxed c r = [Drawn (Fill c r), Drawn (Frame WHITE 1 r)]"

text \<open>A text in the middle of a rectangle, in a font of the given size.\<close>

definition centred_text :: "text_size \<Rightarrow> int \<Rightarrow> pystr \<Rightarrow> rect \<Rightarrow> layer" where
  "centred_text ts f t rc =
     (let (cx, cy) = center_pos rc; (tw, th) = ts f t in
      Drawn (Blit_text t (py_trunc (of_int cx - of_int tw / 2)) (py_trunc (of_int cy - of_int th / 2))))"

definition rectangle_layers :: "text_size \<Rightarrow> rectangle \<Rightarrow> layer list" where
  "rectangle_layers ts r = map Drawn (draw_rectangle ts r)"

definition plain_rectangle :: "int list \<Rightarrow> int \<Rightarrow> rect \<Rightarrow> pystr \<Rightarrow> rectangle" where
  "plain_rectangle c border rc txt = set_background_color c (Rectangle rc False None txt border)"

subsection \<open>Text field and popup\<close>

text \<open>A field's font always has the size \<open>text_h\<close>; a field in a frame or in the chat has no holder image.\<close>

definition input_draw :: "text_size \<Rightarrow> image option \<Rightarrow> input_box \<Rightarrow> layer list py" where
  "input_draw ts holder b =
     (let tsz = ts (rounded_size (text_h b)) in
      py_bind (get_render_text (\<lambda>t. fst (tsz t)) b) (\<lambda>show_text.
       let r = ib_rect b;
           txt = (if show_text = [] \<and> \<not> ib_active b then placeholder b else show_text);
           text_x = rect_x r + ib_padding b;
           text_y = rect_y r + (rect_h r - snd (tsz txt)) div 2
       in Inr ((case holder of None \<Rightarrow> [] | Some i \<Rightarrow> [Drawn (Blit_image (scale_image i (rect_w r) (rect_h r)) (rect_x r) (rect_y r))]) @
          [Drawn (Blit_text txt text_x text_y)] @
          (if ib_active b \<and> cursor_visible b
           then [Drawn (Fill WHITE \<lparr>rect_x = text_x + fst (tsz txt), rect_y = text_y, rect_w = 2, rect_h = text_h b\<rparr>)] else []))))"

definition label_draw :: "text_size \<Rightarrow> image \<Rightarrow> label_frame \<Rightarrow> layer list py" where
  "label_draw ts frame_image l = py_bind (input_draw ts None (lf_input l)) (\<lambda>ls.
     Inr (Drawn (Blit_image frame_image (rect_x (frame_rect l)) (rect_y (frame_rect l))) # ls))"

definition popup_draw :: "text_size \<Rightarrow> image \<Rightarrow> popup \<Rightarrow> layer list" where
  "popup_draw ts background p =
     (let (sw, sh) = screen_size in
      [Drawn (Fill [0, 0, 0, 128] \<lparr>rect_x = 0, rect_y = 0, rect_w = sw, rect_h = sh\<rparr>)] @
      rectangle_layers ts (Rectangle (pop_window p) True (Some background) [] 0) @
      [centred_text ts POPUPBOX_FONT_SIZE (pop_message p) (pop_message_window p)] @
      map Widget (pop_buttons p))"

subsection \<open>Scrolling windows\<close>

definition scroll_draw :: "'a scroll_window_scheme \<Rightarrow> layer list" where
  "scroll_draw s = [Drawn (Fill [0, 0, 0, 192] (bg_scroll_rect s)),
     Drawn (Fill (if can_drag s then PRESS_ORANGE else WHITE) (scroll_rect s))]"

text \<open>The loop of \<open>draw\<close> over the items in view, each at its line.\<close>

definition draw_items :: "(int \<Rightarrow> int \<Rightarrow> 'a scroll_window_scheme \<Rightarrow> (layer list \<times> 'a scroll_window_scheme) py)
    \<Rightarrow> 'a scroll_window_scheme \<Rightarrow> (layer list \<times> 'a scroll_window_scheme) py" where
  "draw_items item s =
     py_for (\<lambda>i (out, t). py_bind (item i (rect_y (window_rect t) + (i - show_start t) * line_height t) t) (\<lambda>(ls, t).
       Inr (out @ ls, t))) [show_start s..show_end s - 1] ([], s)"

subsection \<open>User list\<close>

definition user_info_draw :: "text_size \<Rightarrow> user_info \<Rightarrow> layer list" where
  "user_info_draw ts u = boxed (BLACK @ [120]) (ui_rect u) @
     [centred_text ts (rounded_size 15) (ui_nickname_text u) (ui_nickname_rect u),
      centred_text ts (rounded_size 15) (ui_state_text u) (ui_state_rect u)]"

definition NICKNAME_HEADER :: pystr where "NICKNAME_HEADER = [0xB2C9, 0xB124, 0xC784]"
definition STATE_HEADER :: pystr where "STATE_HEADER = [0xC0C1, 0xD0DC]"

definition user_background :: "user_list \<Rightarrow> rect" where
  "user_background l = (window_rect l)\<lparr>rect_y := rect_y (window_rect l) - HEADER_HEIGHT, rect_h := rect_h (window_rect l) + HEADER_HEIGHT\<rparr>"

definition user_header :: "text_size \<Rightarrow> user_list \<Rightarrow> layer list" where
  "user_header ts l =
     (let header = (user_background l)\<lparr>rect_h := HEADER_HEIGHT\<rparr>;
          nick = header\<lparr>rect_w := scaled (rect_w header) NICKNAME_WIDTH_RATE\<rparr>;
          st = header\<lparr>rect_x := rect_x nick + rect_w nick, rect_w := rect_w header - rect_w nick\<rparr>;
          head = (\<lambda>r t. rectangle_layers ts (set_border 0 (set_text_size 15 (plain_rectangle CLEAR 0 r t))))
      in boxed SHADE (user_background l) @ [Drawn (Frame WHITE 1 header)] @ head nick NICKNAME_HEADER @ head st STATE_HEADER)"

definition user_item :: "text_size \<Rightarrow> int \<Rightarrow> int \<Rightarrow> user_list \<Rightarrow> (layer list \<times> user_list) py" where
  "user_item ts i y l = py_bind (user_draw_item i y l) (\<lambda>l. py_bind (py_get (user_infos l) i) (\<lambda>u.
     Inr (user_info_draw ts u, l)))"

definition user_list_view :: "text_size \<Rightarrow> user_list \<Rightarrow> (layer list \<times> user_list) py" where
  "user_list_view ts l =
     (let l = set_show_range (user_items_len l) l in
      py_bind (draw_items (user_item ts) l) (\<lambda>(rows, l').
        Inr (user_header ts l @ scroll_draw l @ rows, update_show_user_infos l')))"

subsection \<open>Room list\<close>

definition room_columns :: "rect \<Rightarrow> rect list" where
  "room_columns r =
     (let w = rect_w r; w1 = scaled w (2 / 10); w2 = scaled w (4 / 10); w3 = scaled w (2 / 10); w4 = scaled w (1 / 10) in
      [r\<lparr>rect_w := w1\<rparr>, r\<lparr>rect_x := rect_x r + w1, rect_w := w2\<rparr>,
       r\<lparr>rect_x := rect_x r + w1 + w2, rect_w := w3\<rparr>, r\<lparr>rect_x := rect_x r + w1 + w2 + w3, rect_w := w4\<rparr>])"

definition captions :: "text_size \<Rightarrow> rect list \<Rightarrow> pystr list \<Rightarrow> layer list" where
  "captions ts rs ls = concat (map (\<lambda>(r, t). rectangle_layers ts (plain_rectangle CLEAR 0 r t)) (zip rs ls))"

text \<open>A room in play has a red caption instead of the button.\<close>

definition room_info_draw :: "text_size \<Rightarrow> image \<Rightarrow> int list \<Rightarrow> room_info \<Rightarrow> layer list" where
  "room_info_draw ts red colour r = boxed (colour @ [120]) (ri_rect r) @ captions ts (room_columns (ri_rect r)) (ri_texts r) @
     (case join_button r of
        Some b \<Rightarrow> [Widget b]
      | None \<Rightarrow> rectangle_layers ts (Rectangle (join_rect r) True (Some red) JOIN_TEXT 0))"

definition ROOM_HEADERS :: "pystr list" where "ROOM_HEADERS = [[0xACF5, 0xAC1C, 32, 0xC5EC, 0xBD80], [0xBC29, 32, 0xC81C, 0xBAA9], [0xC778, 0xC6D0, 32, 0xC218], [0xC0C1, 0xD0DC]]"
definition NO_ROOMS :: pystr where "NO_ROOMS = [0xCC38, 0xAC00, 32, 0xAC00, 0xB2A5, 0xD55C, 32, 0xBC29, 0xC774, 32, 0xC5C6, 0xC2B5, 0xB2C8, 0xB2E4]"

definition room_background :: "room_list \<Rightarrow> rect" where
  "room_background l = (window_rect l)\<lparr>rect_y := rect_y (window_rect l) - ROOM_INFO_HEIGHT, rect_h := rect_h (window_rect l) + ROOM_INFO_HEIGHT\<rparr>"

text \<open>Rooms are only appended, so a room's place tells which of the two colours it got.\<close>

definition room_item :: "text_size \<Rightarrow> image \<Rightarrow> int \<Rightarrow> int \<Rightarrow> room_list \<Rightarrow> (layer list \<times> room_list) py" where
  "room_item ts red i y l = py_bind (room_draw_item i y l) (\<lambda>l. py_bind (py_get (rooms l) i) (\<lambda>r.
     Inr (room_info_draw ts red (if i mod 2 \<noteq> 0 then GRAY else DARK_GRAY) r, l)))"

definition room_list_view :: "text_size \<Rightarrow> image \<Rightarrow> room_list \<Rightarrow> (layer list \<times> room_list) py" where
  "room_list_view ts red l =
     (let l = set_show_range (room_items_len l) l; bg = room_background l in
      py_bind (draw_items (room_item ts red) l) (\<lambda>(rows, l').
        let l' = update_show_rooms l'; (tw, th) = ts (rounded_size 30) NO_ROOMS; (cx, cy) = center_pos bg in
        Inr (boxed SHADE bg @ captions ts (room_columns (bg\<lparr>rect_h := ROOM_INFO_HEIGHT\<rparr>)) ROOM_HEADERS @ scroll_draw l @ rows @
          (if rooms l' = [] then [Drawn (Blit_text NO_ROOMS (cx - tw div 2) (cy - th div 2))] else []) @
          [Widget (btn_refresh l')], l')))"

subsection \<open>Chat\<close>

definition chat_item :: "int \<Rightarrow> int \<Rightarrow> chat_window \<Rightarrow> (layer list \<times> chat_window) py" where
  "chat_item i y c = py_bind (py_get (texts c) i) (\<lambda>t.
     Inr ([Drawn (Blit_text t (rect_x (window_rect c) + TEXT_START_OFFSET_X) y)], c))"

definition chat_view :: "text_size \<Rightarrow> chat_window \<Rightarrow> (layer list \<times> chat_window) py" where
  "chat_view ts c =
     (let c = set_show_range (chat_items_len c) c in
      py_bind (draw_items chat_item c) (\<lambda>(rows, c).
      py_bind (input_draw ts None (chat_input c)) (\<lambda>field.
        Inr (boxed SHADE (window_rect c) @ scroll_draw c @ rows @ boxed SHADE (ib_rect (chat_input c)) @ field, c))))"

subsection \<open>A session of the game\<close>

definition combo_draw :: "combo_animation \<Rightarrow> layer list" where
  "combo_draw a = (if active a
     then [Faded (get_alpha a) ([67, 111, 109, 98, 111, 32] @ int_str (combo_no a)) (draw_x a - 200)
       (py_trunc (of_int (draw_y a) - elapsed_time a / 10))] else [])"

definition gold_box :: "rect \<Rightarrow> pystr \<Rightarrow> rectangle" where
  "gold_box r t = set_text_size 20 ((plain_rectangle [0, 0, 0, 96] 1 r t)\<lparr>border_color := GOLD\<rparr>)"

definition nickname_rect :: "tsession \<Rightarrow> rect" where
  "nickname_rect p = (let v = valid_grid_rect (ts_board p) in
     v\<lparr>rect_y := rect_y v + rect_h v, rect_h := scaled (rect_h v) (1 / 10)\<rparr>)"

definition score_rect :: "tsession \<Rightarrow> rect" where
  "score_rect p = (let r = preview_rect (ts_board p) in r\<lparr>rect_y := rect_y r + rect_h r, rect_h := rect_h r div 2\<rparr>)"

text \<open>
  \<open>draw_frame\<close>, and \<open>draw_game\<close> with its cells and the shadow of the piece. The test
  \<open>self.state == PLAY or GAMEOVER_ANIMATING\<close> before the latter is always true.
\<close>

definition images_at :: "(image \<times> int \<times> int) list \<Rightarrow> layer list" where
  "images_at = map (\<lambda>(i, x, y). Drawn (Blit_image i x y))"

definition frame_layers :: "textures \<Rightarrow> board \<Rightarrow> layer list py" where
  "frame_layers tex b = py_bind (draw_preview tex b) (\<lambda>pre.
     Inr (map (\<lambda>(c, p, q). Line c p q) (draw_board_frame b) @ images_at pre))"

definition game_layers :: "textures \<Rightarrow> board \<Rightarrow> layer list py" where
  "game_layers tex b = py_bind (draw_game tex b) (\<lambda>(cs, ls). Inr (images_at cs @ map (\<lambda>(i, x, y). Ghost 80 i x y) ls))"

definition session_draw :: "text_size \<Rightarrow> image \<Rightarrow> textures \<Rightarrow> tsession \<Rightarrow> layer list py" where
  "session_draw ts crown tex p =
     (let b = ts_board p in
      py_bind (frame_layers tex b) (\<lambda>frame. case ts_session p of
        None \<Rightarrow> Inr frame
      | Some se \<Rightarrow> py_bind (game_layers tex b) (\<lambda>game. Inr (frame @ game @
          (if is_single p then concat (map combo_draw (combo_effects b)) else []) @
          rectangle_layers ts (gold_box (nickname_rect p) (nickname_text p)) @
          (if is_single p then rectangle_layers ts (gold_box (score_rect p) ([115, 99, 111, 114, 101, 58, 32] @ int_str (score p))) else []) @
          (if \<not> is_self se \<and> is_host p then rectangle_layers ts (Rectangle (ready_rect p) True (Some crown) [] 0) else []) @
          (if ts_state p = WAIT then
             (case btn_start p of Some b \<Rightarrow> [Widget b] | None \<Rightarrow> []) @
             (case btn_ready p of Some t \<Rightarrow> [Toggle t] | None \<Rightarrow> []) @
             (case btn_kick p of Some b \<Rightarrow> [Widget b] | None \<Rightarrow> [])
           else [])))))"

subsection \<open>Drawing and the state\<close>

text \<open>The lists' drawings move their items as \<open>user_list_draw\<close> and \<open>room_list_draw\<close> do, and fail when they do.\<close>

definition after :: "('l \<times> 's) py \<Rightarrow> 's py" where
  "after x = py_bind x (\<lambda>(_, s). Inr s)"

lemma after_for:
  assumes "\<And>i t. after (f i t) = g i t"
  shows "after (py_for (\<lambda>i (out, t). py_bind (f i t) (\<lambda>(ls, t). Inr (out @ ls, t))) xs (out, t)) = py_for g xs t"
proof (induction xs arbitrary: out t)
  case Nil
  then show ?case by (simp add: after_def)
next
  case (Cons i xs)
  have i: "g i t = after (f i t)" by (rule assms [symmetric])
  show ?case
  proof (cases "f i t")
    case (Inl e)
    with i show ?thesis by (simp add: after_def)
  next
    case (Inr r)
    then show ?thesis using i Cons.IH by (cases r) (simp add: after_def)
  qed
qed

lemma py_get_set: "py_set xs i x = Inr ys \<Longrightarrow> \<exists>y. py_get ys i = Inr y"
  by (auto simp: py_set_def py_get_def split: option.splits)

lemma after_user_item: "after (user_item ts i y l) = user_draw_item i y l"
  unfolding user_item_def user_draw_item_def after_def
  by (cases "py_get (user_infos l) i"; cases "py_set (user_infos l) i (user_set_rect ((base_user_rect l)\<lparr>rect_y := y\<rparr>) (projr (py_get (user_infos l) i)))")
    (auto dest: py_get_set)

lemma after_room_item: "after (room_item ts red i y l) = room_draw_item i y l"
  unfolding room_item_def room_draw_item_def after_def
  by (cases "py_get (rooms l) i"; cases "py_set (rooms l) i (room_update_rects y (projr (py_get (rooms l) i)))")
    (auto dest: py_get_set)

lemma after_user_list_view: "after (user_list_view ts l) = user_list_draw l"
proof -
  let ?l = "set_show_range (user_items_len l) l"
  have "after (user_list_view ts l) = py_bind (after (draw_items (user_item ts) ?l)) (\<lambda>l. Inr (update_show_user_infos l))"
    by (cases "draw_items (user_item ts) ?l") (auto simp: after_def user_list_view_def Let_def)
  then show ?thesis by (simp add: draw_items_def after_for after_user_item user_list_draw_def Let_def)
qed

lemma after_room_list_view: "after (room_list_view ts red l) = room_list_draw l"
proof -
  let ?l = "set_show_range (room_items_len l) l"
  have "after (room_list_view ts red l) = py_bind (after (draw_items (room_item ts red) ?l)) (\<lambda>l. Inr (update_show_rooms l))"
    by (cases "draw_items (room_item ts red) ?l") (auto simp: after_def room_list_view_def Let_def split: prod.splits)
  then show ?thesis by (simp add: draw_items_def after_for after_room_item room_list_draw_def Let_def)
qed

end
