(* ===== verification/LobbyFrames.thy ===== *)
theory LobbyFrames
  imports Lobby
begin

text \<open>
  What the handlers of the lobby's events leave alone. The interface \<open>unwritten\<close> is a part of the state
  that the events write nothing of while no dialog is open; it is interpreted on the own player's record
  and on the dialogs that only packets open. The handlers of a dialog write the fields that their
  lemmas name.
\<close>

subsection \<open>While no dialog is open\<close>

locale unwritten =
  fixes part :: "lobby_state \<Rightarrow> 'p"
  assumes part_writes [simp]:
    "part (sent_update v0 s) = part s"
    "part (next_state_update v1 s) = part s"
    "part (fade_mode_update v2 s) = part s"
    "part (fade_elapsed_ms_update v3 s) = part s"
    "part (top_menus_update v4 s) = part s"
    "part (lb_rooms_update v5 s) = part s"
    "part (lb_chat_update v6 s) = part s"
    "part (lb_tabs_update v7 s) = part s"
    "part (quick_start_window_update v8 s) = part s"
    "part (room_create_window_update v9 s) = part s"
    "part (lb_setting_window_update v10 s) = part s"
    "part (exit_popup_update v11 s) = part s"
    "part (input_pw_window_update v12 s) = part s"
    "part (lb_reactable_update v13 s) = part s"
    "part (join_room_key_update v14 s) = part s"
    "part (friend_ev_btn_update v15 s) = part s"
    "part (friend_ev_target_id_update v16 s) = part s"
begin

lemma queue_keeps [simp]: "part (queue_state sc s) = part s"
  by (simp add: queue_state_def start_fade_out_def Let_def)

lemma send_keeps: "send r s = Inr s' \<Longrightarrow> part s' = part s"
  by (auto dest: send_frame)

lemma requests_keep:
  "request_room_list s = Inr s' \<Longrightarrow> part s' = part s"
  "request_lobby_user_list s = Inr s' \<Longrightarrow> part s' = part s"
  "request_friend_list s = Inr s' \<Longrightarrow> part s' = part s"
  by (simp_all add: request_room_list_def request_lobby_user_list_def request_friend_list_def) (drule send_keeps, simp)+

lemma open_room_keeps: "open_room name maxu pw s = Inr s' \<Longrightarrow> part s' = part s"
  by (auto simp: open_room_def py_bind_eq_Inr split: if_splits)

lemma menu_keeps: "lobby_menu pf k s = Inr s' \<Longrightarrow> part s' = part s"
  by (auto simp: lobby_menu_def py_bind_eq_Inr split: if_splits)

lemma join_keeps: "send_join pw s = Inr s' \<Longrightarrow> part s' = part s"
  by (auto simp: send_join_def py_bind_eq_Inr dest: send_keeps split: option.splits list.splits)

lemma rooms_event_keeps: "lobby_rooms_event pf ev s = Inr s' \<Longrightarrow> part s' = part s"
  by (auto simp: lobby_rooms_event_def py_bind_eq_Inr Let_def dest!: requests_keep(1) join_keeps
      split: prod.splits option.splits room_event.splits if_splits)

lemma chat_event_keeps: "lobby_chat_event pf ev s = Inr s' \<Longrightarrow> part s' = part s"
  by (auto simp: lobby_chat_event_def py_bind_eq_Inr Let_def dest!: send_keeps split: prod.splits option.splits)

lemma tabs_event_keeps:
  assumes "lobby_tabs_event pf ev s = Inr s'"
  shows "part s' = part s"
proof -
  from assms obtain r t where t: "tabs_handle_event (pf_collide pf) ev (lb_tabs s) = Inr (r, t)"
    by (cases "tabs_handle_event (pf_collide pf) ev (lb_tabs s)") (auto simp: lobby_tabs_event_def)
  show ?thesis
  proof (cases r)
    case (Some e)
    with assms t show ?thesis
      by (cases e) (auto simp: lobby_tabs_event_def Let_def dest!: requests_keep split: if_splits)
  qed (use assms t in \<open>auto simp: lobby_tabs_event_def Let_def\<close>)
qed

lemma friend_keeps: "send_friend r s = Inr s' \<Longrightarrow> part s' = part s"
  by (auto simp: send_friend_def dest: send_keeps split: option.splits)

lemma mouse_event_keeps: "lobby_mouse_event pf ev s = Inr s' \<Longrightarrow> part s' = part s"
  by (auto simp: lobby_mouse_event_def py_bind_eq_Inr Let_def dest!: tabs_event_keeps friend_keeps
      split: prod.splits option.splits if_splits)

lemma open_event_keeps: "lobby_open_event pf ev s = Inr s' \<Longrightarrow> part s' = part s"
  by (auto simp: lobby_open_event_def py_bind_eq_Inr Let_def
      dest!: menu_keeps rooms_event_keeps chat_event_keeps mouse_event_keeps split: prod.splits option.splits if_splits)

end

interpretation own: unwritten my_session by unfold_locales simp_all
interpretation request_popup: unwritten friend_request_popup by unfold_locales simp_all
interpretation info: unwritten info_popup by unfold_locales simp_all

subsection \<open>While a dialog is open\<close>

lemma quick_start_keeps:
  fixes part :: "lobby_state \<Rightarrow> 'p"
  assumes "quick_start_event pf ev w s = Inr s'" and [simp]:
    "\<And>v s. part (quick_start_window_update v s) = part s"
    "\<And>v s. part (lb_fast_window_update v s) = part s"
    "\<And>v s. part (lb_reactable_update v s) = part s"
    "\<And>v s. part (sent_update v s) = part s"
  shows "part s' = part s"
  using assms(1) by (auto simp: quick_start_event_def Let_def py_bind_eq_Inr dest!: send_frame split: prod.splits option.splits if_splits)

lemma fast_keeps:
  fixes part :: "lobby_state \<Rightarrow> 'p"
  assumes "fast_event pf ev w s = Inr s'" and [simp]:
    "\<And>v s. part (lb_fast_window_update v s) = part s"
    "\<And>v s. part (lb_reactable_update v s) = part s"
    "\<And>v s. part (sent_update v s) = part s"
  shows "part s' = part s"
  using assms(1) by (auto simp: fast_event_def Let_def py_bind_eq_Inr dest!: send_all_frame split: prod.splits option.splits if_splits)

lemma create_keeps:
  fixes part :: "lobby_state \<Rightarrow> 'p"
  assumes "create_event pf ev w s = Inr s'" and [simp]:
    "\<And>v s. part (room_create_window_update v s) = part s"
    "\<And>v s. part (lb_reactable_update v s) = part s"
    "\<And>v s. part (sent_update v s) = part s"
  shows "part s' = part s"
  using assms(1) by (auto simp: create_event_def Let_def py_bind_eq_Inr dest!: send_all_frame split: prod.splits option.splits if_splits)

lemma exit_keeps:
  fixes part :: "lobby_state \<Rightarrow> 'p"
  assumes "exit_event pf ev p s = Inr s'" and [simp]:
    "\<And>v s. part (exit_popup_update v s) = part s"
    "\<And>v s. part (lb_reactable_update v s) = part s"
    "\<And>v s. part (lb_exited_update v s) = part s"
    "\<And>v s. part (sent_update v s) = part s"
  shows "part s' = part s"
  using assms(1) by (auto simp: exit_event_def Let_def py_bind_eq_Inr dest!: send_frame split: prod.splits option.splits if_splits)

lemma settings_keeps:
  fixes part :: "lobby_state \<Rightarrow> 'p"
  assumes "settings_event pf ev w s = Inr s'" and [simp]:
    "\<And>v s. part (lb_setting_window_update v s) = part s"
    "\<And>v s. part (lb_reactable_update v s) = part s"
    "\<And>v s. part (save_success_popup_update v s) = part s"
    "\<And>v s. part (lb_sounds_update v s) = part s"
  shows "part s' = part s"
  using assms(1) by (auto simp: settings_event_def Let_def py_bind_eq_Inr split: prod.splits if_splits)

lemma join_frame: "send_join pw s = Inr s' \<Longrightarrow> \<exists>l. s' = s\<lparr>sent := l\<rparr>"
  by (auto simp: send_join_def py_bind_eq_Inr dest!: send_frame split: option.splits list.splits)

lemma password_keeps:
  fixes part :: "lobby_state \<Rightarrow> 'p"
  assumes "password_event pf ev w s = Inr s'" and [simp]:
    "\<And>v s. part (input_pw_window_update v s) = part s"
    "\<And>v s. part (lb_reactable_update v s) = part s"
    "\<And>v s. part (join_room_key_update v s) = part s"
    "\<And>v s. part (sent_update v s) = part s"
  shows "part s' = part s"
proof -
  from assms(1) obtain r v where v: "inputw_handle_event (pf_printable pf) (pf_collide pf) ev w = Inr (r, v)"
    by (cases "inputw_handle_event (pf_printable pf) (pf_collide pf) ev w") (auto simp: password_event_def)
  show ?thesis
  proof (cases "r = Some JOIN_TEXT")
    case True
    with assms(1) v obtain pw s1 where "send_join (Some pw) (s\<lparr>input_pw_window := Some v\<rparr>) = Inr s1"
      "s' = s1\<lparr>lb_reactable := True, input_pw_window := None, join_room_key := None\<rparr>"
      by (cases "extract_text (iw_input v)") (auto simp: password_event_def Let_def py_bind_eq_Inr split_def)
    then show ?thesis by (auto dest!: join_frame)
  qed (use assms(1) v in \<open>auto simp: password_event_def Let_def split: if_splits\<close>)
qed

lemma friend_request_keeps:
  fixes part :: "lobby_state \<Rightarrow> 'p"
  assumes "friend_request_event pf ev p s = Inr s'" and [simp]:
    "\<And>v s. part (friend_request_popup_update v s) = part s"
    "\<And>v s. part (lb_reactable_update v s) = part s"
    "\<And>v s. part (friend_requester_id_update v s) = part s"
    "\<And>v s. part (sent_update v s) = part s"
  shows "part s' = part s"
  using assms(1) by (auto simp: friend_request_event_def Let_def py_bind_eq_Inr dest!: send_frame split: prod.splits option.splits if_splits)

lemmas dialog_event_keeps = quick_start_keeps fast_keeps create_keeps exit_keeps settings_keeps password_keeps
  friend_request_keeps

lemma dialog_cases:
  "(case x of None \<Rightarrow> a | Some w \<Rightarrow> f w) = Inr s' \<Longrightarrow> (\<And>w. f w = Inr s' \<Longrightarrow> P) \<Longrightarrow> (a = Inr s' \<Longrightarrow> P) \<Longrightarrow> P"
  by (cases x) simp_all

end
