(* ===== verification/SceneDraw.thy ===== *)
theory SceneDraw
  imports Drawing LobbyFrames
begin

text \<open>
  What the dialogs and the scenes draw, layer by layer (\<open>draw\<close> of \<^verbatim>\<open>client/tetris/states\<close> and of the
  windows in ui/). The lemmas say which dialog of the lobby lies on top, and that it need not be the
  one that gets the events.
\<close>

subsection \<open>Dialogs\<close>

text \<open>The sizes of texts, the loaded images by their key, and the images of the blocks.\<close>

record graphics =
  g_size :: text_size
  g_ui :: "int \<Rightarrow> image"
  g_blocks :: textures

definition popup_layers :: "graphics \<Rightarrow> popup \<Rightarrow> layer list" where
  "popup_layers g = popup_draw (g_size g) (g_ui g UI_POPUP_BACKGROUND)"

definition window_popup_layers :: "graphics \<Rightarrow> popup \<Rightarrow> layer list" where
  "window_popup_layers g = popup_draw (g_size g) (g_ui g UI_WINDOW_BACKGROUND)"

definition window_layers :: "graphics \<Rightarrow> rect \<Rightarrow> layer list" where
  "window_layers g r = rectangle_layers (g_size g) (Rectangle r True (Some (g_ui g UI_WINDOW_BACKGROUND)) [] 0)"

definition field_layers :: "graphics \<Rightarrow> input_box \<Rightarrow> layer list py" where
  "field_layers g = input_draw (g_size g) (Some (g_ui g UI_TEXT_HOLDER))"

definition fast_layers :: "graphics \<Rightarrow> fast_matching_window \<Rightarrow> layer list" where
  "fast_layers g w = window_popup_layers g (fm_popup w) @ map (\<lambda>(_, b). Toggle b) (fm_options w)"

definition create_layers :: "graphics \<Rightarrow> create_room_window \<Rightarrow> layer list py" where
  "create_layers g w =
     py_bind (field_layers g (cw_title w)) (\<lambda>title. py_bind (field_layers g (cw_password w)) (\<lambda>pw.
       Inr (window_layers g (cw_rect w) @ title @ map (\<lambda>(_, b). Toggle b) (option_player w) @
         map (\<lambda>(_, b). Toggle b) (option_open w) @ pw @ map Widget (option_make w) @
         (case cw_error_popup w of None \<Rightarrow> [] | Some p \<Rightarrow> popup_layers g p))))"

definition input_window_layers :: "graphics \<Rightarrow> input_window \<Rightarrow> layer list py" where
  "input_window_layers g w = py_bind (field_layers g (iw_input w)) (\<lambda>field.
     Inr (window_popup_layers g (iw_window w) @ field))"

subsection \<open>Settings\<close>

text \<open>The rectangle of the page of sliders, and the row of the slider \<open>k\<close> of \<open>n\<close> in it.\<close>

definition setting_area :: "rect \<Rightarrow> rect" where
  "setting_area r =
     (let top = rect_y r + 35 + DIALOG_BUTTON_HEIGHT + 25;
          full_h = rect_y r + rect_h r - 35 - DIALOG_BUTTON_HEIGHT - 25 - top;
          w = scaled (rect_w r) (8 / 10); h = scaled full_h (8 / 10)
      in \<lparr>rect_x = rect_x r + (rect_w r - w) div 2, rect_y = top + (full_h - h) div 2, rect_w = w, rect_h = h\<rparr>)"

definition sound_row :: "rect \<Rightarrow> nat \<Rightarrow> nat \<Rightarrow> rect" where
  "sound_row r n k =
     (let h = rect_h r div (int n * 2 - 1); total_h = h * int n + h * (int n - 1)
      in r\<lparr>rect_y := rect_y r + (rect_h r - total_h) div 2 + int k * (h * 2), rect_h := h\<rparr>)"

definition adjust_layers :: "text_size \<Rightarrow> rect \<Rightarrow> adjust_sound \<Rightarrow> layer list" where
  "adjust_layers ts r a =
     (let name = r\<lparr>rect_w := scaled (rect_w r) (2 / 10)\<rparr>; val = name\<lparr>rect_x := rect_x name + rect_w name\<rparr> in
      captions ts [name, val] [volume_type a, volume_value a] @
      [Drawn (Fill [0, 240, 0] (volume_bar1_rect a)), Drawn (Fill WHITE (volume_bar2_rect a)),
       Drawn (Fill GRAY (adjust_bar_rect a))])"

definition sound_layers :: "text_size \<Rightarrow> rect \<Rightarrow> setting_sound \<Rightarrow> layer list" where
  "sound_layers ts r ss =
     (let n = length (sound_settings ss) in
      concat (map (\<lambda>k. adjust_layers ts (sound_row r n k) (sound_settings ss ! k)) [0..<n]))"

text \<open>The menu of the page shown is drawn pressed; that changes nothing that an event reads.\<close>

definition settings_layers :: "graphics \<Rightarrow> setting_window \<Rightarrow> (layer list \<times> setting_window) py" where
  "settings_layers g w =
     (let menus = press_only (Some (activated_setting w)) (setting_top_menus w) in
      py_bind (dict_get (setting_types w) (activated_setting w)) (\<lambda>ss.
        Inr (window_layers g (sw_rect w) @ map (\<lambda>(_, b). Toggle b) menus @
          sound_layers (g_size g) (setting_area (sw_rect w)) ss @ map Widget (buttom_menus w),
          w\<lparr>setting_top_menus := menus\<rparr>)))"

subsection \<open>Lobby\<close>

definition tabs_view :: "graphics \<Rightarrow> user_tabs \<Rightarrow> (layer list \<times> user_tabs) py" where
  "tabs_view g t =
     (let t = t\<lparr>tab_buttons := press_only (Some (cur_tab_index t)) (tab_buttons t)\<rparr> in
      py_bind (get_cur_tab_name t) (\<lambda>cur. py_bind (get_cur_user_list t) (\<lambda>l.
      py_bind (user_list_view (g_size g) l) (\<lambda>(users, l).
        Inr (map (\<lambda>(_, b). Toggle b) (tab_buttons t) @ users @
          (case refresh_buttons t cur of None \<Rightarrow> [] | Some b \<Rightarrow> [Widget b]),
          t\<lparr>user_lists := (user_lists t)(cur \<mapsto> l)\<rparr>)))))"

definition shown_if :: "('d \<Rightarrow> layer list py) \<Rightarrow> 'd option \<Rightarrow> layer list py" where
  "shown_if f d = (case d of None \<Rightarrow> Inr [] | Some x \<Rightarrow> f x)"

text \<open>The dialogs from the lowest to the topmost one.\<close>

datatype dialog = D_error | D_quick | D_fast | D_create | D_settings | D_exit | D_saved | D_password | D_info | D_friend

definition draw_order :: "dialog list" where
  "draw_order = [D_error, D_quick, D_fast, D_create, D_settings, D_exit, D_saved, D_password, D_info, D_friend]"

fun dialog_layers :: "graphics \<Rightarrow> lobby_state \<Rightarrow> dialog \<Rightarrow> layer list py" where
  "dialog_layers g s D_error = shown_if (Inr \<circ> popup_layers g) (lb_error_popup s)"
| "dialog_layers g s D_quick = shown_if (Inr \<circ> window_popup_layers g) (quick_start_window s)"
| "dialog_layers g s D_fast = shown_if (Inr \<circ> fast_layers g) (lb_fast_window s)"
| "dialog_layers g s D_create = shown_if (create_layers g) (room_create_window s)"
| "dialog_layers g s D_settings =
     shown_if (\<lambda>w. py_bind (settings_layers g w) (\<lambda>(ls, _). Inr ls)) (lb_setting_window s)"
| "dialog_layers g s D_exit = shown_if (Inr \<circ> popup_layers g) (exit_popup s)"
| "dialog_layers g s D_saved = shown_if (Inr \<circ> popup_layers g) (save_success_popup s)"
| "dialog_layers g s D_password = shown_if (input_window_layers g) (input_pw_window s)"
| "dialog_layers g s D_info = shown_if (Inr \<circ> popup_layers g) (info_popup s)"
| "dialog_layers g s D_friend = shown_if (Inr \<circ> popup_layers g) (friend_request_popup s)"

definition press_settings :: "lobby_state \<Rightarrow> lobby_state" where
  "press_settings s = s\<lparr>lb_setting_window := map_option (\<lambda>w.
     w\<lparr>setting_top_menus := press_only (Some (activated_setting w)) (setting_top_menus w)\<rparr>) (lb_setting_window s)\<rparr>"

definition lobby_view :: "graphics \<Rightarrow> lobby_state \<Rightarrow> (layer list \<times> lobby_state) py" where
  "lobby_view g s =
     py_bind (room_list_view (g_size g) (g_ui g UI_BUTTON_RED) (lb_rooms s)) (\<lambda>(rooms, l).
     py_bind (chat_view (g_size g) (lb_chat s)) (\<lambda>(chat, c).
     py_bind (tabs_view g (lb_tabs s)) (\<lambda>(tabs, t).
     py_bind (py_collect (dialog_layers g s) draw_order) (\<lambda>dialogs.
       let profile = map Drawn (profile_draw (g_size g) \<lparr>rect_x = 1100, rect_y = 575, rect_w = 300, rect_h = 260\<rparr> (my_session s)) in
       Inr (Drawn (Blit_image (g_ui g UI_LOBBY_BACKGROUND) 0 0) # map Widget (top_menus s) @ rooms @ chat @ profile @ tabs @
         concat dialogs @ (case friend_ev_btn s of None \<Rightarrow> [] | Some b \<Rightarrow> [Widget b]),
         press_settings (s\<lparr>lb_rooms := l, lb_chat := c, lb_tabs := t\<rparr>))))))"

subsection \<open>The other scenes\<close>

definition popup_shown :: "graphics \<Rightarrow> popup option \<Rightarrow> layer list" where
  "popup_shown g p = (case p of None \<Rightarrow> [] | Some p \<Rightarrow> popup_layers g p)"

definition login_view :: "graphics \<Rightarrow> login_state \<Rightarrow> layer list py" where
  "login_view g s =
     (let frame = scale_image (g_ui g UI_TEXT_HOLDER) 400 50 in
      py_bind (label_draw (g_size g) frame (id_label s)) (\<lambda>idl. py_bind (label_draw (g_size g) frame (pw_label s)) (\<lambda>pwl.
        Inr (Drawn (Blit_image (g_ui g UI_MAIN_BACKGROUND) 0 0) # idl @ pwl @ [Widget (btn_login s)] @
          popup_shown g (fail_connect_popup s) @ popup_shown g (fail_login_popup s)))))"

definition NAME_HEADER_TEXT :: pystr where "NAME_HEADER_TEXT = [0xB2C9, 0xB124, 0xC784]"
definition SCORE_HEADER_TEXT :: pystr where "SCORE_HEADER_TEXT = [0xC810, 0xC218]"

definition ranking_view :: "graphics \<Rightarrow> ranking_state \<Rightarrow> layer list" where
  "ranking_view g s =
     (let box = (\<lambda>border r t. plain_rectangle SHADE border r t); ls = rectangle_layers (g_size g); row = (\<lambda>(r, t). ls (set_text_size 26 (box 1 r t))) in
      Drawn (Blit_image (g_ui g UI_LOBBY_BACKGROUND) 0 0) # Widget (btn_back s) # ls (box 3 (rk_panel s) []) @
      ls (box 2 (header_name s) NAME_HEADER_TEXT) @ ls (box 2 (header_score s) SCORE_HEADER_TEXT) @
      concat (map (\<lambda>(name, pts). row name @ row pts) (rk_rows s)))"

text \<open>The two boxes above the boards of a game, of one fifth of the width of the screen each.\<close>

definition draw_room_header :: "text_size \<Rightarrow> pystr \<Rightarrow> pystr \<Rightarrow> layer list" where
  "draw_room_header ts title password =
     (let (sw, sh) = screen_size;
          title_rect = \<lparr>rect_x = 0, rect_y = 0, rect_w = scaled sw INFO_HEADER_WIDTH, rect_h = scaled sh INFO_HEADER_HEIGHT\<rparr>;
          pw_rect = title_rect\<lparr>rect_x := scaled sw INFO_HEADER_WIDTH\<rparr>;
          box = (\<lambda>r t. rectangle_layers ts (set_text_size 20 (Rectangle r False None t 0)))
      in box title_rect title @ box pw_rect password)"

definition player_layers :: "graphics \<Rightarrow> tsession \<Rightarrow> layer list py" where
  "player_layers g p = session_draw (g_size g) (g_ui g UI_HOST) (set_textures (g_blocks g) (ts_board p)) p"

definition single_view :: "graphics \<Rightarrow> single_play_state \<Rightarrow> layer list py" where
  "single_view g s = py_bind (player_layers g (tetris_session s)) (\<lambda>play.
     Inr (Drawn (Blit_image (g_ui g UI_INGAME_BACKGROUND) 0 0) # draw_room_header (g_size g) (sp_title_box s) (sp_password_box s) @
       [Widget (sp_btn_exit s)] @ (if ts_state (tetris_session s) = PLAY then [Widget (btn_giveup s)] else []) @ play))"

text \<open>A room of another size has no boxes and no button: \<open>None\<close> has no \<open>draw\<close>.\<close>

definition multi_view :: "graphics \<Rightarrow> multi_play_state \<Rightarrow> layer list py" where
  "multi_view g s = (case mp_btn_exit s of
     None \<Rightarrow> Inl AttributeError
   | Some b \<Rightarrow> py_bind (py_collect (player_layers g) (players s)) (\<lambda>boards.
       Inr (Drawn (Blit_image (g_ui g UI_INGAME_BACKGROUND) 0 0) # draw_room_header (g_size g) (mp_title_box s) (mp_password_box s) @
         [Widget b] @ concat boards @
         popup_shown g (if mp_error_popup s \<noteq> None then mp_error_popup s else winner_popup s))))"

subsection \<open>The dialog that gets the events and the one on top\<close>

fun opened :: "lobby_state \<Rightarrow> dialog \<Rightarrow> bool" where
  "opened s D_error = (lb_error_popup s \<noteq> None)"
| "opened s D_quick = (quick_start_window s \<noteq> None)"
| "opened s D_fast = (lb_fast_window s \<noteq> None)"
| "opened s D_create = (room_create_window s \<noteq> None)"
| "opened s D_settings = (lb_setting_window s \<noteq> None)"
| "opened s D_exit = (exit_popup s \<noteq> None)"
| "opened s D_saved = (save_success_popup s \<noteq> None)"
| "opened s D_password = (input_pw_window s \<noteq> None)"
| "opened s D_info = (info_popup s \<noteq> None)"
| "opened s D_friend = (friend_request_popup s \<noteq> None)"

definition event_order :: "dialog list" where
  "event_order = [D_error, D_quick, D_fast, D_create, D_exit, D_settings, D_saved, D_password, D_info, D_friend]"

definition asked_dialog :: "lobby_state \<Rightarrow> dialog option" where
  "asked_dialog s = List.find (opened s) event_order"

definition top_dialog :: "lobby_state \<Rightarrow> dialog option" where
  "top_dialog s = List.find (opened s) (rev draw_order)"

text \<open>Every dialog is in both orders, and a dialog that is closed draws nothing.\<close>

lemma dialog_orders: "set event_order = UNIV" "set draw_order = UNIV"
proof -
  have "d \<in> set event_order \<and> d \<in> set draw_order" for d
    by (cases d) (simp_all add: event_order_def draw_order_def)
  then show "set event_order = UNIV" "set draw_order = UNIV" by auto
qed

lemma closed_draws_nothing: "\<not> opened s d \<Longrightarrow> dialog_layers g s d = Inr []"
  by (cases d) (simp_all add: shown_if_def)

lemma no_dialog_asked: "asked_dialog s = None \<longleftrightarrow> (\<forall>d. \<not> opened s d)"
  using dialog_orders(1) by (auto simp: asked_dialog_def find_None_iff)

text \<open>
  An event goes to the first dialog of \<open>event_order\<close>: any other stays open and is drawn as before, but
  for the two that the first one may open itself.
\<close>

lemma waiting_dialog:
  assumes "lobby_dialog_event pf ev s = Inr s'" "asked_dialog s = Some a" "opened s d" "d \<noteq> a"
    and "(a, d) \<noteq> (D_quick, D_fast)" "(a, d) \<noteq> (D_settings, D_saved)"
  shows "(opened s' d, dialog_layers g s' d) = (opened s d, dialog_layers g s d)"
    (is "?part s' = ?part s")
proof -
  note order = assms(2) [unfolded asked_dialog_def event_order_def]
  show ?thesis
  proof (cases a)
    case D_error
    with assms order show ?thesis
      by (cases d) (auto simp: lobby_dialog_event_def Let_def split: if_splits prod.splits)
  next
    case D_quick
    with assms(1) order obtain w where "quick_start_event pf ev w s = Inr s'"
      by (auto simp: lobby_dialog_event_def split: if_splits)
    then show ?thesis by (rule quick_start_keeps [where part = ?part]) (use assms(4-6) D_quick in \<open>cases d; simp\<close>)+
  next
    case D_fast
    with assms(1) order obtain w where "fast_event pf ev w s = Inr s'"
      by (auto simp: lobby_dialog_event_def split: if_splits)
    then show ?thesis by (rule fast_keeps [where part = ?part]) (use assms(4-6) D_fast in \<open>cases d; simp\<close>)+
  next
    case D_create
    with assms(1) order obtain w where "create_event pf ev w s = Inr s'"
      by (auto simp: lobby_dialog_event_def split: if_splits)
    then show ?thesis by (rule create_keeps [where part = ?part]) (use assms(4-6) D_create in \<open>cases d; simp\<close>)+
  next
    case D_settings
    with assms(1) order obtain w where "settings_event pf ev w s = Inr s'"
      by (auto simp: lobby_dialog_event_def split: if_splits)
    then show ?thesis by (rule settings_keeps [where part = ?part]) (use assms(4-6) D_settings in \<open>cases d; simp\<close>)+
  next
    case D_exit
    with assms(1) order obtain w where "exit_event pf ev w s = Inr s'"
      by (auto simp: lobby_dialog_event_def split: if_splits)
    then show ?thesis by (rule exit_keeps [where part = ?part]) (use assms(4-6) D_exit in \<open>cases d; simp\<close>)+
  next
    case D_saved
    with assms order show ?thesis
      by (cases d) (auto simp: lobby_dialog_event_def Let_def split: if_splits prod.splits)
  next
    case D_password
    with assms(1) order obtain w where "password_event pf ev w s = Inr s'"
      by (auto simp: lobby_dialog_event_def split: if_splits)
    then show ?thesis by (rule password_keeps [where part = ?part]) (use assms(4-6) D_password in \<open>cases d; simp\<close>)+
  next
    case D_info
    with assms order show ?thesis
      by (cases d) (auto simp: lobby_dialog_event_def Let_def split: if_splits prod.splits)
  next
    case D_friend
    with assms(1) order obtain w where "friend_request_event pf ev w s = Inr s'"
      by (auto simp: lobby_dialog_event_def split: if_splits)
    then show ?thesis by (rule friend_request_keeps [where part = ?part]) (use assms(4-6) D_friend in \<open>cases d; simp\<close>)+
  qed
qed

text \<open>
  A friend request or an information that arrives while another dialog is open waits for that one, the
  request on top of it. When the other one is closed, the lobby answers the next event, not the popup,
  which stays on the screen as it was.
\<close>

lemma request_on_top: "friend_request_popup s \<noteq> None \<Longrightarrow> top_dialog s = Some D_friend"
  by (simp add: top_dialog_def draw_order_def)

lemma popup_left_over:
  assumes "lobby_dialog_event pf ev s = Inr t" "asked_dialog s = Some a" "opened s d" "d \<noteq> a" "d \<in> {D_info, D_friend}"
    and "lb_reactable t" "lobby_handle_event pf ev' t = Inr u"
  shows "opened u d \<and> dialog_layers g u d = dialog_layers g s d"
proof -
  from assms(6,7) have "lobby_open_event pf ev' t = Inr u" by (simp add: lobby_handle_event_def)
  from request_popup.open_event_keeps [OF this] info.open_event_keeps [OF this] assms(5)
  have "opened u d = opened t d \<and> dialog_layers g u d = dialog_layers g t d" by auto
  with waiting_dialog [OF assms(1-4), of g] assms(3,5) show ?thesis by auto
qed

text \<open>The view of the lobby and \<open>lobby_draw\<close> agree on the state, up to the pressed menu of the settings.\<close>

lemma after_tabs_view: "after (tabs_view g t) = tabs_draw t"
proof -
  let ?t = "t\<lparr>tab_buttons := press_only (Some (cur_tab_index t)) (tab_buttons t)\<rparr>"
  have "after (py_bind (user_list_view (g_size g) l) (\<lambda>(us, l). Inr (f us, h l))) = py_bind (user_list_draw l) (\<lambda>l. Inr (h l))"
    for l and f :: "layer list \<Rightarrow> layer list" and h :: "user_list \<Rightarrow> user_tabs"
    unfolding after_user_list_view [of "g_size g", symmetric]
    by (cases "user_list_view (g_size g) l") (auto simp: after_def)
  then show ?thesis
    by (cases "get_cur_tab_name ?t"; cases "get_cur_user_list ?t") (simp_all add: tabs_view_def tabs_draw_def after_def Let_def)
qed

lemma chat_view_state:
  assumes "chat_view g c = Inr (ls, c')"
  shows "c' = set_show_range (chat_items_len c) c"
proof -
  let ?c = "set_show_range (chat_items_len c) c"
  from assms obtain rows d where d: "draw_items chat_item ?c = Inr (rows, d)" and c': "c' = d"
    by (auto simp: chat_view_def py_bind_eq_Inr Let_def)
  from d have "d = ?c"
    unfolding draw_items_def
    by (rule py_for_invariant [where P = "\<lambda>(_, d). d = ?c", unfolded split_conv, of _ _ _ "(rows, d)", simplified])
      (auto simp: chat_item_def py_bind_eq_Inr)
  with c' show ?thesis by simp
qed

lemma lobby_view_state:
  assumes "lobby_view g s = Inr (ls, s')"
  shows "\<exists>t. lobby_draw s = Inr t \<and> s' = press_settings t"
proof -
  from assms obtain rl l cl c tl t where
    r: "room_list_view (g_size g) (g_ui g UI_BUTTON_RED) (lb_rooms s) = Inr (rl, l)"
    and c: "chat_view (g_size g) (lb_chat s) = Inr (cl, c)" and t: "tabs_view g (lb_tabs s) = Inr (tl, t)"
    and s': "s' = press_settings (s\<lparr>lb_rooms := l, lb_chat := c, lb_tabs := t\<rparr>)"
    by (auto simp: lobby_view_def py_bind_eq_Inr Let_def)
  from r have "room_list_draw (lb_rooms s) = Inr l"
    by (simp add: after_room_list_view [of "g_size g" "g_ui g UI_BUTTON_RED", symmetric] after_def)
  moreover from t have "tabs_draw (lb_tabs s) = Inr t" by (simp add: after_tabs_view [of g, symmetric] after_def)
  ultimately show ?thesis using s' chat_view_state [OF c] by (simp add: lobby_draw_def)
qed

end
