(* ===== verification/GameLoop.thy ===== *)
theory GameLoop
  imports SceneDraw
begin

text \<open>
  The main loop, \<open>GameLoop\<close> (\<^verbatim>\<open>client/tetris/main/game_loop.py\<close>), over the five scenes: it
  hands the received packets to the current scene, the events of a frame and the time since the last
  one, and replaces the scene when one is due.
\<close>

datatype app_scene =
    In_login login_state
  | In_lobby lobby_state
  | In_single single_play_state
  | In_multi multi_play_state
  | In_ranking ranking_state

text \<open>The part of a scene that \<open>BaseState\<close> declares.\<close>

fun scene_base :: "app_scene \<Rightarrow> base_state" where
  "scene_base (In_login s) = base_state.truncate s"
| "scene_base (In_lobby s) = base_state.truncate s"
| "scene_base (In_single s) = base_state.truncate s"
| "scene_base (In_multi s) = base_state.truncate s"
| "scene_base (In_ranking s) = base_state.truncate s"

fun scene_handle_packet :: "platform \<Rightarrow> s2c \<Rightarrow> app_scene \<Rightarrow> app_scene py" where
  "scene_handle_packet pf p (In_login s) = py_bind (login_handle_packet p s) (\<lambda>s. Inr (In_login s))"
| "scene_handle_packet pf p (In_lobby s) = py_bind (lobby_handle_packet pf p s) (\<lambda>s. Inr (In_lobby s))"
| "scene_handle_packet pf p (In_single s) = py_bind (single_handle_packet p s) (\<lambda>s. Inr (In_single s))"
| "scene_handle_packet pf p (In_multi s) = py_bind (multi_handle_packet p s) (\<lambda>s. Inr (In_multi s))"
| "scene_handle_packet pf p (In_ranking s) = py_bind (ranking_handle_packet p s) (\<lambda>s. Inr (In_ranking s))"

fun scene_update :: "platform \<Rightarrow> (nat \<Rightarrow> bool) \<Rightarrow> rat \<Rightarrow> event list \<Rightarrow> app_scene \<Rightarrow> (scene option \<times> app_scene) py" where
  "scene_update pf net dt evs (In_login s) = py_bind (login_update pf net dt evs s) (\<lambda>(r, s). Inr (r, In_login s))"
| "scene_update pf net dt evs (In_lobby s) = py_bind (lobby_update pf dt evs s) (\<lambda>(r, s). Inr (r, In_lobby s))"
| "scene_update pf net dt evs (In_single s) =
     py_bind (single_update (pf_collide pf) dt evs s) (\<lambda>(r, s). Inr (r, In_single s))"
| "scene_update pf net dt evs (In_multi s) =
     py_bind (multi_update (pf_collide pf) dt evs s) (\<lambda>(r, s). Inr (r, In_multi s))"
| "scene_update pf net dt evs (In_ranking s) =
     (let (r, s) = ranking_update (pf_collide pf) dt evs s in Inr (r, In_ranking s))"

text \<open>A scene that raised \<open>SystemExit\<close>.\<close>

fun scene_exited :: "app_scene \<Rightarrow> bool" where
  "scene_exited (In_login s) = li_exited s"
| "scene_exited (In_lobby s) = lb_exited s"
| "scene_exited _ = False"

text \<open>
  The scene a transition leads to. It was constructed when the transition was queued, and its
  requests were recorded then, in the scene that queued it. Session and sounds are objects that all
  scenes share, and nothing changes them between the two moments.
\<close>

fun enter_scene :: "scene \<Rightarrow> session \<Rightarrow> sounds \<Rightarrow> app_scene py" where
  "enter_scene To_lobby se snds =
     py_bind (LobbyState se snds) (\<lambda>s. Inr (In_lobby (start_fade_in (s\<lparr>sent := []\<rparr>))))"
| "enter_scene (To_single name pw) se snds =
     py_bind (SinglePlayState se name pw) (\<lambda>s. Inr (In_single (start_fade_in s)))"
| "enter_scene (To_multi name n pw) se snds =
     py_bind (MultiPlayState se name n pw) (\<lambda>s. Inr (In_multi (start_fade_in s)))"
| "enter_scene To_ranking se snds =
     py_bind (RankingState se) (\<lambda>s. Inr (In_ranking (start_fade_in (s\<lparr>sent := []\<rparr>))))"

text \<open>
  \<open>app_queue\<close> is the worker's packet queue, which the receiving thread fills; \<open>app_sent\<close> lists
  the requests of the scenes that were left.
\<close>

record app =
  app_state :: app_scene
  app_queue :: "s2c list"
  app_sounds :: sounds
  app_sent :: "request list"
  app_exited :: bool

definition GameLoop :: "(nat \<Rightarrow> int option) \<Rightarrow> pystr option \<Rightarrow> (nat \<Rightarrow> bool) \<Rightarrow> app py" where
  "GameLoop digit file net =
     py_bind (Sounds digit file) (\<lambda>snds.
     py_bind (login_connect net (LoginState (set_my_session Session))) (\<lambda>s.
       Inr \<lparr>app_state = In_login s, app_queue = [], app_sounds = snds, app_sent = [], app_exited = False\<rparr>))"

text \<open>The loop of \<open>drain_packets\<close> over the queue: what it leaves in the queue, and the scene.\<close>

fun drain :: "platform \<Rightarrow> s2c list \<Rightarrow> app_scene \<Rightarrow> (s2c list \<times> app_scene) py" where
  "drain pf [] sc = Inr ([], sc)"
| "drain pf (p # ps) sc =
     (if next_state (scene_base sc) \<noteq> None then Inr (p # ps, sc)
      else py_bind (scene_handle_packet pf p sc) (drain pf ps))"

definition drain_packets :: "platform \<Rightarrow> app \<Rightarrow> app py" where
  "drain_packets pf a = py_bind (drain pf (app_queue a) (app_state a)) (\<lambda>(q, sc).
     Inr (a\<lparr>app_queue := q, app_state := sc\<rparr>))"

text \<open>The sounds are the lobby's while it runs.\<close>

fun scene_sounds :: "app_scene \<Rightarrow> sounds \<Rightarrow> sounds" where
  "scene_sounds (In_lobby s) snds = lb_sounds s"
| "scene_sounds _ snds = snds"

definition app_update :: "platform \<Rightarrow> (nat \<Rightarrow> bool) \<Rightarrow> rat \<Rightarrow> event list \<Rightarrow> app \<Rightarrow> app py" where
  "app_update pf net dt_ms events a =
     (let state_events = (if is_input_blocked (scene_base (app_state a)) then [] else events) in
      py_bind (scene_update pf net dt_ms state_events (app_state a)) (\<lambda>(next, sc).
        let a = a\<lparr>app_state := sc, app_sounds := scene_sounds sc (app_sounds a), app_exited := scene_exited sc\<rparr> in
        case next of
          None \<Rightarrow> Inr a
        | Some n \<Rightarrow> py_bind (enter_scene n (my_session (scene_base sc)) (app_sounds a)) (\<lambda>new.
            Inr (a\<lparr>app_state := new, app_sent := app_sent a @ sent (scene_base sc)\<rparr>))))"

text \<open>What a scene shows, and what its drawing changes.\<close>

fun scene_view :: "graphics \<Rightarrow> app_scene \<Rightarrow> (layer list \<times> app_scene) py" where
  "scene_view g (In_login s) = py_bind (login_view g s) (\<lambda>ls. Inr (ls, In_login s))"
| "scene_view g (In_lobby s) = py_bind (lobby_view g s) (\<lambda>(ls, s). Inr (ls, In_lobby s))"
| "scene_view g (In_single s) = py_bind (single_view g s) (\<lambda>ls. Inr (ls, In_single s))"
| "scene_view g (In_multi s) = py_bind (multi_view g s) (\<lambda>ls. Inr (ls, In_multi s))"
| "scene_view g (In_ranking s) = Inr (ranking_view g s, In_ranking s)"

text \<open>The scene, then the black surface of its fade.\<close>

definition frame_view :: "graphics \<Rightarrow> app_scene \<Rightarrow> (layer list \<times> app_scene) py" where
  "frame_view g sc = py_bind (scene_view g sc) (\<lambda>(ls, sc).
     let (sw, sh) = screen_size in
     Inr (ls @ (case fade_alpha (scene_base sc) of None \<Rightarrow> []
       | Some a \<Rightarrow> [Drawn (Fill [0, 0, 0, a] \<lparr>rect_x = 0, rect_y = 0, rect_w = sw, rect_h = sh\<rparr>)]), sc))"

definition app_draw :: "graphics \<Rightarrow> app \<Rightarrow> app py" where
  "app_draw g a = (if app_exited a then Inr a
     else py_bind (frame_view g (app_state a)) (\<lambda>(_, sc). Inr (a\<lparr>app_state := sc\<rparr>)))"

definition FPS :: rat where "FPS = 60"

text \<open>
  One round of \<open>run\<close>: \<open>dt\<close> seconds have passed since the last frame, \<open>quit\<close> tells whether a
  \<open>QUIT\<close> event is among those that a frame takes.
\<close>

definition app_round :: "platform \<Rightarrow> graphics \<Rightarrow> (nat \<Rightarrow> bool) \<Rightarrow> rat \<Rightarrow> bool \<Rightarrow> event list \<Rightarrow> app \<Rightarrow> app py" where
  "app_round pf g net dt quit events a =
     (if app_exited a then Inr a
      else py_bind (drain_packets pf a) (\<lambda>a.
        if dt \<le> 1 / FPS then Inr a
        else if quit then Inr (a\<lparr>app_exited := True\<rparr>)
        else py_bind (app_update pf net (dt * 1000) events a) (app_draw g)))"

datatype app_op = A_arrive "s2c list" | A_round rat bool "event list"

fun app_step :: "platform \<Rightarrow> graphics \<Rightarrow> (nat \<Rightarrow> bool) \<Rightarrow> app_op \<Rightarrow> app \<Rightarrow> app py" where
  "app_step pf g net (A_arrive ps) a = Inr (a\<lparr>app_queue := app_queue a @ ps\<rparr>)"
| "app_step pf g net (A_round dt quit evs) a = app_round pf g net dt quit evs a"

subsection \<open>Transitions\<close>

text \<open>A new scene is not seen at once: the frame in which it replaces the old one ends with an opaque black screen.\<close>

lemma scene_view_base: "scene_view g sc = Inr (ls, sc') \<Longrightarrow> scene_base sc' = scene_base sc"
  by (cases sc) (auto simp: py_bind_eq_Inr base_state.defs lobby_draw_def press_settings_def dest!: lobby_view_state)

lemma new_scene_covered:
  assumes "frame_view g sc = Inr (ls, sc')" "scene_base sc = start_fade_in s"
  shows "\<exists>r. last ls = Drawn (Fill [0, 0, 0, 255] r) \<and> (rect_w r, rect_h r) = screen_size"
proof -
  from assms(1) obtain ms where v: "scene_view g sc = Inr (ms, sc')"
    and ls: "ls = ms @ (case fade_alpha (scene_base sc') of None \<Rightarrow> []
       | Some a \<Rightarrow> [Drawn (Fill [0, 0, 0, a] \<lparr>rect_x = 0, rect_y = 0, rect_w = fst screen_size, rect_h = snd screen_size\<rparr>)])"
    by (auto simp: frame_view_def py_bind_eq_Inr split_def Let_def)
  have "fade_alpha (scene_base sc) = Some 255"
    using assms(2) by (simp add: fade_alpha_def start_fade_in_def py_trunc_def)
  with ls scene_view_base [OF v] show ?thesis by simp
qed

end
