(* ===== verification/RoomInv.thy ===== *)
theory RoomInv
  imports Rooms
begin

text \<open>
  The invariant of a multiplayer room, that every packet, event and frame keeps, and the packets
  that make the room raise.
\<close>

subsection \<open>The invariant of a room\<close>

text \<open>What holds of the session at seat \<open>k\<close>: seat 0 is the own player's.\<close>

definition seat_ok :: "nat \<Rightarrow> tsession \<Rightarrow> bool" where
  "seat_ok k p \<longleftrightarrow> wf_ts p \<and> \<not> is_single p \<and> (0 < k \<longrightarrow> \<not> self_player p \<and> btn_ready p \<noteq> None)"

definition distinct_ids :: "tsession list \<Rightarrow> bool" where
  "distinct_ids ps \<longleftrightarrow> (\<forall>i j k. j < length ps \<longrightarrow> k < length ps \<longrightarrow> has_id i (ps ! j) \<longrightarrow> has_id i (ps ! k) \<longrightarrow> j = k)"

text \<open>A scene that can only be left for the lobby.\<close>

definition leads_home :: "'a base_state_scheme \<Rightarrow> bool" where
  "leads_home s \<longleftrightarrow> next_state s = None \<or> next_state s = Some To_lobby"

definition wf_room :: "multi_play_state \<Rightarrow> bool" where
  "wf_room s \<longleftrightarrow> (length (players s) = 2 \<or> length (players s) = 5) \<and>
     (\<forall>k<length (players s). seat_ok k (players s ! k)) \<and>
     ts_session (players s ! 0) = Some (my_session s) \<and> is_self (my_session s) \<and>
     distinct_ids (players s) \<and> -1 \<le> host_index s \<and> host_index s < int (length (players s)) \<and>
     mp_btn_exit s \<noteq> None \<and> leads_home s"

named_theorems room_simps \<open>fields a room's invariant does not look at\<close>

lemma wf_room_frame [room_simps]:
  "wf_room s \<Longrightarrow> wf_room (s\<lparr>next_state := None\<rparr>)" "wf_room (s\<lparr>fade_mode := b\<rparr>) = wf_room s"
  "wf_room (s\<lparr>fade_elapsed_ms := c\<rparr>) = wf_room s" "wf_room (s\<lparr>sent := d\<rparr>) = wf_room s"
  "wf_room (s\<lparr>room_state := e\<rparr>) = wf_room s" "wf_room (s\<lparr>mp_error_popup := f\<rparr>) = wf_room s"
  "wf_room (s\<lparr>winner_popup := f\<rparr>) = wf_room s" "wf_room (s\<lparr>mp_reactable := g\<rparr>) = wf_room s"
  "wf_room s \<Longrightarrow> wf_room (s\<lparr>mp_btn_exit := Some bt\<rparr>)"
  by (simp_all add: wf_room_def leads_home_def)

lemma leads_home_frame [simp]:
  "leads_home (s\<lparr>fade_mode := b\<rparr>) = leads_home s" "leads_home (s\<lparr>fade_elapsed_ms := c\<rparr>) = leads_home s"
  "leads_home (s\<lparr>my_session := se\<rparr>) = leads_home s" "leads_home (s\<lparr>sent := d\<rparr>) = leads_home s"
  "leads_home (r\<lparr>players := ps\<rparr>) = leads_home r" "leads_home (r\<lparr>host_index := h\<rparr>) = leads_home r"
  for r :: multi_play_state
  by (simp_all add: leads_home_def)

lemma players_set_player [simp]: "players (set_player k p s) = (players s)[k := p]"
  by (simp add: set_player_def)

lemma wf_room_set_player:
  assumes "wf_room s" "k < length (players s)" "seat_ok k p" "ts_session p = ts_session (players s ! k)"
  shows "wf_room (set_player k p s)"
proof -
  have "has_id i ((players s)[k := p] ! j) = has_id i (players s ! j)" for i j
    using assms(2,4) by (cases "j = k") (simp_all add: has_id_def)
  with assms show ?thesis
    by (auto simp: wf_room_def set_player_def distinct_ids_def nth_list_update)
qed

text \<open>Every operation of a session but \<open>Init\<close> and \<open>Clear\<close> leaves the seat in order.\<close>

lemma handle_packet_seat:
  "handle_packet q p = Inr p' \<Longrightarrow>
   ts_session p' = ts_session p \<and> is_single p' = is_single p \<and> btn_ready p' = btn_ready p"
  by (cases "(q, p)" rule: handle_packet.cases)
    (auto simp: py_bind_eq_Inr Let_def set_score_def split: if_splits)

lemma opt_toggle_None: "opt_toggle collide ev t = (r, None) \<Longrightarrow> t = None"
  by (auto simp: opt_toggle_def split: option.splits prod.splits)

lemma tsession_event_seat:
  assumes "tsession_handle_event collide ev p = (r, p')"
  shows "ts_session p' = ts_session p \<and> is_single p' = is_single p \<and> (btn_ready p' = None \<longrightarrow> btn_ready p = None)"
  using assms
  by (auto simp: tsession_handle_event_def Let_def split: if_splits prod.splits dest: opt_toggle_None)

lemma ts_step_seat:
  assumes "ts_step collide e p = Inr p'" "\<And>se. e \<noteq> Init se" "e \<noteq> Clear" "is_single p = False"
  shows "ts_session p' = ts_session p \<and> is_single p' = is_single p \<and>
    (btn_ready p' = None \<longrightarrow> btn_ready p \<noteq> None \<longrightarrow> self_player p)"
proof (cases e)
  case (Packet q)
  with assms show ?thesis by (auto dest: handle_packet_seat)
next
  case (Input ev)
  with assms(1) tsession_event_seat [of collide ev p _ p'] show ?thesis
    by (cases "tsession_handle_event collide ev p") auto
next
  case (Tick dt)
  with assms show ?thesis
    by (auto simp: tsession_update_def tsession_reset_def Let_def py_bind_eq_Inr
        split: if_splits prod.splits option.splits)
qed (use assms in \<open>auto simp: set_ready_def set_is_host_def set_state_def make_btn_kick_def process_gameover_def
      tsession_reset_def self_player_def Let_def py_bind_eq_Inr split: option.splits if_splits\<close>)

lemma ts_step_seat_ok:
  assumes "seat_ok k p" "ts_step collide e p = Inr p'" "\<And>se. e \<noteq> Init se" "e \<noteq> Clear"
  shows "seat_ok k p' \<and> ts_session p' = ts_session p"
  using ts_step_seat [OF assms(2-4)] assms(1,2) wf_ts_step [OF assms(2)]
  by (auto simp: seat_ok_def self_player_def)

lemma wf_room_ts_step:
  assumes "wf_room s" "k < length (players s)" "ts_step collide e (players s ! k) = Inr p"
    and "\<And>se. e \<noteq> Init se" "e \<noteq> Clear"
  shows "wf_room (set_player k p s)"
proof -
  from assms(1,2) have "seat_ok k (players s ! k)" by (simp add: wf_room_def)
  from ts_step_seat_ok [OF this assms(3-5)] wf_room_set_player [OF assms(1,2)] show ?thesis by simp
qed

lemma for_players_wf:
  assumes "for_players f s = Inr s'" "wf_room s"
    and "\<And>k s s'. k < length (players s) \<Longrightarrow> wf_room s \<Longrightarrow> f k (players s ! k) s = Inr s' \<Longrightarrow>
      wf_room s' \<and> length (players s') = length (players s)"
  shows "wf_room s'"
proof -
  let ?P = "\<lambda>t. wf_room t \<and> length (players t) = length (players s)"
  have "?P s'"
    by (rule py_for_invariant [OF assms(1) [unfolded for_players_def]])
      (use assms(2) in \<open>auto dest: assms(3) [rotated 2]\<close>)
  then show ?thesis ..
qed

lemma first_playerD:
  assumes "first_player P s = Some k"
  shows "k < length (players s) \<and> P (players s ! k) \<and> (\<forall>j<k. \<not> P (players s ! j))"
  using assms unfolding first_player_def find_Some_iff by auto

lemma first_player_None: "first_player P s = None \<longleftrightarrow> (\<forall>k<length (players s). \<not> P (players s ! k))"
  by (auto simp: first_player_def find_None_iff)

lemma wf_room_seat0:
  "wf_room s \<Longrightarrow> ts_session (players s ! 0) = Some (my_session s) \<and> is_self (my_session s) \<and> 0 < length (players s)"
  by (auto simp: wf_room_def)

lemma wf_room_seat: "wf_room s \<Longrightarrow> k < length (players s) \<Longrightarrow> seat_ok k (players s ! k)"
  by (simp add: wf_room_def)

lemma leads_home_fades:
  "leads_home s \<Longrightarrow> leads_home (queue_state To_lobby s)" "leads_home s \<Longrightarrow> leads_home (snd (consume_state (update_fade dt s)))"
  by (simp_all add: queue_state_def start_fade_out_def consume_state_def update_fade_def leads_home_def Let_def)

lemma queue_state_wf: "wf_room s \<Longrightarrow> wf_room (queue_state To_lobby s)"
  by (simp add: wf_room_def leads_home_fades) (simp add: queue_state_def start_fade_out_def Let_def)

lemma consume_update_wf: "wf_room s \<Longrightarrow> wf_room (snd (consume_state (update_fade dt s)))"
  by (simp add: consume_state_def update_fade_def Let_def room_simps)

lemma send_wf: "send r s = Inr s' \<Longrightarrow> wf_room s' = wf_room s \<and> players s' = players s"
  by (auto dest!: send_frame simp: room_simps)

lemma send_all_wf: "send_all rs s = Inr s' \<Longrightarrow> wf_room s' = wf_room s \<and> players s' = players s"
  by (auto dest!: send_all_frame simp: room_simps)

lemma length_set_player [simp]: "length (players (set_player k p s)) = length (players s)"
  by simp

lemma with_player_wf:
  assumes "with_player i f s = Inr s'" "wf_room s"
    and "\<And>k p. k < length (players s) \<Longrightarrow> f (players s ! k) = Inr p \<Longrightarrow> wf_room (set_player k p s)"
  shows "wf_room s'"
  using assms by (auto simp: with_player_def py_bind_eq_Inr split: option.splits dest: first_playerD)

text \<open>The invariant for a seat whose occupant changes.\<close>

lemma distinct_ids_update:
  assumes "distinct_ids ps" "k < length ps"
    and "\<And>i j. has_id i p \<Longrightarrow> j < length ps \<Longrightarrow> j \<noteq> k \<Longrightarrow> \<not> has_id i (ps ! j)"
  shows "distinct_ids (ps[k := p])"
  unfolding distinct_ids_def
proof (intro allI impI)
  fix i j l assume h: "j < length (ps[k := p])" "l < length (ps[k := p])"
    "has_id i (ps[k := p] ! j)" "has_id i (ps[k := p] ! l)"
  show "j = l"
  proof (cases "j = k")
    case True
    with h assms(2) assms(3) [of i l] show ?thesis by (cases "l = k") simp_all
  next
    case False
    then have j: "has_id i (ps ! j)" "j < length ps" using h by simp_all
    with False have "\<not> has_id i p" using assms(3) by blast
    then have "l \<noteq> k" "has_id i (ps ! l)" using h(4) assms(2) by (cases "l = k"; simp)+
    with j h(2) assms(1) show ?thesis by (simp add: distinct_ids_def)
  qed
qed

lemma wf_room_reseat:
  assumes "wf_room s" "0 < k" "k < length (players s)" "seat_ok k p"
    and "\<And>i j. has_id i p \<Longrightarrow> j < length (players s) \<Longrightarrow> j \<noteq> k \<Longrightarrow> \<not> has_id i (players s ! j)"
  shows "wf_room (set_player k p s)"
proof -
  from assms(1,3,5) have "distinct_ids ((players s)[k := p])"
    by (intro distinct_ids_update) (simp_all add: wf_room_def)
  moreover have "seat_ok j ((players s)[k := p] ! j)" if "j < length (players s)" for j
    using assms that by (cases "j = k") (simp_all add: wf_room_def)
  moreover have "(players s)[k := p] ! 0 = players s ! 0" using assms(2) by simp
  ultimately show ?thesis using assms(1) by (simp add: wf_room_def set_player_def)
qed

lemma init_session_seat:
  assumes "init_session se p = Inr p'" "seat_ok k p" "\<not> is_self se"
  shows "seat_ok k p' \<and> ts_session p' = Some se"
proof -
  have "wf_ts p'" using wf_ts_step [of undefined "Init se" p p'] assms(1,2) by (simp add: seat_ok_def)
  with assms show ?thesis
    by (auto simp: seat_ok_def init_session_def self_player_def Let_def py_bind_eq_Inr)
qed

lemma add_user_wf:
  assumes "add_user se s = Inr s'" "wf_room s" "\<not> is_self se"
  shows "wf_room s'"
proof (cases "first_player (has_id (s_id se)) s = None \<and> first_player (\<lambda>p. ts_session p = None) s \<noteq> None")
  case False
  with assms show ?thesis by (auto simp: add_user_def split: if_splits option.splits)
next
  case True
  then obtain k where new: "first_player (has_id (s_id se)) s = None"
    and k: "first_player (\<lambda>p. ts_session p = None) s = Some k" by auto
  from first_playerD [OF k] have k': "k < length (players s)" "ts_session (players s ! k) = None" by auto
  have "k \<noteq> 0" using k' wf_room_seat0 [OF assms(2)] by (intro notI) simp
  from assms(1) new k obtain p where p: "init_session se (players s ! k) = Inr p"
    and s': "s' = set_player k p s \<or> s' = set_player k (make_btn_kick p) (set_player k p s)"
    by (auto simp: add_user_def Let_def py_bind_eq_Inr split: if_splits)
  have "seat_ok k (players s ! k)" using assms(2) k' by (simp add: wf_room_def)
  from init_session_seat [OF p this assms(3)] have seat: "seat_ok k p" "ts_session p = Some se" by auto
  have wf: "wf_room (set_player k p s)"
    using new \<open>k \<noteq> 0\<close> k' seat assms(2)
    by (intro wf_room_reseat) (auto simp: first_player_None has_id_def)
  moreover have "wf_room (set_player k (make_btn_kick p) (set_player k p s))"
    using wf_room_ts_step [OF wf, of k undefined Kick_button] k' by simp
  ultimately show ?thesis using s' by auto
qed

lemma tsession_clear_seat:
  assumes "tsession_clear p = Inr p'" "seat_ok k p"
  shows "seat_ok k (set_nickname nick p') \<and> ts_session (set_nickname nick p') = None"
proof -
  have "wf_ts p'" using wf_ts_step [of undefined Clear p p'] assms by (simp add: seat_ok_def)
  moreover from assms have "ts_session p' = None" "is_single p' = is_single p"
    "btn_ready p \<noteq> None \<longrightarrow> btn_ready p' \<noteq> None"
    by (auto simp: tsession_clear_def seat_ok_def Let_def py_bind_eq_Inr)
  ultimately show ?thesis using assms(2)
    by (auto simp: seat_ok_def set_nickname_def self_player_def wf_ts_def)
qed

lemma delete_player_wf:
  assumes "delete_player i s = Inr s'" "wf_room s"
  shows "wf_room s'"
proof (cases "first_player (has_id i) s")
  case (Some k)
  from first_playerD [OF this] have k: "k < length (players s)" by simp
  show ?thesis
  proof (cases "self_player (players s ! k)")
    case True
    with Some assms show ?thesis by (auto simp: delete_player_def queue_state_wf)
  next
    case False
    then have "k \<noteq> 0" using wf_room_seat0 [OF assms(2)] by (intro notI) (simp add: self_player_def)
    from False Some assms(1) obtain p where p: "tsession_clear (players s ! k) = Inr p"
      "s' = set_player k (set_nickname [] p) s" by (auto simp: delete_player_def py_bind_eq_Inr)
    have "seat_ok k (players s ! k)" using assms(2) k by (simp add: wf_room_def)
    from tsession_clear_seat [OF p(1) this] p(2) \<open>k \<noteq> 0\<close> k assms(2) show ?thesis
      by (auto intro!: wf_room_reseat simp: has_id_def)
  qed
qed (use assms in \<open>simp add: delete_player_def\<close>)

lemma reset_room_wf: "reset_room s = Inr s' \<Longrightarrow> wf_room s \<Longrightarrow> wf_room s'"
  unfolding reset_room_def
  by (erule for_players_wf) (auto simp: py_bind_eq_Inr split: if_splits
      dest: wf_room_ts_step [where e = Reset and collide = undefined, simplified])

lemma game_end_wf: "game_end i s = Inr s' \<Longrightarrow> wf_room s \<Longrightarrow> wf_room s'"
  by (auto simp: game_end_def Let_def py_bind_eq_Inr room_simps dest: reset_room_wf)

text \<open>Only the own player's seat is \<open>self_player\<close>.\<close>

lemma self_player_seat0:
  assumes "wf_room s" "first_player self_player s = Some k"
  shows "k = 0"
  using first_playerD [OF assms(2)] wf_room_seat [OF assms(1), of k] by (cases k) (auto simp: seat_ok_def)

lemma match_record_wf:
  assumes "match_record w l s = Inr s'" "wf_room s"
  shows "wf_room s'"
proof (cases "first_player self_player s")
  case (Some k)
  from self_player_seat0 [OF assms(2) this] have "k = 0" .
  let ?se = "my_session s\<lparr>win := w, lose := l\<rparr>"
  let ?p = "(players s ! 0)\<lparr>ts_session := Some ?se\<rparr>"
  from assms Some \<open>k = 0\<close> wf_room_seat0 [OF assms(2)] have s': "s' = set_player 0 ?p s\<lparr>my_session := ?se\<rparr>"
    by (simp add: match_record_def Let_def)
  have "has_id i ?p = has_id i (players s ! 0)" for i
    using wf_room_seat0 [OF assms(2)] by (simp add: has_id_def)
  then have "has_id i ((players s)[0 := ?p] ! j) = has_id i (players s ! j)" for i j
    by (cases "j = 0") (use wf_room_seat0 [OF assms(2)] in simp_all)
  moreover have "seat_ok 0 ?p" using wf_room_seat [OF assms(2), of 0] wf_room_seat0 [OF assms(2)]
    by (simp add: seat_ok_def wf_ts_def)
  moreover have "seat_ok j ((players s)[0 := ?p] ! j)" if "j < length (players s)" for j
    using \<open>seat_ok 0 ?p\<close> wf_room_seat [OF assms(2) that] that by (cases "j = 0") simp_all
  ultimately show ?thesis using assms(2) wf_room_seat0 [OF assms(2)] unfolding s'
    by (simp add: wf_room_def set_player_def distinct_ids_def)
qed (use assms in \<open>simp add: match_record_def\<close>)

lemma host_index_wf: "wf_room s \<Longrightarrow> k < length (players s) \<Longrightarrow> wf_room (s\<lparr>host_index := int k\<rparr>)"
  by (simp add: wf_room_def)

lemma update_host_wf:
  assumes "update_host i s = Inr s'" "wf_room s"
  shows "wf_room s'"
proof -
  from assms(1) obtain s1 where
    s1: "s1 = s \<or> (\<exists>k p. k < length (players s) \<and> set_is_host (players s ! k) = Inr p \<and>
      s1 = set_player k p s\<lparr>host_index := int k\<rparr>)"
    and s': "s' = s1 \<or> for_players (\<lambda>k p s. Inr (if ts_session p \<noteq> None \<and> int k \<noteq> host_index s
               then set_player k (make_btn_kick p) s else s)) s1 = Inr s'"
    by (auto simp: update_host_def py_bind_eq_Inr split: option.splits if_splits dest: first_playerD)
  have "wf_room s1"
    using s1 assms(2) wf_room_ts_step [where e = Make_host and collide = undefined and s = s]
      host_index_wf by auto
  then show ?thesis using s'
    by (auto elim!: for_players_wf
        dest: wf_room_ts_step [where e = Kick_button and collide = undefined, simplified] split: if_splits)
qed

lemma multi_handle_packet_wf:
  assumes "multi_handle_packet p s = Inr s'" "wf_room s"
  shows "wf_room s'"
proof -
  have step: "wf_room s'" if "with_player i (\<lambda>p. ts_step undefined e p) s = Inr s'" "\<And>se. e \<noteq> Init se" "e \<noteq> Clear"
    for i e using with_player_wf [OF that(1) assms(2)] wf_room_ts_step [OF assms(2)] that(2,3) by blast
  have eqs: "set_ready r = ts_step undefined (Ready_mark r)" "process_gameover = ts_step undefined Gameover"
    "handle_packet q = ts_step undefined (Packet q)" for r q by (simp_all add: fun_eq_iff)
  show ?thesis
  proof (cases "(p, s)" rule: multi_handle_packet.cases)
    case (2 s0)
    with assms show ?thesis
      by (auto elim!: for_players_wf simp: room_simps
          dest: wf_room_ts_step [where e = "New_state PLAY" and collide = undefined, simplified] split: if_splits)
  next
    case (4 i name s0)
    with assms show ?thesis
      by (auto dest: add_user_wf simp: set_is_not_my_session_def Session_def)
  qed (use assms step in \<open>auto simp: py_bind_eq_Inr room_simps eqs simp del: ts_step.simps
        dest: update_host_wf delete_player_wf game_end_wf match_record_wf\<close>)
qed

lemma player_event_wf:
  assumes "player_event collide ev k (players s ! k) s = Inr s'" "wf_room s" "k < length (players s)"
  shows "wf_room s' \<and> length (players s') = length (players s)"
proof (cases "ts_session (players s ! k)")
  case (Some se)
  obtain res p where p: "tsession_handle_event collide ev (players s ! k) = (res, p)" by fastforce
  have "ts_step collide (Input ev) (players s ! k) = Inr p" by (simp add: p)
  from wf_room_ts_step [OF assms(2,3) this] have "wf_room (set_player k p s)" by simp
  with assms(1) Some p show ?thesis
    by (auto simp: player_event_def Let_def dest!: send_wf split: option.splits action.splits)
qed (use assms in \<open>simp add: player_event_def\<close>)

lemma multi_popups_wf: "wf_room (multi_popups collide ev s) = wf_room s"
  by (simp add: multi_popups_def Let_def room_simps split: option.split prod.split)

lemma multi_event_wf:
  assumes "multi_event collide ev s = Inr s'" "wf_room s"
  shows "wf_room s'"
proof -
  from assms(1) obtain s1 b where e: "multi_handle_event collide ev s = Inr s1" "mp_btn_exit s1 = Some b"
    by (auto simp: multi_event_def py_bind_eq_Inr split: option.splits)
  obtain leave b' where b': "button_handle_event collide ev b = (leave, b')" by fastforce
  have s1: "s' = s1\<lparr>mp_btn_exit := Some b'\<rparr> \<or> send Delete_user (s1\<lparr>mp_btn_exit := Some b'\<rparr>) = Inr s'"
    using assms(1) e b' by (cases leave) (simp_all add: multi_event_def)
  from e(1)
  have "for_players (player_event collide ev) (multi_popups collide ev s) = Inr s1"
    by (simp add: multi_handle_event_def)
  from for_players_wf [OF this] assms(2) have "wf_room s1" by (simp add: multi_popups_wf player_event_wf)
  then have "wf_room (s1\<lparr>mp_btn_exit := Some b'\<rparr>)" by (simp add: wf_room_frame)
  with s1 show ?thesis by (auto dest: send_wf)
qed

lemma player_update_wf:
  assumes "player_update dt k (players s ! k) s = Inr s'" "wf_room s" "k < length (players s)"
  shows "wf_room s' \<and> length (players s') = length (players s)"
proof -
  from assms(1) obtain moves p where p: "tsession_update dt (players s ! k) = Inr (moves, p)"
    "send_all (map (\<lambda>m. Move (move_code m)) moves) (set_player k p s) = Inr s'"
    by (auto simp: player_update_def py_bind_eq_Inr)
  then have "ts_step undefined (Tick dt) (players s ! k) = Inr p" by simp
  from wf_room_ts_step [OF assms(2,3) this] send_all_wf [OF p(2)] show ?thesis by simp
qed

text \<open>Everything that happens to a room, as the operations of a machine.\<close>

datatype room_op = Room_packet s2c | Room_frame rat "event list"

fun room_step :: "collide \<Rightarrow> room_op \<Rightarrow> multi_play_state \<Rightarrow> multi_play_state py" where
  "room_step collide (Room_packet p) s = multi_handle_packet p s"
| "room_step collide (Room_frame dt evs) s = py_bind (multi_update collide dt evs s) (\<lambda>(_, s). Inr s)"

lemma room_step_wf:
  assumes "wf_room s" "room_step collide e s = Inr s'"
  shows "wf_room s'"
proof (cases e)
  case (Room_packet p)
  with assms show ?thesis by (simp add: multi_handle_packet_wf)
next
  case (Room_frame dt evs)
  with assms(2) obtain s1 s2 where s1: "py_for (multi_event collide) evs s = Inr s1"
    and s2: "for_players (player_update dt) s1 = Inr s2"
    and s': "s' = snd (consume_state (update_fade dt s2))"
    by (auto simp: multi_update_def py_bind_eq_Inr)
  have "wf_room s1" by (rule py_for_invariant [OF s1]) (use assms(1) in \<open>auto dest: multi_event_wf\<close>)
  with for_players_wf [OF s2] have "wf_room s2" by (simp add: player_update_wf)
  then show ?thesis by (simp add: s' consume_update_wf)
qed

interpretation room: machine "room_step collide" wf_room for collide
  by unfold_locales (rule room_step_wf)

lemma wf_TetrisSession: "wf_ts (TetrisSession r b)" "is_single (TetrisSession r b) = b"
    "ts_session (TetrisSession r b) = None" "\<not> b \<Longrightarrow> btn_ready (TetrisSession r b) \<noteq> None"
  by (simp_all add: TetrisSession_def Let_def wf_tsession_layout) (simp_all add: tsession_layout_def Let_def)

lemma seat_TetrisSession [simp]: "seat_ok k (TetrisSession r False)"
  using wf_TetrisSession(4) [of False r] by (simp add: seat_ok_def wf_TetrisSession self_player_def)

lemma init_own_seat:
  "\<exists>p. init_session se (TetrisSession r False) = Inr p \<and> seat_ok 0 p \<and> ts_session p = Some se"
proof -
  have "wf_grid (grid (ts_board (TetrisSession r False)))" using wf_TetrisSession(1) by (simp add: wf_ts_def)
  then obtain p where p: "init_session se (TetrisSession r False) = Inr p"
    by (simp add: init_session_def Let_def board_init_spec)
  then have "wf_ts p" using wf_ts_step [of undefined "Init se" "TetrisSession r False" p] wf_TetrisSession(1) by simp
  with p wf_TetrisSession(2) [of r False] show ?thesis
    by (auto simp: init_session_def Let_def py_bind_eq_Inr seat_ok_def)
qed

lemma wf_room_start:
  assumes "players s = p # qs" "length qs = 1 \<or> length qs = 4" "seat_ok 0 p" "ts_session p = Some (my_session s)"
    and "is_self (my_session s)" "\<And>q. q \<in> set qs \<Longrightarrow> (\<forall>k. seat_ok k q) \<and> ts_session q = None"
    and "host_index s = -1" "mp_btn_exit s \<noteq> None" "next_state s = None"
  shows "wf_room s"
proof -
  have seat: "seat_ok k (players s ! k)" if "k < length (players s)" for k
    using assms(1,3,6) that by (cases k) auto
  have "\<not> has_id i (players s ! k)" if "0 < k" "k < length (players s)" for i k
    using assms(1,6) that by (cases k) (auto simp: has_id_def)
  then have "distinct_ids (players s)" unfolding distinct_ids_def by (metis gr0I)
  with seat assms show ?thesis by (auto simp: wf_room_def leads_home_def)
qed

lemma wf_MultiPlayState:
  assumes "is_self se" "maxp = 2 \<or> maxp = 5"
  shows "\<exists>s. MultiPlayState se title maxp pw = Inr s \<and> wf_room s"
proof -
  obtain p where p: "init_session se (TetrisSession left_board_rect False) = Inr p"
    "seat_ok 0 p" "ts_session p = Some se" using init_own_seat by blast
  obtain qs where "(if maxp = 2 then layout_2player se else layout_5player se) = Inr (p # qs)"
    "length qs = 1 \<or> length qs = 4" "\<And>q. q \<in> set qs \<Longrightarrow> (\<forall>k. seat_ok k q) \<and> ts_session q = None"
  proof (rule that)
    let ?q = "TetrisSession right_board_rect False"
    show "(if maxp = 2 then layout_2player se else layout_5player se) =
      Inr (p # (if maxp = 2 then [?q] else map (\<lambda>(row, col). TetrisSession
          \<lparr>rect_x = rect_x (ts_rect ?q) + rect_w (ts_rect ?q) div 2 * col,
           rect_y = rect_y (ts_rect ?q) + rect_h (ts_rect ?q) div 2 * row,
           rect_w = rect_w (ts_rect ?q) div 2, rect_h = rect_h (ts_rect ?q) div 2\<rparr> False)
          [(0, 0), (0, 1), (1, 0), (1, 1)]))"
      using p(1) by (simp add: layout_2player_def layout_5player_def Let_def)
  qed (auto simp: wf_TetrisSession split: if_splits)
  then show ?thesis using p assms
    by (auto simp: MultiPlayState_def base_state.defs multi_play_state.defs BaseState_def intro!: wf_room_start)
qed

text \<open>
  C27: the seats of a multiplayer room stay consistent. Whatever packets, clicks, keys and frames
  arrive, in any order, as long as no exception escapes: seat 0 is the own player's and holds the
  session all scenes share, no other seat is \<open>is_self\<close>, no id sits on two seats, the host index
  points to a seat (or is still -1), and every board is a 25 by 10 grid.
\<close>

theorem room_invariant:
  assumes "is_self se" "maxp = 2 \<or> maxp = 5"
    and "py_bind (MultiPlayState se title maxp pw) (py_for (room_step collide) es) = Inr s"
  shows "(length (players s) = 2 \<or> length (players s) = 5) \<and>
    ts_session (players s ! 0) = Some (my_session s) \<and> is_self (my_session s) \<and>
    (\<forall>k<length (players s). 0 < k \<longrightarrow> \<not> self_player (players s ! k)) \<and>
    (\<forall>i j k. j < length (players s) \<longrightarrow> k < length (players s) \<longrightarrow>
      has_id i (players s ! j) \<longrightarrow> has_id i (players s ! k) \<longrightarrow> j = k) \<and>
    -1 \<le> host_index s \<and> host_index s < int (length (players s)) \<and>
    (\<forall>p \<in> set (players s). wf_grid (grid (ts_board p)))"
proof -
  from wf_MultiPlayState [OF assms(1,2)] obtain s0 where "MultiPlayState se title maxp pw = Inr s0" "wf_room s0"
    by blast
  with assms(3) room.run_inv [of s0 collide es s] have wf: "wf_room s" by simp
  then have "\<forall>k<length (players s). 0 < k \<longrightarrow> \<not> self_player (players s ! k)"
    "\<forall>p \<in> set (players s). wf_grid (grid (ts_board p))"
    by (auto simp: wf_room_def in_set_conv_nth seat_ok_def wf_ts_def)
  with wf show ?thesis unfolding wf_room_def distinct_ids_def by blast
qed

subsection \<open>Which packets raise\<close>

definition seat_raises :: "multi_play_state \<Rightarrow> int \<Rightarrow> s2c \<Rightarrow> bool" where
  "seat_raises s i p \<longleftrightarrow> (\<exists>k. first_player (has_id i) s = Some k \<and> packet_raises (ts_board (players s ! k)) p)"

fun room_raises :: "multi_play_state \<Rightarrow> s2c \<Rightarrow> bool" where
  "room_raises s (P_ERROR code) = (code \<notin> fst ` set ERROR_MESSAGES)"
| "room_raises s (P_UPDATE_HOST i) = (first_player (has_id i) s = None \<and>
     (\<exists>h. py_get (players s) (host_index s) = Inr h \<and> ts_session h = None))"
| "room_raises s (P_READY i r) = (\<exists>k. first_player (has_id i) s = Some k \<and> btn_ready (players s ! k) = None)"
| "room_raises s (P_MOVE i m) = seat_raises s i (P_MOVE i m)"
| "room_raises s (P_SPAWN i t n x y) = seat_raises s i (P_SPAWN i t n x y)"
| "room_raises s (P_FIX i x y) = seat_raises s i (P_FIX i x y)"
| "room_raises s (P_CLEARLINE i l c sc) = seat_raises s i (P_CLEARLINE i l c sc)"
| "room_raises s (P_ADDLINE i h) = seat_raises s i (P_ADDLINE i h)"
| "room_raises s _ = False"

lemma popup_of_defined: "\<exists>p. popup_of m = Inr p"
  by (simp add: popup_of_def PopupBox_def screen_size_def Let_def)

lemma for_players_defined:
  assumes "wf_room s"
    and "\<And>k s. k < length (players s) \<Longrightarrow> wf_room s \<Longrightarrow>
      \<exists>s'. f k (players s ! k) s = Inr s' \<and> wf_room s' \<and> length (players s') = length (players s)"
  shows "\<exists>s'. for_players f s = Inr s'"
proof -
  let ?P = "\<lambda>t. wf_room t \<and> length (players t) = length (players s)"
  have "\<exists>s'. py_for (\<lambda>k s. f k (players s ! k) s) [0..<length (players s)] s = Inr s' \<and> ?P s'"
  proof (rule py_for_defined)
    fix k t assume "k \<in> set [0..<length (players s)]" "?P t"
    then show "\<exists>s'. f k (players t ! k) t = Inr s' \<and> ?P s'" using assms(2) [of k t] by auto
  qed (use assms(1) in simp)
  then show ?thesis by (auto simp: for_players_def)
qed

lemma tsession_reset_defined: "wf_ts p \<Longrightarrow> \<exists>p'. tsession_reset p = Inr p'"
  by (simp add: wf_ts_def tsession_reset_def board_reset_spec)

lemma reset_room_defined:
  assumes "wf_room s"
  shows "\<exists>s'. reset_room s = Inr s'"
  unfolding reset_room_def
proof (rule for_players_defined [OF assms])
  fix k s assume k: "k < length (players s)" and wf: "wf_room s"
  from wf_room_seat [OF wf k] obtain p where p: "tsession_reset (players s ! k) = Inr p"
    using tsession_reset_defined by (auto simp: seat_ok_def)
  with wf_room_ts_step [OF wf k, of undefined Reset p] wf
  show "\<exists>s'. (if ts_session (players s ! k) = None then Inr s
      else py_bind (tsession_reset (players s ! k)) (\<lambda>p. Inr (set_player k p s))) = Inr s' \<and>
      wf_room s' \<and> length (players s') = length (players s)"
    by simp
qed

lemma with_player_raises:
  "raises (with_player i f s) \<longleftrightarrow> (\<exists>k. first_player (has_id i) s = Some k \<and> raises (f (players s ! k)))"
  by (auto simp: with_player_def py_bind_eq_Inl split: option.splits)

lemma ingame_raises:
  assumes "wf_room s"
  shows "raises (with_player i (handle_packet p) s) \<longleftrightarrow> seat_raises s i p"
proof -
  have "raises (handle_packet p (players s ! k)) \<longleftrightarrow> packet_raises (ts_board (players s ! k)) p"
    if "first_player (has_id i) s = Some k" for k
    using wf_room_seat [OF assms, of k] first_playerD [OF that] handle_packet_raises [of "players s ! k" p]
    by (simp add: seat_ok_def)
  then show ?thesis unfolding with_player_raises seat_raises_def by metis
qed

lemma host_seat:
  assumes "wf_room s"
  shows "\<exists>h. py_get (players s) (host_index s) = Inr h"
proof -
  have "- int (length (players s)) \<le> host_index s" "host_index s < int (length (players s))"
    using assms by (auto simp: wf_room_def)
  from py_get_defined [OF this] show ?thesis by blast
qed

lemma make_kicks_defined:
  assumes "wf_room s"
  shows "\<exists>s'. for_players (\<lambda>k p s. Inr (if ts_session p \<noteq> None \<and> int k \<noteq> host_index s
    then set_player k (make_btn_kick p) s else s)) s = Inr s'"
  using assms
  by (rule for_players_defined)
    (auto dest: wf_room_ts_step [where e = Kick_button and collide = undefined, simplified])

lemma set_is_host_defined:
  assumes "wf_room s" "first_player (has_id i) s = Some k"
  shows "\<exists>p se. set_is_host (players s ! k) = Inr p \<and> ts_session p = Some se"
  using wf_room_seat [OF assms(1), of k] first_playerD [OF assms(2)] wf_room_seat0 [OF assms(1)]
  by (cases k) (auto simp: set_is_host_def seat_ok_def has_id_def self_player_def Let_def split: option.splits)

lemma update_host_raises:
  assumes "wf_room s"
  shows "raises (update_host i s) \<longleftrightarrow> room_raises s (P_UPDATE_HOST i)"
proof (cases "first_player (has_id i) s")
  case None
  obtain h where h: "py_get (players s) (host_index s) = Inr h" using host_seat [OF assms] by blast
  obtain s' where "for_players (\<lambda>k p s. Inr (if ts_session p \<noteq> None \<and> int k \<noteq> host_index s
    then set_player k (make_btn_kick p) s else s)) s = Inr s'" using make_kicks_defined [OF assms] by blast
  with None h show ?thesis by (auto simp: update_host_def split: option.splits)
next
  case (Some k)
  from set_is_host_defined [OF assms Some] obtain p se where
    p: "set_is_host (players s ! k) = Inr p" "ts_session p = Some se" by blast
  let ?s = "set_player k p s\<lparr>host_index := int k\<rparr>"
  from first_playerD [OF Some] have k: "k < length (players s)" by simp
  have "wf_room ?s"
    using wf_room_ts_step [OF assms k, of undefined Make_host p] p(1) host_index_wf k by simp
  from make_kicks_defined [OF this] obtain s' where
    "for_players (\<lambda>k p s. Inr (if ts_session p \<noteq> None \<and> int k \<noteq> host_index s
    then set_player k (make_btn_kick p) s else s)) ?s = Inr s'" by blast
  moreover have "py_get (players ?s) (host_index ?s) = Inr p" using k by (simp add: py_get_nonneg)
  ultimately show ?thesis using Some p by (simp add: update_host_def)
qed

lemma add_user_defined:
  assumes "wf_room s"
  shows "\<exists>s'. add_user se s = Inr s'"
proof (cases "first_player (\<lambda>p. ts_session p = None) s")
  case (Some k)
  from first_playerD [OF this] have k: "k < length (players s)" by simp
  then have "wf_grid (grid (ts_board (players s ! k)))"
    using wf_room_seat [OF assms k] by (simp add: seat_ok_def wf_ts_def)
  then obtain p where "init_session se (players s ! k) = Inr p"
    by (simp add: init_session_def Let_def board_init_spec)
  moreover have "\<exists>h. py_get ((players s)[k := p]) (host_index s) = Inr h"
    using host_seat [OF assms] by (auto simp: py_get_def split: option.splits)
  ultimately show ?thesis using Some
    by (auto simp: add_user_def Let_def set_player_def)
qed (simp add: add_user_def)

lemma delete_player_defined:
  assumes "wf_room s"
  shows "\<exists>s'. delete_player i s = Inr s'"
proof (cases "first_player (has_id i) s")
  case (Some k)
  from first_playerD [OF this] have "k < length (players s)" by simp
  from wf_room_seat [OF assms this] have "\<exists>p. tsession_clear (players s ! k) = Inr p"
    by (simp add: seat_ok_def wf_ts_def tsession_clear_def board_clear_eq_reset board_reset_spec Let_def)
  with Some show ?thesis by (auto simp: delete_player_def)
qed (simp add: delete_player_def)

lemma process_gameover_defined: "wf_ts p \<Longrightarrow> \<not> raises (process_gameover p)"
  using process_gameover_spec [of p] by (auto simp: wf_ts_def)

lemma multi_packet_raises:
  assumes "wf_room s"
  shows "raises (multi_handle_packet p s) \<longleftrightarrow> room_raises s p"
proof (cases "(p, s)" rule: multi_handle_packet.cases)
  case (1 code s0)
  obtain q where q: "popup_of m = Inr (q m)" for m using popup_of_defined by metis
  have "map_of ERROR_MESSAGES code = None \<longleftrightarrow> code \<notin> fst ` set ERROR_MESSAGES" by (rule map_of_eq_None_iff)
  with 1 show ?thesis by (cases "map_of ERROR_MESSAGES code") (simp_all add: dict_get_def q)
next
  case (2 s0)
  have "wf_room (s\<lparr>room_state := R_PLAY\<rparr>)" using assms by (simp add: room_simps)
  then have "\<exists>s'. for_players (\<lambda>k p s. Inr (if ts_session p = None then s else set_player k (set_state PLAY p) s))
       (s\<lparr>room_state := R_PLAY\<rparr>) = Inr s'"
    by (rule for_players_defined)
      (auto dest: wf_room_ts_step [where e = "New_state PLAY" and collide = undefined, simplified])
  with 2 show ?thesis by auto
next
  case (3 i s0)
  with update_host_raises [OF assms] show ?thesis by simp
next
  case (4 i name s0)
  with add_user_defined [OF assms, of "set_is_not_my_session i name Session"] show ?thesis by auto
next
  case (5 i r s0)
  have r: "raises (set_ready r (players s ! k)) \<longleftrightarrow> btn_ready (players s ! k) = None" if "k < length (players s)" for k
    using wf_room_seat [OF assms that] by (auto simp: set_ready_def seat_ok_def split: option.splits)
  have "raises (with_player i (set_ready r) s) \<longleftrightarrow> room_raises s (P_READY i r)"
    unfolding with_player_raises room_raises.simps using r first_playerD by metis
  with 5 show ?thesis by simp
next
  case (6 i s0)
  with delete_player_defined [OF assms, of i] show ?thesis by auto
next
  case (7 i s0)
  have "\<not> raises (process_gameover (players s ! k))" if "k < length (players s)" for k
    using wf_room_seat [OF assms that] by (intro process_gameover_defined) (simp add: seat_ok_def)
  with 7 show ?thesis by (auto simp: with_player_raises [simplified] dest!: first_playerD)
next
  case (8 w s0)
  obtain s1 where s1: "reset_room s = Inr s1" using reset_room_defined [OF assms] by blast
  have "\<not> raises (game_end w s)"
    using popup_of_defined by (auto simp: game_end_def Let_def s1 py_bind_eq_Inl) (metis sum.distinct(1))
  with 8 show ?thesis by simp
next
  case (9 w l s0)
  then show ?thesis by (auto simp: match_record_def Let_def split: option.splits)
qed (use ingame_raises [OF assms] in auto)

text \<open>
  C28: exactly which packets crash a multiplayer room. In a room that satisfies the invariant a
  packet makes the handler raise if and only if it is an error with an unknown code, a ready mark
  for a seat whose ready button was replaced by the start button, a change of host to an id nobody
  has while the seat of the last host (or seat -1) is empty, or a game packet that its player's
  board rejects. Everything else, unknown ids included, is handled.
\<close>

theorem room_packet_raises_iff:
  assumes "is_self se" "maxp = 2 \<or> maxp = 5"
    and "py_bind (MultiPlayState se title maxp pw) (py_for (room_step collide) es) = Inr s"
  shows "raises (multi_handle_packet p s) \<longleftrightarrow> room_raises s p"
proof -
  from wf_MultiPlayState [OF assms(1,2)] obtain s0 where "MultiPlayState se title maxp pw = Inr s0" "wf_room s0"
    by blast
  with assms(3) room.run_inv [of s0 collide es s] multi_packet_raises [of s p] show ?thesis by simp
qed

theorem room_packet_raises_iff_witness:
  "\<exists>s. MultiPlayState (set_my_session Session) [65] 2 None = Inr s \<and> raises (multi_handle_packet (P_UPDATE_HOST 77) s)"
proof -
  let ?se = "set_my_session Session"
  have se: "is_self ?se" "s_id ?se = -1" by (simp_all add: set_my_session_def Session_def)
  from wf_MultiPlayState [of ?se 2 "[65]" None] se obtain s where
    s: "MultiPlayState ?se [65] 2 None = Inr s" "wf_room s" by auto
  then have p: "length (players s) = 2" "ts_session (players s ! 0) = Some ?se" "host_index s = -1"
      "ts_session (players s ! 1) = None"
    by (auto simp: MultiPlayState_def layout_2player_def py_bind_eq_Inr base_state.defs multi_play_state.defs
        wf_TetrisSession init_session_def Let_def)
  then have "room_raises s (P_UPDATE_HOST 77)"
    using se(2) by (auto simp: first_player_None has_id_def less_2_cases_iff py_get_def py_index_def)
  with room_packet_raises_iff [of ?se 2 "[65]" None "\<lambda>_ _. False" "[]" s "P_UPDATE_HOST 77"] s se show ?thesis by simp
qed

theorem room_invariant_witness:
  "\<exists>s. py_bind (MultiPlayState (set_my_session Session) [65] 2 None)
      (py_for (room_step (\<lambda>_ _. False)) [Room_packet (P_ADD_USER 7 [66]), Room_packet (P_UPDATE_HOST 7)]) = Inr s \<and>
     ts_session (players s ! 0) = Some (my_session s) \<and> host_index s < int (length (players s))"
proof -
  let ?se = "set_my_session Session"
  have se: "is_self ?se" "s_id ?se = -1" by (simp_all add: set_my_session_def Session_def)
  from wf_MultiPlayState [of ?se 2 "[65]" None] se obtain s0 where
    s0: "MultiPlayState ?se [65] 2 None = Inr s0" "wf_room s0" by auto
  then have p: "length (players s0) = 2" "ts_session (players s0 ! 0) = Some ?se" "host_index s0 = -1"
      "ts_session (players s0 ! 1) = None"
    by (auto simp: MultiPlayState_def layout_2player_def py_bind_eq_Inr base_state.defs multi_play_state.defs
        wf_TetrisSession init_session_def Let_def)
  have n: "first_player (has_id 7) s0 = None"
    using p se(2) by (auto simp: first_player_None has_id_def less_2_cases_iff)
  have f: "first_player (\<lambda>q. ts_session q = None) s0 = Some 1"
    using p by (simp add: first_player_def upt_conv_Cons numeral_2_eq_2)
  obtain s1 where s1: "multi_handle_packet (P_ADD_USER 7 [66]) s0 = Inr s1"
    using add_user_defined [OF s0(2)] by (metis multi_handle_packet.simps(4))
  have w1: "wf_room s1" using multi_handle_packet_wf [OF s1 s0(2)] .
  have "\<not> room_raises s1 (P_UPDATE_HOST 7)"
  proof -
    from s1 n f p(3) obtain q where "init_session (set_is_not_my_session 7 [66] Session) (players s0 ! 1) = Inr q"
      "s1 = set_player 1 q s0"
      by (auto simp: add_user_def Let_def py_bind_eq_Inr set_player_def set_is_not_my_session_def Session_def)
    moreover have "seat_ok 1 (players s0 ! 1)" using wf_room_seat [OF s0(2)] p(1) by simp
    ultimately have "has_id 7 (players s1 ! 1)" "length (players s1) = 2"
      using p(1) init_session_seat [of "set_is_not_my_session 7 [66] Session" "players s0 ! 1" q 1]
      by (auto simp: has_id_def set_is_not_my_session_def Session_def)
    then show ?thesis by (auto simp: first_player_None)
  qed
  with multi_packet_raises [OF w1, of "P_UPDATE_HOST 7"] obtain s2 where
    s2: "multi_handle_packet (P_UPDATE_HOST 7) s1 = Inr s2"
    by (cases "multi_handle_packet (P_UPDATE_HOST 7) s1") blast+
  from room_invariant [of ?se 2 "[65]" None "\<lambda>_ _. False"
      "[Room_packet (P_ADD_USER 7 [66]), Room_packet (P_UPDATE_HOST 7)]" s2] se(1) s0(1) s1 s2
  show ?thesis by (auto simp del: multi_handle_packet.simps)
qed

subsection \<open>The end of a game\<close>

text \<open>A loop that replaces each player by itself is pointwise.\<close>

lemma for_players_pointwise:
  assumes "for_players (\<lambda>k p s. py_bind (g p) (\<lambda>p. Inr (set_player k p s))) s = Inr s'"
  shows "\<exists>ps. s' = s\<lparr>players := ps\<rparr> \<and> length ps = length (players s) \<and>
    (\<forall>k<length ps. g (players s ! k) = Inr (ps ! k))"
proof -
  let ?f = "\<lambda>k t. py_bind (g (players t ! k)) (\<lambda>p. Inr (set_player k p t))"
  have "\<exists>ps. t = s\<lparr>players := ps\<rparr> \<and> length ps = length (players s) \<and>
      (\<forall>k<n. g (players s ! k) = Inr (ps ! k)) \<and> (\<forall>k. n \<le> k \<longrightarrow> ps ! k = players s ! k)"
    if "py_for ?f [0..<n] s = Inr t" "n \<le> length (players s)" for n t
    using that
  proof (induction n arbitrary: t)
    case 0
    then show ?case by (intro exI [of _ "players s"]) simp
  next
    case (Suc n)
    from Suc.prems(1) obtain t1 p where t1: "py_for ?f [0..<n] s = Inr t1"
      and p: "g (players t1 ! n) = Inr p" "t = set_player n p t1"
      by (auto simp: py_for_append py_bind_eq_Inr)
    from Suc.IH [OF t1] Suc.prems(2) obtain ps where ps: "t1 = s\<lparr>players := ps\<rparr>" "length ps = length (players s)"
      "\<forall>k<n. g (players s ! k) = Inr (ps ! k)" "\<forall>k. n \<le> k \<longrightarrow> ps ! k = players s ! k" by auto
    with p Suc.prems(2) show ?case
      by (intro exI [of _ "ps[n := p]"]) (auto simp: set_player_def nth_list_update less_Suc_eq)
  qed
  from this [OF assms [unfolded for_players_def]] show ?thesis by auto
qed

lemma reset_room_spec:
  assumes "reset_room s = Inr s'"
  shows "\<exists>ps. s' = s\<lparr>players := ps\<rparr> \<and> length ps = length (players s) \<and>
    (\<forall>k<length ps. if ts_session (players s ! k) = None then ps ! k = players s ! k
       else tsession_reset (players s ! k) = Inr (ps ! k))"
proof -
  let ?g = "\<lambda>p. if ts_session p = None then Inr p else tsession_reset p"
  have same: "set_player k (players t ! k) t = t" for k t by (cases t) (simp add: set_player_def)
  have "reset_room s = for_players (\<lambda>k p s. py_bind (?g p) (\<lambda>p. Inr (set_player k p s))) s"
    unfolding reset_room_def for_players_def
    by (rule arg_cong [where f = "\<lambda>f. py_for f _ _"]) (auto simp: fun_eq_iff same)
  with assms for_players_pointwise [of ?g s s'] obtain ps where ps: "s' = s\<lparr>players := ps\<rparr>"
    "length ps = length (players s)" "\<And>k. k < length ps \<Longrightarrow> ?g (players s ! k) = Inr (ps ! k)" by auto
  show ?thesis by (intro exI [of _ ps] conjI ps(1,2) allI impI)
    (drule ps(3), auto split: if_splits)
qed



text \<open>
  C30: a game packet reaches its player only. The first seat with the packet's id handles it on its
  own; every other seat, the popups, the transition and the requests sent are as before, and with no
  such seat nothing changes at all.
\<close>

theorem game_packet_routing:
  assumes "p = P_MOVE i m \<or> p = P_SPAWN i t n x y \<or> p = P_FIX i x y \<or> p = P_CLEARLINE i l c sc \<or> p = P_ADDLINE i h"
    and "multi_handle_packet p s = Inr s'"
  shows "(\<forall>k<length (players s). \<not> has_id i (players s ! k)) \<and> s' = s \<or>
    (\<exists>k q. k < length (players s) \<and> has_id i (players s ! k) \<and> (\<forall>j<k. \<not> has_id i (players s ! j)) \<and>
       handle_packet p (players s ! k) = Inr q \<and> has_id i q \<and> s' = s\<lparr>players := (players s)[k := q]\<rparr>)"
proof -
  from assms have h: "with_player i (handle_packet p) s = Inr s'" by auto
  show ?thesis
  proof (cases "first_player (has_id i) s")
    case None
    with h show ?thesis by (simp add: with_player_def first_player_None)
  next
    case (Some k)
    with h obtain q where q: "handle_packet p (players s ! k) = Inr q" "s' = s\<lparr>players := (players s)[k := q]\<rparr>"
      by (auto simp: with_player_def py_bind_eq_Inr set_player_def)
    then show ?thesis using first_playerD [OF Some] handle_packet_seat [OF q(1)]
      by (intro disjI2 exI [of _ k] exI [of _ q]) (simp add: has_id_def)
  qed
qed

theorem game_packet_routing_witness:
  "\<exists>s s' k q. MultiPlayState (set_my_session Session) [65] 2 None = Inr s \<and>
     multi_handle_packet (P_MOVE (-1) 0) s = Inr s' \<and> s' = s\<lparr>players := (players s)[k := q]\<rparr> \<and>
     handle_packet (P_MOVE (-1) 0) (players s ! k) = Inr q"
proof -
  have se: "is_self (set_my_session Session)" "s_id (set_my_session Session) = -1"
    by (simp_all add: set_my_session_def Session_def)
  from wf_MultiPlayState [OF se(1), of 2 "[65]" None] obtain s where
    s: "MultiPlayState (set_my_session Session) [65] 2 None = Inr s" "wf_room s" by auto
  have my: "my_session s = set_my_session Session"
    using s(1) by (auto simp: MultiPlayState_def py_bind_eq_Inr base_state.defs multi_play_state.defs BaseState_def)
  then have i: "has_id (-1) (players s ! 0)" "0 < length (players s)"
    using wf_room_seat0 [OF s(2)] se(2) by (auto simp: has_id_def)
  have "\<not> room_raises s (P_MOVE (-1) 0)" by (simp add: seat_raises_def)
  with multi_packet_raises [OF s(2), of "P_MOVE (-1) 0"] obtain s' where
    s': "multi_handle_packet (P_MOVE (-1) 0) s = Inr s'"
    by (cases "multi_handle_packet (P_MOVE (-1) 0) s") blast+
  from game_packet_routing [OF disjI1 [OF refl] s'] i s(1) s' show ?thesis by blast
qed

end
