(* ===== verification/SettingsInv.thy ===== *)
theory SettingsInv
  imports Settings
begin

text \<open>
  Lemmas on the sound settings: the settings file is read back as it was written, the slider keeps
  its volume between 0 and 100, and the window applies the volumes that it shows.
\<close>

subsection \<open>The settings file\<close>

lemma nat_str_digits: "list_all (\<lambda>c. 48 \<le> c \<and> c < 58) (nat_str n)"
  by (induction n rule: nat_str.induct) (subst nat_str.simps, auto)

lemma nat_str_nonempty [simp]: "nat_str n \<noteq> []"
  by (subst nat_str.simps) simp

definition ascii_digits :: "(nat \<Rightarrow> int option) \<Rightarrow> bool" where
  "ascii_digits digit \<longleftrightarrow> (\<forall>d < 10. digit (48 + d) = Some (int d))"

lemma int_body_digits:
  assumes "ascii_digits digit" "list_all (\<lambda>c. 48 \<le> c \<and> c < 58) s"
  shows "int_body digit s ok acc =
    (if s \<noteq> [] \<or> ok then Some (foldl (\<lambda>a c. 10 * a + (int c - 48)) acc s) else None)"
  using assms(2)
proof (induction s arbitrary: ok acc)
  case (Cons c s)
  then have c: "48 \<le> c" "c < 58" by simp_all
  then have "digit (48 + (c - 48)) = Some (int (c - 48))" using assms(1) by (simp only: ascii_digits_def)
  then have "digit c = Some (int c - 48)" using c by simp
  with Cons c show ?case by simp
qed simp

lemma foldl_nat_str: "foldl (\<lambda>a c. 10 * a + (int c - 48)) 0 (nat_str n) = int n"
proof (induction n rule: nat_str.induct)
  case (1 n)
  show ?case
  proof (cases "n < 10")
    case False
    then have "foldl (\<lambda>a c. 10 * a + (int c - 48)) 0 (nat_str n) = 10 * int (n div 10) + int (n mod 10)"
      using 1 by (subst nat_str.simps) simp
    also have "\<dots> = int n" by presburger
    finally show ?thesis .
  qed (simp add: nat_str.simps [of n])
qed

lemma nat_str_short: "n < 1000 \<Longrightarrow> length (nat_str n) \<le> 3"
  by (simp add: nat_str.simps [of n] nat_str.simps [of "n div 10"] nat_str.simps [of "n div 10 div 10"])

definition volume_ok :: "int \<Rightarrow> bool" where
  "volume_ok v \<longleftrightarrow> 0 \<le> v \<and> v \<le> 100"

lemma int_str_volume:
  assumes "volume_ok v"
  shows "list_all (\<lambda>c. 48 \<le> c \<and> c < 58) (int_str v)" "int_str v \<noteq> []" "length (int_str v) \<le> 3"
    "foldl (\<lambda>a c. 10 * a + (int c - 48)) 0 (int_str v) = v"
  using assms nat_str_digits [of "nat v"] nat_str_short [of "nat v"] foldl_nat_str [of "nat v"]
  by (auto simp: int_str_def volume_ok_def)

lemma parse_int_volume:
  assumes "ascii_digits digit" "volume_ok v"
  shows "parse_int digit (int_str v) = Some v"
proof -
  note s = int_str_volume [OF assms(2)]
  then obtain c cs where cs: "int_str v = c # cs" by (auto simp: neq_Nil_conv)
  have "length (filter (\<lambda>c. c \<noteq> 95) (int_str v)) \<le> 3" using s(3) length_filter_le le_trans by blast
  moreover have "int_body digit (int_str v) False 0 = Some v"
    using int_body_digits [OF assms(1) s(1)] s(2,4) by simp
  moreover have "c \<noteq> 45" "c \<noteq> 43" using s(1) cs by auto
  ultimately show ?thesis unfolding cs by (simp add: parse_int_def del: int_body.simps)
qed

lemma py_strip_id:
  assumes "s \<noteq> []" "\<not> py_isspace (hd s)" "\<not> py_isspace (last s)"
  shows "py_strip s = s"
proof -
  have "dropWhile py_isspace s = s" using assms by (cases s) auto
  moreover have "dropWhile py_isspace (rev s) = rev s" using assms by (cases s rule: rev_cases) auto
  ultimately show ?thesis by (simp add: py_strip_def)
qed

lemma digits_clear: "48 \<le> c \<Longrightarrow> c < 58 \<Longrightarrow> \<not> py_isspace c \<and> c \<noteq> 61 \<and> \<not> line_break c"
  by (auto simp: py_isspace_def line_break_def)

lemma key_clear:
  assumes "key \<in> {MASTER, BGM, EFFECT}"
  shows "key \<noteq> []" "list_all (\<lambda>c. \<not> py_isspace c \<and> c \<noteq> 61 \<and> c \<noteq> 35 \<and> \<not> line_break c) key"
  using assms by (auto simp: volume_keys py_isspace_def line_break_def)

lemma load_line_setting:
  assumes "ascii_digits digit" "key \<in> {MASTER, BGM, EFFECT}" "volume_ok v"
  shows "load_line digit (key @ [61] @ int_str v) vols = dict_set vols key v"
proof -
  note k = key_clear [OF assms(2)] and s = int_str_volume [OF assms(3)]
  have sp: "\<And>c. c \<in> set key \<Longrightarrow> \<not> py_isspace c \<and> c \<noteq> 61 \<and> c \<noteq> 35"
    "\<And>c. c \<in> set (int_str v) \<Longrightarrow> \<not> py_isspace c \<and> c \<noteq> 61"
    using k(2) s(1) digits_clear by (auto simp: list_all_iff)
  have hd: "hd key \<in> set key" "hd (int_str v) \<in> set (int_str v)" "last key \<in> set key" "last (int_str v) \<in> set (int_str v)"
    using k(1) s(2) by simp_all
  have strips: "py_strip (key @ [61] @ int_str v) = key @ [61] @ int_str v" "py_strip key = key"
    "py_strip (int_str v) = int_str v"
    using sp hd k(1) s(2) by (auto intro!: py_strip_id)
  have cut: "takeWhile (\<lambda>c. c \<noteq> 61) (key @ [61] @ int_str v) = key"
    "dropWhile (\<lambda>c. c \<noteq> 61) (key @ [61] @ int_str v) = 61 # int_str v"
    using sp(1) by (simp_all add: takeWhile_append dropWhile_append)
  have "count_list key 61 = 0" "count_list (int_str v) 61 = 0"
    using sp by (auto simp: count_list_0_iff)
  then have count: "count_list (key @ [61] @ int_str v) 61 = 1" by simp
  have start: "key @ [61] @ int_str v \<noteq> []" "hd (key @ [61] @ int_str v) \<noteq> 35" using k(1) sp(1) hd(1) by auto
  have "max 0 (min 100 v) = v" using assms(3) by (simp add: volume_ok_def)
  then show ?thesis
    unfolding load_line_def Let_def strips cut list.sel parse_int_volume [OF assms(1,3)] option.case
    using start count assms(2) by simp
qed

lemma splitlines_line:
  "list_all (\<lambda>c. \<not> line_break c) l \<Longrightarrow> splitlines acc (l @ 10 # t) = (rev acc @ l) # splitlines [] t"
proof (induction l arbitrary: acc)
  case Nil
  then show ?case by (cases t) (auto simp: line_break_def)
next
  case (Cons c l)
  obtain d cs where l: "l @ 10 # t = d # cs" by (cases l) auto
  from Cons.prems have "c \<noteq> 13" "\<not> line_break c" by (auto simp: line_break_def)
  with Cons l have "splitlines acc (c # d # cs) = (rev (c # acc) @ l) # splitlines [] t" by simp
  with l show ?case by simp
qed

lemma setting_line_splits:
  assumes "ascii_digits digit" "key \<in> {MASTER, BGM, EFFECT}" "volume_ok v"
  shows "fold (load_line digit) (splitlines [] (setting_line key v @ t)) vols =
    fold (load_line digit) (splitlines [] t) (dict_set vols key v)"
proof -
  have v: "max 0 (min 100 v) = v" using assms(3) by (simp add: volume_ok_def)
  have "list_all (\<lambda>c. \<not> line_break c) (key @ [61] @ int_str v)"
    using key_clear(2) [OF assms(2)] int_str_volume(1) [OF assms(3)] digits_clear
    by (auto simp: list_all_iff line_break_def)
  from splitlines_line [OF this, of "[]" t] load_line_setting [OF assms] show ?thesis
    by (simp add: setting_line_def v)
qed

text \<open>The dictionaries of volumes have the three keys in this order.\<close>

definition volume_dict :: "(pystr \<times> int) list \<Rightarrow> bool" where
  "volume_dict d \<longleftrightarrow> map fst d = [MASTER, BGM, EFFECT] \<and> list_all (\<lambda>kv. volume_ok (snd kv)) d"

lemma volume_dictE:
  assumes "volume_dict d"
  obtains m b e where "d = [(MASTER, m), (BGM, b), (EFFECT, e)]" "volume_ok m" "volume_ok b" "volume_ok e"
  using assms by (auto simp: volume_dict_def map_eq_Cons_conv)

lemma volume_dict_length: "volume_dict d \<Longrightarrow> length d = 3"
  by (auto elim: volume_dictE)

lemma keys_distinct [simp]: "MASTER \<noteq> BGM" "MASTER \<noteq> EFFECT" "BGM \<noteq> EFFECT" "BGM \<noteq> MASTER" "EFFECT \<noteq> MASTER" "EFFECT \<noteq> BGM"
  by (simp_all add: volume_keys)

definition saved_text :: "(pystr \<times> int) list \<Rightarrow> pystr" where
  "saved_text d = concat (map (\<lambda>(k, v). setting_line k v) d)"

lemma set_volumes_dict:
  assumes "volume_dict d" "length (volumes s) = 3"
  shows "\<exists>x y. set_volumes d s = Inr (True, s\<lparr>volumes := d, bgm_volume := x, effect_volume := y, settings_file := Some (saved_text d)\<rparr>)"
proof -
  from assms(1) obtain m b e where d: "d = [(MASTER, m), (BGM, b), (EFFECT, e)]" "volume_ok m" "volume_ok b" "volume_ok e"
    by (rule volume_dictE)
  then show ?thesis using assms(2)
    by (auto simp: set_volumes_def save_sound_settings_def dict_get_def saved_text_def volume_ok_def)
qed

lemma load_saved:
  assumes "ascii_digits digit" "volume_dict d" "map fst vols = [MASTER, BGM, EFFECT]"
  shows "load_sound_settings digit (Some (saved_text d)) vols = d"
proof -
  from assms(2) obtain m b e where d: "d = [(MASTER, m), (BGM, b), (EFFECT, e)]" "volume_ok m" "volume_ok b" "volume_ok e"
    by (rule volume_dictE)
  with assms show ?thesis
    by (auto simp: load_sound_settings_def saved_text_def setting_line_splits map_eq_Cons_conv
        setting_line_splits [where t = "[]", simplified])
qed

subsection \<open>The slider\<close>

text \<open>The bar moves within the box, whose margins are half a bar wide.\<close>

definition wf_slider :: "adjust_sound \<Rightarrow> bool" where
  "wf_slider a \<longleftrightarrow> (let p = rect_w (adjust_bar_rect a) div 2; box = valid_box_rect a; bar = volume_bar_rect a in
     rect_w (adjust_bar_rect a) = 2 * p \<and> 0 \<le> p \<and> 0 < rect_w bar \<and> rect_x bar = rect_x box + p \<and>
     rect_w bar = rect_w box - 2 * p \<and> rect_x box \<le> rect_x (adjust_bar_rect a) \<and>
     rect_x (adjust_bar_rect a) \<le> rect_x box + rect_w bar \<and> volume_ok (adjusted_volume a) \<and>
     volume_value a = int_str (adjusted_volume a))"

lemma layout_frame [simp]:
  "volume_type (set_volume_bar_layout a) = volume_type a" "is_dragging (set_volume_bar_layout a) = is_dragging a"
  "adjusted_volume (set_volume_bar_layout a) = adjusted_volume a"
  "volume_value (set_volume_bar_layout a) = int_str (adjusted_volume a)"
  "valid_box_rect (set_volume_bar_layout a) = valid_box_rect a" "volume_bar_rect (set_volume_bar_layout a) = volume_bar_rect a"
  "adjust_bar_rect (set_volume_bar_layout a) = adjust_bar_rect a"
  by (simp_all add: set_volume_bar_layout_def Let_def)

lemma bar_x_in_box:
  assumes "wf_slider a"
  shows "rect_x (valid_box_rect a) \<le> bar_x_for x a \<and>
    bar_x_for x a \<le> rect_x (valid_box_rect a) + rect_w (volume_bar_rect a)"
  using assms by (simp add: wf_slider_def bar_x_for_def Let_def)

lemma move_adjust_bar_ok:
  assumes "bounded_floats F" "wf_slider a"
  shows "\<exists>a'. move_adjust_bar F x a = Inr a' \<and> wf_slider a' \<and> volume_type a' = volume_type a"
proof -
  let ?n = "bar_x_for x a - rect_x (valid_box_rect a)" and ?w = "rect_w (volume_bar_rect a)"
  have n: "0 \<le> ?n" "?n \<le> ?w" using bar_x_in_box [OF assms(2)] by (simp_all add: algebra_simps)
  have w: "0 < ?w" using assms(2) by (simp add: wf_slider_def Let_def)
  have v: "volume_ok (percent F ?n ?w)" using assms(1) n w by (simp add: bounded_floats_def volume_ok_def)
  have c: "bar_x_for x a + rect_w (adjust_bar_rect a) div 2 - rect_x (volume_bar_rect a) = ?n"
    using assms(2) by (simp add: wf_slider_def Let_def)
  show ?thesis using assms(2) v n w
    by (simp add: move_adjust_bar_def wf_slider_def centerx_def c Let_def)
qed

lemma adjust_event_ok:
  assumes "bounded_floats F" "wf_slider a"
  shows "\<exists>a'. adjust_handle_event F collide ev a = Inr a' \<and> wf_slider a' \<and> volume_type a' = volume_type a"
proof -
  have drag: "wf_slider (a\<lparr>is_dragging := b\<rparr>)" for b using assms(2) by (simp add: wf_slider_def)
  show ?thesis
    using assms(2) drag move_adjust_bar_ok [OF assms] move_adjust_bar_ok [OF assms(1) drag]
    by (cases ev) auto
qed

text \<open>The sliders of the settings window are 400 pixels wide.\<close>

lemma wf_AdjustSound:
  assumes "bounded_floats F" "rect_w r = 400" "dict_get (volumes snds) kind = Inr v" "volume_ok v"
  shows "\<exists>a. AdjustSound F r snds kind = Inr a \<and> wf_slider a \<and> volume_type a = kind \<and> adjusted_volume a = v"
proof -
  have "0 \<le> part_of F 192 v \<and> part_of F 192 v \<le> 192"
    using assms(1,4) by (simp add: bounded_floats_def volume_ok_def)
  then show ?thesis using assms(2-4)
    by (simp add: AdjustSound_def wf_slider_def scaled_def py_trunc_def Let_def)
qed

subsection \<open>The window\<close>

lemma py_collect_from:
  assumes "\<And>x. x \<in> set xs \<Longrightarrow> \<exists>y. f x = Inr y \<and> R x y"
  shows "\<exists>ys. py_for (\<lambda>x ys. py_bind (f x) (\<lambda>y. Inr (ys @ [y]))) xs zs = Inr (zs @ ys) \<and> list_all2 R xs ys"
  using assms
proof (induction xs arbitrary: zs)
  case (Cons x xs)
  then obtain y where y: "f x = Inr y" "R x y" by auto
  from Cons.IH [of "zs @ [y]"] Cons.prems obtain ys where
    "py_for (\<lambda>x ys. py_bind (f x) (\<lambda>y. Inr (ys @ [y]))) xs (zs @ [y]) = Inr (zs @ y # ys)" "list_all2 R xs ys"
    by auto
  with y show ?case by (intro exI [of _ "y # ys"]) simp
qed simp

lemmas py_collect_all2 = py_collect_from [where zs = "[]", simplified, folded py_collect_def]

text \<open>What the sliders show.\<close>

definition shown_volumes :: "setting_sound \<Rightarrow> (pystr \<times> int) list" where
  "shown_volumes ss = map (\<lambda>a. (volume_type a, adjusted_volume a)) (sound_settings ss)"

definition wf_sliders :: "setting_sound \<Rightarrow> bool" where
  "wf_sliders ss \<longleftrightarrow> list_all wf_slider (sound_settings ss) \<and>
     map volume_type (sound_settings ss) = [MASTER, BGM, EFFECT] \<and> adjusted_sound_volumes ss = shown_volumes ss"

lemma wf_sliders_dict: "wf_sliders ss \<Longrightarrow> volume_dict (shown_volumes ss)"
  by (auto simp: wf_sliders_def volume_dict_def shown_volumes_def comp_def list_all_iff wf_slider_def Let_def)

lemma modify_settings_shows:
  assumes "map volume_type as = [MASTER, BGM, EFFECT]" "map fst d = [MASTER, BGM, EFFECT]"
  shows "fold (\<lambda>a d. dict_set d (volume_type a) (adjusted_volume a)) as d =
    map (\<lambda>a. (volume_type a, adjusted_volume a)) as"
  using assms by (auto simp: map_eq_Cons_conv)

lemma list_all2_types:
  "list_all2 (\<lambda>a a'. wf_slider a' \<and> volume_type a' = volume_type a) as as' \<Longrightarrow>
   list_all wf_slider as' \<and> map volume_type as' = map volume_type as"
  by (induction rule: list_all2_induct) auto

lemma sound_event_ok:
  assumes "bounded_floats F" "wf_sliders ss"
  shows "\<exists>ss'. sound_handle_event F collide ev ss = Inr ss' \<and> wf_sliders ss'"
proof -
  from py_collect_all2 [of "sound_settings ss" "adjust_handle_event F collide ev"
      "\<lambda>a a'. wf_slider a' \<and> volume_type a' = volume_type a"] adjust_event_ok [OF assms(1)] assms(2)
  obtain as where as: "py_collect (adjust_handle_event F collide ev) (sound_settings ss) = Inr as"
    "list_all2 (\<lambda>a a'. wf_slider a' \<and> volume_type a' = volume_type a) (sound_settings ss) as"
    by (auto simp: wf_sliders_def list_all_iff)
  from list_all2_types [OF as(2)] assms(2) have "list_all wf_slider as" "map volume_type as = [MASTER, BGM, EFFECT]"
    "map fst (adjusted_sound_volumes ss) = [MASTER, BGM, EFFECT]"
    by (auto simp: wf_sliders_def shown_volumes_def comp_def)
  with as(1) modify_settings_shows [OF this(2,3)] show ?thesis
    by (simp add: sound_handle_event_def modify_settings_def wf_sliders_def shown_volumes_def)
qed

definition wf_settings :: "setting_window \<times> sounds \<Rightarrow> bool" where
  "wf_settings = (\<lambda>(w, snds). (\<exists>ss. setting_types w = [(SOUND_MENU, ss)] \<and> wf_sliders ss) \<and>
     activated_setting w = SOUND_MENU \<and> map fst (setting_top_menus w) = [SOUND_MENU] \<and>
     map btn_text (buttom_menus w) = [APPLY_TEXT, CANCEL_TEXT] \<and> volume_dict (volumes snds))"

definition page_of :: "setting_window \<Rightarrow> setting_sound" where
  "page_of w = snd (hd (setting_types w))"

lemma setting_buttons_ok:
  assumes "wf_sliders ss" "volume_dict (volumes snds)" "map btn_text bs = [APPLY_TEXT, CANCEL_TEXT]"
  shows "\<exists>res snds' bs'. setting_buttons collide ev ss bs (None, snds) = Inr ((res, snds'), bs') \<and>
    map btn_text bs' = [APPLY_TEXT, CANCEL_TEXT] \<and> volume_dict (volumes snds') \<and>
    (res = Some SUCCESS_TEXT \<longrightarrow> volumes snds' = shown_volumes ss \<and> settings_file snds' = Some (saved_text (shown_volumes ss))) \<and>
    (res = None \<longrightarrow> snds' = snds) \<and> res \<in> {None, Some SUCCESS_TEXT, Some CANCEL_TEXT}"
proof -
  from assms(3) obtain b1 b2 where bs: "bs = [b1, b2]" "btn_text b1 = APPLY_TEXT" "btn_text b2 = CANCEL_TEXT"
    by (auto simp: map_eq_Cons_conv)
  obtain c1 b1' c2 b2' where h: "button_handle_event collide ev b1 = (c1, b1')" "button_handle_event collide ev b2 = (c2, b2')"
    by fastforce
  from button_handle_event_frameD [OF h(1)] button_handle_event_frameD [OF h(2)] bs
  have t: "btn_text b1' = APPLY_TEXT" "btn_text b2' = CANCEL_TEXT" by simp_all
  have ne: "APPLY_TEXT \<noteq> CANCEL_TEXT" "CANCEL_TEXT \<noteq> APPLY_TEXT" "CANCEL_TEXT \<noteq> SUCCESS_TEXT" "SUCCESS_TEXT \<noteq> CANCEL_TEXT"
    by (simp_all add: APPLY_TEXT_def CANCEL_TEXT_def SUCCESS_TEXT_def)
  obtain x y where "set_volumes (shown_volumes ss) snds = Inr (True, snds\<lparr>volumes := shown_volumes ss, bgm_volume := x,
      effect_volume := y, settings_file := Some (saved_text (shown_volumes ss))\<rparr>)"
    using set_volumes_dict [OF wf_sliders_dict [OF assms(1)]] volume_dict_length [OF assms(2)] by blast
  moreover have "volume_dict (shown_volumes ss)" using assms(1) by (rule wf_sliders_dict)
  moreover have "adjusted_sound_volumes ss = shown_volumes ss" using assms(1) by (simp add: wf_sliders_def)
  ultimately show ?thesis using h t ne assms(2) unfolding bs(1)
    by (cases c1; cases c2) (simp_all add: apply_settings_def)
qed

lemma select_menu_one:
  assumes "map fst os = [SOUND_MENU]"
  shows "\<exists>os'. select_menu collide ev os SOUND_MENU = (SOUND_MENU, os') \<and> map fst os' = [SOUND_MENU]"
  using assms by (auto simp: map_eq_Cons_conv split: prod.split)

lemma setting_event_ok:
  assumes "bounded_floats F" "wf_settings (w, snds)"
  shows "\<exists>res w' snds'. setting_handle_event F collide ev (w, snds) = Inr (res, w', snds') \<and> wf_settings (w', snds') \<and>
    (res = Some SUCCESS_TEXT \<longrightarrow> volumes snds' = shown_volumes (page_of w') \<and>
       settings_file snds' = Some (saved_text (shown_volumes (page_of w')))) \<and>
    (res = None \<longrightarrow> snds' = snds) \<and> res \<in> {None, Some SUCCESS_TEXT, Some CANCEL_TEXT}"
proof -
  from assms(2) obtain ss where ss: "setting_types w = [(SOUND_MENU, ss)]" "wf_sliders ss"
    and w: "activated_setting w = SOUND_MENU" "map fst (setting_top_menus w) = [SOUND_MENU]"
      "map btn_text (buttom_menus w) = [APPLY_TEXT, CANCEL_TEXT]" "volume_dict (volumes snds)"
    by (auto simp: wf_settings_def)
  from select_menu_one [OF w(2), of collide ev] obtain os where
    os: "select_menu collide ev (setting_top_menus w) SOUND_MENU = (SOUND_MENU, os)" "map fst os = [SOUND_MENU]" by (elim exE conjE)
  from sound_event_ok [OF assms(1) ss(2), of collide ev] obtain ss' where
    ss': "sound_handle_event F collide ev ss = Inr ss'" "wf_sliders ss'" by blast
  from setting_buttons_ok [OF ss'(2) w(4,3), of collide ev] obtain res snds' bs' where
    b: "setting_buttons collide ev ss' (buttom_menus w) (None, snds) = Inr ((res, snds'), bs')"
    "map btn_text bs' = [APPLY_TEXT, CANCEL_TEXT]" "volume_dict (volumes snds')"
    "res = Some SUCCESS_TEXT \<longrightarrow> volumes snds' = shown_volumes ss' \<and> settings_file snds' = Some (saved_text (shown_volumes ss'))"
    "res = None \<longrightarrow> snds' = snds" "res \<in> {None, Some SUCCESS_TEXT, Some CANCEL_TEXT}" by (elim exE conjE)
  have "setting_handle_event F collide ev (w, snds) = Inr (res, w\<lparr>setting_top_menus := os, activated_setting := SOUND_MENU,
      setting_types := [(SOUND_MENU, ss')], buttom_menus := bs'\<rparr>, snds')"
    using ss(1) w(1) os(1) ss'(1) b(1) by (simp add: setting_handle_event_def dict_get_def)
  moreover have "wf_settings (w\<lparr>setting_top_menus := os, activated_setting := SOUND_MENU,
      setting_types := [(SOUND_MENU, ss')], buttom_menus := bs'\<rparr>, snds')"
    using os(2) ss'(2) b(2,3) by (simp add: wf_settings_def)
  ultimately show ?thesis using b(4-6) by (simp add: page_of_def)
qed

text \<open>The window is opened on the volumes of the mixer.\<close>

lemma wf_SettingWindow:
  assumes "bounded_floats F" "volume_dict (volumes snds)"
  shows "\<exists>w. SettingWindow F snds = Inr w \<and> wf_settings (w, snds)"
proof -
  from assms(2) obtain m b e where d: "volumes snds = [(MASTER, m), (BGM, b), (EFFECT, e)]"
    "volume_ok m" "volume_ok b" "volume_ok e" by (rule volume_dictE)
  have "\<exists>ss. SettingSound F r snds = Inr ss \<and> wf_sliders ss" if r: "rect_w r = 400" for r
  proof -
    let ?R = "\<lambda>k a. wf_slider a \<and> volume_type a = fst (volumes snds ! k) \<and> adjusted_volume a = snd (volumes snds ! k)"
    have "\<exists>a. AdjustSound F (r\<lparr>rect_y := y k, rect_h := h\<rparr>) snds (map fst (volumes snds) ! k) = Inr a \<and> ?R k a"
      if "k \<in> set [0..<3]" for k y h
    proof -
      have k: "k < 3" using that by simp
      then have nth: "map fst (volumes snds) ! k = fst (volumes snds ! k)" using d(1) by (intro nth_map) simp
      from k have "dict_get (volumes snds) (fst (volumes snds ! k)) = Inr (snd (volumes snds ! k)) \<and> volume_ok (snd (volumes snds ! k))"
        unfolding d(1) using d(2-4) by (auto simp: dict_get_def less_Suc_eq numeral_3_eq_3)
      with wf_AdjustSound [OF assms(1), of "r\<lparr>rect_y := y k, rect_h := h\<rparr>" snds "fst (volumes snds ! k)" "snd (volumes snds ! k)"] r
      show ?thesis using nth by simp
    qed
    then have all: "\<exists>as. py_collect (\<lambda>k. AdjustSound F (r\<lparr>rect_y := y k, rect_h := h\<rparr>) snds (map fst (volumes snds) ! k)) [0..<3] = Inr as
        \<and> list_all2 ?R [0..<3] as" for y h by (rule py_collect_all2)
    let ?h = "rect_h r div (3 * 2 - 1)"
    from all [where y = "\<lambda>k. rect_y r + (rect_h r - (?h * 3 + ?h * (3 - 1))) div 2 + int k * (?h * 2)" and h = ?h] obtain as where
      as: "py_collect (\<lambda>k. AdjustSound F (r\<lparr>rect_y := rect_y r + (rect_h r - (?h * 3 + ?h * (3 - 1))) div 2 + int k * (?h * 2),
          rect_h := ?h\<rparr>) snds (map fst (volumes snds) ! k)) [0..<3] = Inr as" "list_all2 ?R [0..<3] as" by blast
    have "length (volumes snds) = 3" "(3 :: int) \<noteq> 0" by (simp_all add: d(1))
    then have page: "SettingSound F r snds = Inr \<lparr>sound_settings = as, adjusted_sound_volumes = volumes snds\<rparr>"
      unfolding SettingSound_def Let_def length_map by (simp only: of_nat_numeral as(1) if_False py_bind_Inr)
    from as(2) obtain a1 a2 a3 where "as = [a1, a2, a3]" "?R 0 a1" "?R 1 a2" "?R 2 a3"
      by (auto simp: upt_conv_Cons list_all2_Cons1 numeral_2_eq_2)
    with page show ?thesis by (simp add: wf_sliders_def shown_volumes_def d(1))
  qed
  then obtain S where "\<And>r. rect_w r = 400 \<Longrightarrow> SettingSound F r snds = Inr (S r) \<and> wf_sliders (S r)" by metis
  moreover have "scaled DIALOG_WIDTH (8 / 10) = 400" by (simp add: scaled_def py_trunc_def DIALOG_WIDTH_def)
  ultimately show ?thesis using assms(2)
    by (simp add: SettingWindow_def wf_settings_def toggle_row_def button_row_def upt_conv_Cons Button_def Let_def split_def)
qed

fun setting_step :: "floats \<Rightarrow> collide \<Rightarrow> event \<Rightarrow> setting_window \<times> sounds \<Rightarrow> (setting_window \<times> sounds) py" where
  "setting_step F collide ev s = py_bind (setting_handle_event F collide ev s) (\<lambda>(_, s). Inr s)"

definition setting_inv :: "floats \<Rightarrow> setting_window \<times> sounds \<Rightarrow> bool" where
  "setting_inv F s \<longleftrightarrow> bounded_floats F \<and> wf_settings s"

interpretation settings: safe_machine "setting_step F collide" "setting_inv F" "\<lambda>_. True" for F collide
proof unfold_locales
  show "\<exists>s'. setting_step F collide ev s = Inr s'" if "setting_inv F s" for ev s
    using that setting_event_ok [of F "fst s" "snd s" collide ev] by (auto simp: setting_inv_def)
  show "setting_inv F s'" if "setting_inv F s" "setting_step F collide ev s = Inr s'" for ev s s'
    using that setting_event_ok [of F "fst s" "snd s" collide ev] by (auto simp: setting_inv_def)
qed

lemma Sounds_of_saved:
  assumes "ascii_digits digit" "volume_dict d"
  shows "\<exists>s. Sounds digit (Some (saved_text d)) = Inr s \<and> volumes s = d \<and> settings_file s = Some (saved_text d)"
proof -
  have "load_sound_settings digit (Some (saved_text d)) [(MASTER, 100), (BGM, 80), (EFFECT, 80)] = d"
    using assms by (intro load_saved) simp_all
  moreover have "length d = 3" using assms(2) by (auto elim: volume_dictE)
  ultimately show ?thesis
    using set_volumes_dict [OF assms(2), of "\<lparr>volumes = d, bgm_volume = 1, effect_volume = 1, settings_file = Some (saved_text d)\<rparr>"]
    by (auto simp: Sounds_def)
qed

subsection \<open>Properties\<close>



end
