(* ===== verification/WindowsInv.thy ===== *)
theory WindowsInv
  imports Windows
begin

text \<open>
  Lemmas on the dialogs: a text field keeps its texts encodable and its limit, the fast matching
  dialog asks for a known number of players, and the room dialog only sends requests that the packet
  builder accepts.
\<close>

subsection \<open>Text fields\<close>

text \<open>
  The texts a keyboard event carries come out of UTF-8, so they have no surrogates; one event brings
  a composed word at most, which the lemmas take to have up to 1000 characters.
\<close>

fun scalar_event :: "event \<Rightarrow> bool" where
  "scalar_event (TEXTINPUT t) = (list_all scalar t \<and> length t \<le> 1000)"
| "scalar_event (TEXTEDITING t) = (list_all scalar t \<and> length t \<le> 1000)"
| "scalar_event _ = True"

definition box_ok :: "input_box \<Rightarrow> bool" where
  "box_ok b \<longleftrightarrow> (\<exists>m. max_input_len b = Some m \<and> m \<le> 256) \<and> list_all scalar (ib_text b) \<and>
     list_all scalar (editing_text b) \<and> length (ib_text b) \<le> 2000 \<and> length (editing_text b) \<le> 1000"

definition text_ok :: "pystr \<Rightarrow> bool" where
  "text_ok t \<longleftrightarrow> list_all scalar t \<and> length t \<le> 2000"

lemma box_ok_InputBox [simp]: "m \<le> 256 \<Longrightarrow> box_ok (InputBox r h (Some m) p k)"
  by (simp add: box_ok_def InputBox_def Let_def)

lemma box_ok_active [simp]: "box_ok (b\<lparr>ib_active := a\<rparr>) = box_ok b"
  by (simp add: box_ok_def)

lemma box_ok_total:
  "box_ok b \<Longrightarrow> \<exists>t. get_total_text b = Inr t \<and> text_ok t"
  by (auto simp: get_total_text_def below_max_def box_ok_def text_ok_def)

lemma box_ok_extract:
  "box_ok b \<Longrightarrow> \<exists>t b'. extract_text b = Inr (t, b') \<and> get_total_text b = Inr t \<and> text_ok t \<and> box_ok b'"
  by (auto simp: extract_text_def get_total_text_def below_max_def box_ok_def text_ok_def reset_text_def reset_cursor_def)

lemma box_ok_delete: "box_ok b \<Longrightarrow> box_ok (delete_char b)"
  by (auto simp: box_ok_def delete_char_def list_all_iff dest: in_set_butlastD)

lemma box_ok_event:
  assumes "box_ok b" "scalar_event ev"
  shows "\<exists>r b'. input_handle_event pr collide ev b = Inr (r, b') \<and> box_ok b' \<and> (\<forall>t. r = Some t \<longrightarrow> text_ok t)"
proof (cases ev)
  case (TEXTINPUT t)
  with assms show ?thesis by (auto simp: add_char_def box_ok_def)
next
  case (KEYDOWN k)
  with assms box_ok_extract [OF assms(1)] box_ok_delete [OF assms(1)] show ?thesis by (auto simp: box_ok_def)
qed (use assms in \<open>auto simp: box_ok_def reset_cursor_def\<close>)

lemma box_ok_update: "box_ok b \<Longrightarrow> box_ok (input_update dt b)"
proof -
  assume b: "box_ok b"
  have frame: "box_ok (b\<lparr>cursor_timer_ms := t, cursor_visible := v, backspace_repeat_timer := r,
      backspace_repeat_time1_active := a, backspace_repeat_time2_active := c\<rparr>)" for t v r a c
    using b by (simp add: box_ok_def)
  then have "box_ok (delete_char (b\<lparr>cursor_timer_ms := t, cursor_visible := v, backspace_repeat_timer := r,
      backspace_repeat_time1_active := a, backspace_repeat_time2_active := c\<rparr>))" for t v r a c
    by (rule box_ok_delete)
  with b frame show ?thesis by (auto simp: input_update_def Let_def box_ok_def delete_char_def)
qed

subsection \<open>Dialogs\<close>

lemma popup_defined:
  assumes "1 \<le> length ts" "length ts \<le> 3"
  shows "\<exists>p. PopupBox sz m ts pw ph bw bh = Inr p \<and> map btn_text (pop_buttons p) = ts"
proof -
  from assms(1) have "ts \<noteq> []" by auto
  with assms show ?thesis by (cases sz) (simp add: PopupBox_def Let_def Button_def comp_def map_nth)
qed

lemma options_labels:
  "options_handle_event collide ev os = (r, os') \<Longrightarrow> map fst os' = map fst os \<and> (\<forall>t. r = Some t \<longrightarrow> t \<in> fst ` set os)"
  by (induction os arbitrary: r os') (fastforce simp: Let_def split: prod.splits if_splits)+

lemma toggle_row_labels [simp]: "map fst (toggle_row r y ts) = ts"
  by (simp add: toggle_row_def comp_def map_nth)

lemma button_row_texts [simp]: "map btn_text (button_row r y ts) = ts"
  by (simp add: button_row_def comp_def Button_def map_nth)

lemma labels_press_only [simp]: "map fst (press_only v os) = map fst os"
  by (simp add: press_only_def case_prod_unfold comp_def)

lemma buttons_texts:
  "buttons_handle_event collide ev bs = (r, bs') \<Longrightarrow> map btn_text bs' = map btn_text bs \<and> (\<forall>t. r = Some t \<longrightarrow> t \<in> btn_text ` set bs)"
  using buttons_handle_frame [of collide ev bs] buttons_handle_result [of collide ev bs _ bs'] by auto

lemma texts_distinct [simp]:
  "TWO_TEXT \<noteq> FIVE_TEXT" "FIVE_TEXT \<noteq> TWO_TEXT" "OPEN_TEXT \<noteq> LOCKED_TEXT" "LOCKED_TEXT \<noteq> OPEN_TEXT"
  "MAKE_TEXT \<noteq> CANCEL_TEXT" "CANCEL_TEXT \<noteq> MAKE_TEXT"
  by (simp_all add: TWO_TEXT_def FIVE_TEXT_def OPEN_TEXT_def LOCKED_TEXT_def MAKE_TEXT_def CANCEL_TEXT_def)

lemma player_texts [simp]:
  "digits_int (filter (\<lambda>c. c \<noteq> 0xC778) TWO_TEXT) = Inr 2" "digits_int (filter (\<lambda>c. c \<noteq> 0xC778) FIVE_TEXT) = Inr 5"
  by (simp_all add: digits_int_def TWO_TEXT_def FIVE_TEXT_def)

subsection \<open>The room dialog\<close>

definition wf_create :: "create_room_window \<Rightarrow> bool" where
  "wf_create w \<longleftrightarrow> box_ok (cw_title w) \<and> box_ok (cw_password w) \<and> map fst (option_player w) = [TWO_TEXT, FIVE_TEXT] \<and>
     map fst (option_open w) = [OPEN_TEXT, LOCKED_TEXT] \<and> map btn_text (option_make w) = [MAKE_TEXT, CANCEL_TEXT] \<and>
     (player_val w = Some 2 \<or> player_val w = Some 5) \<and> is_open w \<noteq> None"

lemma wf_CreateRoomWindow: "\<exists>w. CreateRoomWindow = Inr w \<and> wf_create w"
  by (auto simp: CreateRoomWindow_def set_player_value_def set_open_value_def wf_create_def MAX_INPUT_def Let_def split: prod.split)

lemma wf_create_update: "wf_create w \<Longrightarrow> wf_create (create_update dt w)"
  by (simp add: wf_create_def create_update_def box_ok_update)

lemma set_player_ok:
  assumes "wf_create w" "t \<in> {TWO_TEXT, FIVE_TEXT}"
  shows "\<exists>w'. set_player_value t w = Inr w' \<and> wf_create w'"
  using assms by (auto simp: set_player_value_def wf_create_def)

lemma set_open_ok: "wf_create w \<Longrightarrow> t \<in> {OPEN_TEXT, LOCKED_TEXT} \<Longrightarrow> wf_create (set_open_value t w)"
  by (auto simp: set_open_value_def wf_create_def Let_def)

text \<open>A request the dialog may send.\<close>

definition room_request_ok :: "request \<Rightarrow> bool" where
  "room_request_ok r \<longleftrightarrow> (\<exists>t n op p ts. r = Create t n op (Some p) \<and> (n = 2 \<or> n = 5) \<and>
     str_encode t = Inr ts \<and> 4 \<le> length ts \<and> (\<not> op \<longrightarrow> (\<exists>ps. str_encode p = Inr ps \<and> 4 \<le> length ps)) \<and>
     (\<exists>bs. build r = Inr bs))"

lemma str_to_bytes_scalar: "list_all scalar s \<Longrightarrow> \<exists>bs. str_to_bytes s n = Inr bs \<and> length bs = n"
  by (simp add: str_to_bytes_def str_encode_def Let_def)

lemma build_create_defined:
  assumes "list_all scalar t" "n = 2 \<or> n = 5" "list_all scalar p"
  shows "\<exists>bs. build (Create t n op (Some p)) = Inr bs"
proof -
  from str_to_bytes_scalar [OF assms(1)] obtain tb where tb: "str_to_bytes t 48 = Inr tb" "length tb = 48" by blast
  from str_to_bytes_scalar [OF assms(3)] obtain pb where pb: "str_to_bytes p 48 = Inr pb" "length pb = 48" by blast
  let ?o = "set_field ''room_name'' (VBytes tb) (set_field ''max_user'' (VInt n) (fresh C2S_ADD_OPEN_ROOM_PACKET C2S_ADD_OPEN_ROOM))"
  let ?l = "set_field ''room_password'' (VBytes pb) (set_field ''room_name'' (VBytes tb)
    (set_field ''max_user'' (VInt n) (fresh C2S_ADD_LOCK_ROOM_PACKET C2S_ADD_LOCK_ROOM)))"
  have "\<exists>bs. pack_struct ?o = Inr bs" "\<exists>bs. pack_struct ?l = Inr bs"
    using pack_body [of C2S_ADD_OPEN_ROOM ?o] pack_body [of C2S_ADD_LOCK_ROOM ?l] tb(2) pb(2) assms(2)
    by (auto simp: read_back_simps framed_def C2S_ADD_OPEN_ROOM_PACKET_def C2S_ADD_LOCK_ROOM_PACKET_def)
  with tb pb show ?thesis by (auto simp: build_create_room_def Let_def packet_limits)
qed

lemma short_title_message: "\<exists>m. dict_get ERROR_MESSAGES ROOM_NAME_TOO_SHORT = Inr m"
  by (simp add: dict_get_def ERROR_MESSAGES_def ROOM_NAME_TOO_SHORT_def)

lemma short_password_message: "\<exists>m. dict_get ERROR_MESSAGES ROOM_PASSWORD_TOO_SHORT = Inr m"
  by (simp add: dict_get_def ERROR_MESSAGES_def ROOM_PASSWORD_TOO_SHORT_def)

lemma create_error_ok:
  assumes "wf_create w" "\<exists>m. dict_get ERROR_MESSAGES c = Inr m"
  shows "\<exists>w'. create_error c w = Inr (None, [], w') \<and> wf_create w'"
proof -
  from assms(2) obtain m where m: "dict_get ERROR_MESSAGES c = Inr m" by blast
  from popup_defined [of "[OK_TEXT]" screen_size m None None None None] obtain p where
    "PopupBox screen_size m [OK_TEXT] None None None None = Inr p" by auto
  with m assms(1) show ?thesis by (simp add: create_error_def wf_create_def)
qed

lemma min_length_defined:
  "list_all scalar t \<Longrightarrow> \<exists>ts. str_encode t = Inr ts \<and> is_min_length t = Inr (4 \<le> length ts)"
  by (simp add: is_min_length_def str_encode_def)

lemma make_room_ok:
  assumes "wf_create w"
  shows "\<exists>res rs w'. make_room w = Inr (res, rs, w') \<and> wf_create w' \<and>
    (rs = [] \<and> res = None \<or> res = Some MAKE_TEXT \<and> (\<exists>r. rs = [r] \<and> room_request_ok r))"
proof -
  have boxes: "box_ok (cw_title w)" "box_ok (cw_password w)" using assms by (simp_all add: wf_create_def)
  from box_ok_extract [OF boxes(1)] obtain t tb where
    t: "extract_text (cw_title w) = Inr (t, tb)" "get_total_text (cw_title w) = Inr t" "list_all scalar t" "box_ok tb" unfolding text_ok_def by blast
  from box_ok_extract [OF boxes(2)] obtain p pb where
    p: "extract_text (cw_password w) = Inr (p, pb)" "get_total_text (cw_password w) = Inr p" "list_all scalar p" "box_ok pb" unfolding text_ok_def by blast
  from min_length_defined [OF t(3)] obtain ts where ts: "str_encode t = Inr ts" "is_min_length t = Inr (4 \<le> length ts)" by blast
  from min_length_defined [OF p(3)] obtain ps where ps: "str_encode p = Inr ps" "is_min_length p = Inr (4 \<le> length ps)" by blast
  from create_error_ok [OF assms short_title_message] obtain w1 where
    w1: "create_error ROOM_NAME_TOO_SHORT w = Inr (None, [], w1)" "wf_create w1" by blast
  from create_error_ok [OF assms short_password_message] obtain w2 where
    w2: "create_error ROOM_PASSWORD_TOO_SHORT w = Inr (None, [], w2)" "wf_create w2" by blast
  have n: "player_val w = Some 2 \<or> player_val w = Some 5" using assms by (simp add: wf_create_def)
  consider "length ts < 4" | "4 \<le> length ts" "is_open w = Some False" "length ps < 4"
    | "4 \<le> length ts" "is_open w = Some False \<longrightarrow> 4 \<le> length ps" by linarith
  then show ?thesis
  proof cases
    case 1
    with t p ts ps w1 show ?thesis by (simp add: make_room_def)
  next
    case 2
    with t p ts ps w2 show ?thesis by (simp add: make_room_def)
  next
    case 3
    let ?w = "w\<lparr>cw_title := tb, cw_password := pb, title_val := Some t, password_val := Some p\<rparr>"
    let ?r = "Create t (the (player_val w)) (is_open w = Some True) (Some p)"
    have "make_room w = Inr (Some MAKE_TEXT, [?r], ?w)"
      using 3 t p ts ps n by (auto simp: make_room_def)
    moreover have "wf_create ?w" using assms t(4) p(4) by (simp add: wf_create_def)
    moreover have "room_request_ok ?r"
      using build_create_defined [OF t(3) _ p(3)] ts(1) ps(1) 3 n assms
      by (auto simp: room_request_ok_def wf_create_def)
    ultimately show ?thesis by blast
  qed
qed

text \<open>The groups of widgets an event passes before it reaches the two buttons.\<close>

lemma create_event_parts:
  assumes "wf_create w" "scalar_event ev" "cw_error_popup w = None" "ev \<noteq> KEYDOWN K_RETURN"
  shows "\<exists>w'. wf_create w' \<and> create_handle_event pr collide ev w =
    (let (res, bs) = buttons_handle_event collide ev (option_make w'); w'' = w'\<lparr>option_make := bs\<rparr>
     in if res = Some MAKE_TEXT then make_room w'' else Inr (res, [], w''))"
proof -
  from box_ok_event [of "cw_title w" ev pr collide] assms obtain r b where
    b: "input_handle_event pr collide ev (cw_title w) = Inr (r, b)" "box_ok b" by (auto simp: wf_create_def)
  let ?w1 = "w\<lparr>cw_title := b\<rparr>"
  obtain c2 o2 where o2: "options_handle_event collide ev (option_player ?w1) = (c2, o2)" by fastforce
  let ?w2 = "?w1\<lparr>option_player := o2\<rparr>"
  from options_labels [OF o2] assms(1) b(2) have w2: "wf_create ?w2" "\<And>t. c2 = Some t \<Longrightarrow> t \<in> {TWO_TEXT, FIVE_TEXT}"
    by (auto simp: wf_create_def simp flip: set_map)
  obtain w3 where w3: "(case c2 of None \<Rightarrow> Inr ?w2 | Some t \<Rightarrow> set_player_value t ?w2) = Inr w3" "wf_create w3"
    using set_player_ok [OF w2(1)] w2 by (cases c2) auto
  obtain c4 o4 where o4: "options_handle_event collide ev (option_open w3) = (c4, o4)" by fastforce
  define w4 where "w4 = (case c4 of None \<Rightarrow> w3\<lparr>option_open := o4\<rparr> | Some t \<Rightarrow> set_open_value t (w3\<lparr>option_open := o4\<rparr>))"
  from options_labels [OF o4] w3(2) have "wf_create (w3\<lparr>option_open := o4\<rparr>)" "\<And>t. c4 = Some t \<Longrightarrow> t \<in> {OPEN_TEXT, LOCKED_TEXT}"
    by (auto simp: wf_create_def simp flip: set_map)
  then have w4: "wf_create w4" by (auto simp: w4_def intro: set_open_ok split: option.split)
  have "box_ok (cw_password w4)" using w4 by (simp add: wf_create_def)
  from box_ok_event [OF this assms(2), of pr collide] obtain r' b' where
    b': "input_handle_event pr collide ev (cw_password w4) = Inr (r', b')" "box_ok b'" by blast
  define w5 where "w5 = (if is_open w4 = Some False then w4\<lparr>cw_password := b'\<rparr> else w4)"
  have w5: "wf_create w5" using w4 b'(2) by (auto simp: w5_def wf_create_def)
  show ?thesis
    using assms(3,4) b(1) o2 w3(1) o4 b'(1) w5
    by (intro exI [of _ w5]) (simp add: create_handle_event_def Let_def w4_def [symmetric] w5_def)
qed

lemma create_event_ok:
  assumes "wf_create w" "scalar_event ev"
  shows "\<exists>res rs w'. create_handle_event pr collide ev w = Inr (res, rs, w') \<and> wf_create w' \<and>
    (rs = [] \<and> res \<in> {None, Some CANCEL_TEXT} \<or> res = Some MAKE_TEXT \<and> (\<exists>r. rs = [r] \<and> room_request_ok r))"
proof (cases "cw_error_popup w = None \<and> ev \<noteq> KEYDOWN K_RETURN")
  case True
  with create_event_parts [OF assms, of pr collide] obtain w1 where w1: "wf_create w1"
    "create_handle_event pr collide ev w =
      (let (res, bs) = buttons_handle_event collide ev (option_make w1); w2 = w1\<lparr>option_make := bs\<rparr>
       in if res = Some MAKE_TEXT then make_room w2 else Inr (res, [], w2))" by auto
  obtain res bs where h: "buttons_handle_event collide ev (option_make w1) = (res, bs)" by fastforce
  from buttons_texts [OF h] w1(1) have bs: "map btn_text bs = [MAKE_TEXT, CANCEL_TEXT]" "res \<in> {None, Some MAKE_TEXT, Some CANCEL_TEXT}"
    by (cases res; auto simp: wf_create_def simp flip: set_map)+
  let ?w = "w1\<lparr>option_make := bs\<rparr>"
  have w: "wf_create ?w" using w1(1) bs(1) by (simp add: wf_create_def)
  show ?thesis
  proof (cases "res = Some MAKE_TEXT")
    case True
    with make_room_ok [OF w] w1(2) h show ?thesis by auto
  next
    case False
    with w w1(2) h bs(2) show ?thesis by auto
  qed
next
  case False
  with assms show ?thesis
    by (auto simp: create_handle_event_def wf_create_def Let_def split: option.split prod.split)
qed

datatype create_op = Create_event event | Create_frame rat

fun create_step :: "(nat \<Rightarrow> bool) \<Rightarrow> collide \<Rightarrow> create_op \<Rightarrow> create_room_window \<Rightarrow> create_room_window py" where
  "create_step pr collide (Create_event ev) w = py_bind (create_handle_event pr collide ev w) (\<lambda>(_, _, w). Inr w)"
| "create_step pr collide (Create_frame dt) w = Inr (create_update dt w)"

fun scalar_op :: "create_op \<Rightarrow> bool" where
  "scalar_op (Create_event ev) = scalar_event ev"
| "scalar_op (Create_frame dt) = True"

text \<open>Texts with surrogates would raise; the machine only promises to survive the others.\<close>

lemma create_step_inv:
  assumes "wf_create w" "scalar_op e"
  shows "\<exists>w'. create_step pr collide e w = Inr w' \<and> wf_create w'"
proof (cases e)
  case (Create_event ev)
  with create_event_ok [OF assms(1), of ev pr collide] assms(2) show ?thesis by auto
qed (simp add: wf_create_update assms)

subsection \<open>Properties\<close>

text \<open>
  C35: the room dialog only sends requests that make a room. Whatever is typed and clicked, no
  event makes the dialog raise; an event sends nothing unless it presses the button that makes the
  room, and then sends exactly one request, for two or five players, whose title has at least four
  bytes, whose password too if the room is locked, and which the packet builder turns into a packet.
\<close>

theorem created_room_valid:
  assumes "\<And>e. e \<in> set es \<Longrightarrow> scalar_op e" "scalar_event ev"
  shows "\<exists>w0 w res rs w'. CreateRoomWindow = Inr w0 \<and> py_for (create_step pr collide) es w0 = Inr w \<and>
    create_handle_event pr collide ev w = Inr (res, rs, w') \<and>
    (rs = [] \<and> res \<noteq> Some MAKE_TEXT \<or> (\<exists>r. rs = [r] \<and> res = Some MAKE_TEXT \<and> room_request_ok r))"
proof -
  from wf_CreateRoomWindow obtain w0 where w0: "CreateRoomWindow = Inr w0" "wf_create w0" by blast
  have "\<exists>w. py_for (create_step pr collide) es w0 = Inr w \<and> wf_create w"
    using w0(2) assms(1) create_step_inv by (intro py_for_defined) blast+
  then obtain w where w: "py_for (create_step pr collide) es w0 = Inr w" "wf_create w" by blast
  from create_event_ok [OF w(2) assms(2), of pr collide] obtain res rs w' where
    e: "create_handle_event pr collide ev w = Inr (res, rs, w')"
    "rs = [] \<and> res \<in> {None, Some CANCEL_TEXT} \<or> res = Some MAKE_TEXT \<and> (\<exists>r. rs = [r] \<and> room_request_ok r)" by blast
  from e(2) have "rs = [] \<and> res \<noteq> Some MAKE_TEXT \<or> (\<exists>r. rs = [r] \<and> res = Some MAKE_TEXT \<and> room_request_ok r)"
    using texts_distinct by auto
  with w0(1) w(1) e(1) show ?thesis by blast
qed

theorem created_room_valid_witness:
  "\<exists>w0 w. CreateRoomWindow = Inr w0 \<and> py_for (create_step (\<lambda>_. True) (\<lambda>_ _. True))
     [Create_event (MOUSEBUTTONDOWN 1 (800, 300)), Create_event (TEXTINPUT [65]), Create_frame 16] w0 = Inr w"
proof -
  have "scalar_op e" if "e \<in> set [Create_event (MOUSEBUTTONDOWN 1 (800, 300)), Create_event (TEXTINPUT [65]), Create_frame 16]" for e
    using that by (auto simp: scalar_def)
  from created_room_valid [where es = "[Create_event (MOUSEBUTTONDOWN 1 (800, 300)), Create_event (TEXTINPUT [65]), Create_frame 16]"
      and ev = OTHER_EVENT and pr = "\<lambda>_. True" and collide = "\<lambda>_ _. True", OF this] show ?thesis unfolding scalar_event.simps by blast
qed

end
