(* ===== verification/LobbyInv.thy ===== *)
theory LobbyInv
  imports Lobby RoomInv SettingsInv WindowsInv
begin

text \<open>
  Lemmas on the lobby. \<open>wf_lobby\<close> says what holds of every reachable lobby: its lists are well
  formed, every dialog that is open is well formed, whoever a button or a dialog refers to is known,
  and a lobby that is locked has a dialog open. Every packet the server can send and every event is
  handled without an exception, but for one case, the \<open>lost_key\<close>.
\<close>

subsection \<open>Requests that the builder accepts\<close>

definition builds :: "request \<Rightarrow> bool" where
  "builds r \<longleftrightarrow> (\<exists>bs. build r = Inr bs)"

lemma send_ok: "builds r \<Longrightarrow> send r s = Inr (s\<lparr>sent := sent s @ [r]\<rparr>)"
  by (auto simp: send_def builds_def)

lemma send_all_ok: "list_all builds rs \<Longrightarrow> \<exists>l. send_all rs s = Inr (s\<lparr>sent := l\<rparr>)"
  unfolding send_all_def
proof (induction rs arbitrary: s)
  case Nil
  then show ?case by (intro exI [of _ "sent s"]) simp
next
  case (Cons r rs)
  from Cons.IH [of "s\<lparr>sent := sent s @ [r]\<rparr>"] Cons.prems show ?case by (simp add: send_ok)
qed

lemma builds_valid: "valid_request r \<Longrightarrow> builds r"
  unfolding builds_def using reads_back by blast

lemma builds_plain [simp]:
  "builds Room_list" "builds Disconnect" "builds Lobby_user_list" "builds Friend_list" "builds Ranking"
  by (simp_all only: builds_valid valid_request.simps)

definition id_ok :: "int \<Rightarrow> bool" where "id_ok i \<longleftrightarrow> int_range Ci i"
definition key_ok :: "int \<Rightarrow> bool" where "key_ok k \<longleftrightarrow> int_range CQ k"

lemma builds_friend: "id_ok i \<Longrightarrow> builds (Request_friend i) \<and> builds (Delete_friend i) \<and> builds (Accept_friend i)"
  by (simp only: builds_valid valid_request.simps id_ok_def simp_thms)

lemma builds_fast: "n \<in> {0, 2, 5} \<Longrightarrow> builds (Fast_match n)"
  by (rule builds_valid) auto

lemma builds_join_open: "key_ok k \<Longrightarrow> builds (Join k None)"
  by (simp only: builds_valid valid_request.simps key_ok_def simp_thms)

lemma builds_join:
  assumes "key_ok k" "list_all scalar pw"
  shows "builds (Join k (Some pw))"
proof (cases pw)
  case Nil
  with builds_join_open [OF assms(1)] show ?thesis by (simp add: builds_def build_join_room_pkt_def)
next
  case (Cons c cs)
  from str_to_bytes_scalar [OF assms(2)] obtain p where p: "str_to_bytes (c # cs) 48 = Inr p" "length p = 48"
    unfolding Cons by blast
  let ?d = "set_field ''room_password'' (VBytes p) (set_field ''room_key'' (VInt k) (fresh C2S_JOIN_LOCK_ROOM_PACKET C2S_JOIN_LOCK_ROOM))"
  have "\<exists>bs. pack_struct ?d = Inr bs"
    using pack_body [of C2S_JOIN_LOCK_ROOM ?d] p(2) assms(1)
    by (auto simp: read_back_simps framed_def C2S_JOIN_LOCK_ROOM_PACKET_def key_ok_def)
  with p(1) Cons show ?thesis by (simp add: builds_def build_join_room_pkt_def Let_def packet_limits)
qed

lemma utf8_length: "length (concat (map utf8_char s)) \<le> 4 * length s"
  by (induction s) (auto simp: utf8_char_def)

lemma builds_message: "text_ok m \<Longrightarrow> builds (Message m)"
proof (cases "m = []")
  case True
  then show ?thesis by (simp add: builds_def build_message_pkt_def)
next
  case False
  assume "text_ok m"
  with False utf8_length [of m] show ?thesis by (intro builds_valid) (auto simp: text_ok_def)
qed

lemma builds_quick_start: "builds (Create QUICK_START_SINGLE_ROOM_NAME 1 True None)"
  by (rule builds_valid) (simp add: QUICK_START_SINGLE_ROOM_NAME_def sendable_def scalar_def utf8_char_def)

subsection \<open>The lists\<close>

lemma room_data_shown [simp]: "map ri_data (rooms (update_show_rooms l)) = map ri_data (rooms l)"
  by (simp add: update_show_rooms_def Let_def map_slice_map room_update_rects_def set_show_range_def)

lemma rooms_event_data: "rooms_handle_event collide ev rs = (k, rs') \<Longrightarrow> map ri_data rs' = map ri_data rs"
  by (induction rs arbitrary: k rs') (auto simp: Let_def room_info_handle_event_def split: prod.splits if_splits)

lemma room_list_event_data:
  assumes "room_list_handle_event collide ev l = (r, l')"
  shows "map ri_data (rooms l') = map ri_data (rooms l)"
proof -
  let ?l = "update_show_rooms (scroll_handle_event collide ev l)"
  have base: "map ri_data (rooms ?l) = map ri_data (rooms l)" by simp
  obtain refresh b where b: "button_handle_event collide ev (btn_refresh ?l) = (refresh, b)" by fastforce
  let ?a = "nat (show_start ?l)" and ?n = "nat (show_end ?l - show_start ?l)"
  obtain k rs where k: "rooms_handle_event collide ev (take ?n (drop ?a (rooms ?l))) = (k, rs)" by fastforce
  have "rooms l' = rooms ?l \<or> rooms l' = take ?a (rooms ?l) @ rs @ drop ?n (drop ?a (rooms ?l))"
    using assms b k by (auto simp: room_list_handle_event_def Let_def split: if_splits)
  moreover have "map ri_data (take ?a (rooms ?l) @ rs @ drop ?n (drop ?a (rooms ?l))) = map ri_data (rooms ?l)"
    using rooms_event_data [OF k] map_append [of ri_data] append_take_drop_id by metis
  ultimately show ?thesis using base by metis
qed

definition keys_ok :: "room_list \<Rightarrow> bool" where
  "keys_ok l \<longleftrightarrow> list_all (\<lambda>d. key_ok (room_key d)) (map ri_data (rooms l))"

lemma rooms_cleared: "keys_ok (room_list_clear l)"
  by (simp add: keys_ok_def room_list_clear_def scroll_clear_def set_scroll_info_def set_scroll_rect_def Let_def)

definition tabs_ids :: "user_tabs \<Rightarrow> int set" where
  "tabs_ids t = {i. \<exists>n l. user_lists t n = Some l \<and> i \<in> dom (users_of l)}"

lemma user_ids: "dom (users_of l) = ui_id ` set (user_infos l)"
  by (auto simp: users_of_def dom_map_of_conv_image_fst user_entry_def image_image)

lemma user_event_target:
  "user_list_handle_event collide ev l = (Some e, l') \<Longrightarrow> target_id e \<in> dom (users_of l)"
proof -
  assume h: "user_list_handle_event collide ev l = (Some e, l')"
  let ?l = "update_show_user_infos (scroll_handle_event collide ev l)"
  from h obtain u where u: "List.find (\<lambda>u. user_info_handle_event collide ev u \<noteq> None) (shown_users ?l) = Some u"
    "user_info_handle_event collide ev u = Some e"
    by (auto simp: user_list_handle_event_def Let_def split: option.splits)
  then have "u \<in> set (shown_users ?l)" by (auto simp: find_Some_iff)
  then have "u \<in> set (user_infos l)"
    by (auto simp: shown_users_def update_show_user_infos_def set_show_range_def Let_def dest!: in_set_takeD in_set_dropD split: if_splits)
  moreover have "target_id e = ui_id u" using u(2) by (cases ev) (auto split: if_splits)
  ultimately show ?thesis by (auto simp: user_ids)
qed

lemma tabs_ids_on_tab:
  assumes "wf_tabs t" "\<And>l. wf_users l \<Longrightarrow> dom (users_of (f l)) \<subseteq> dom (users_of l) \<union> new"
  shows "tabs_ids (on_tab n f t) \<subseteq> tabs_ids t \<union> new"
proof
  fix i assume "i \<in> tabs_ids (on_tab n f t)"
  then obtain m l where l: "user_lists (on_tab n f t) m = Some l" "i \<in> dom (users_of l)" by (auto simp: tabs_ids_def)
  show "i \<in> tabs_ids t \<union> new"
  proof (cases "user_lists t n")
    case None
    with l show ?thesis by (auto simp: on_tab_def tabs_ids_def)
  next
    case (Some l0)
    with assms have sub: "dom (users_of (f l0)) \<subseteq> dom (users_of l0) \<union> new" by (auto simp: wf_tabs_def)
    from Some l(1) have "user_lists t m = Some l \<or> l = f l0" by (auto simp: on_tab_def split: if_splits)
    with l(2) sub Some show ?thesis unfolding tabs_ids_def by blast
  qed
qed

fun packet_ids :: "s2c \<Rightarrow> int set" where
  "packet_ids (P_LOBBY_USER_INFO i nick) = {i}"
| "packet_ids (P_FRIEND_INFO i nick st) = {i}"
| "packet_ids (P_ADD_FRIEND i nick) = {i}"
| "packet_ids (P_REQUEST_FRIEND i nick) = {i}"
| "packet_ids _ = {}"

lemma tabs_ids_add: "wf_tabs t \<Longrightarrow> tabs_ids (tabs_add_user n i nick st t) \<subseteq> insert i (tabs_ids t)"
  unfolding tabs_add_user_def
  by (rule order_trans [OF tabs_ids_on_tab [where new = "{i}"]])
    (use user_step_refines [of _ undefined "User_add i nick st"] in auto)

lemma tabs_ids_delete: "wf_tabs t \<Longrightarrow> tabs_ids (tabs_delete_user n i t) \<subseteq> tabs_ids t"
  unfolding tabs_delete_user_def
  by (rule order_trans [OF tabs_ids_on_tab [where new = "{}"]])
    (use user_step_refines [of _ undefined "User_delete i"] in \<open>auto split: if_splits\<close>)

lemma tabs_ids_clear: "wf_tabs t \<Longrightarrow> tabs_ids (tabs_clear (Some n) t) \<subseteq> tabs_ids t"
  unfolding tabs_clear_def option.case
  by (rule order_trans [OF tabs_ids_on_tab [where new = "{}"]])
    (use user_step_refines [of _ undefined User_clear] in auto)

lemma tabs_packet_ids:
  assumes "wf_tabs t" "tabs_handle_packet p t = (r, t')"
  shows "tabs_ids t' \<subseteq> tabs_ids t \<union> packet_ids p \<and> (\<forall>i nick. r = Some (i, nick) \<longrightarrow> i \<in> packet_ids p)"
  using assms(2)
  by (cases p) (auto dest: tabs_ids_add [OF assms(1), THEN subsetD] tabs_ids_delete [OF assms(1), THEN subsetD])

lemma tabs_ids_frame [simp]:
  "tabs_ids (t\<lparr>tab_buttons := bs\<rparr>) = tabs_ids t" "tabs_ids (t\<lparr>cur_tab_index := k\<rparr>) = tabs_ids t"
  "tabs_ids (t\<lparr>refresh_buttons := rb\<rparr>) = tabs_ids t"
  by (simp_all add: tabs_ids_def)

lemma tabs_ids_update:
  "user_lists t n = Some l \<Longrightarrow> users_of l' = users_of l \<Longrightarrow> tabs_ids (t\<lparr>user_lists := (user_lists t)(n \<mapsto> l')\<rparr>) = tabs_ids t"
  by (rule set_eqI) (simp add: tabs_ids_def, metis option.inject)

lemma in_tabs_ids: "user_lists t n = Some l \<Longrightarrow> i \<in> dom (users_of l) \<Longrightarrow> i \<in> tabs_ids t"
  unfolding tabs_ids_def by blast

lemma current_list: "get_cur_tab_name t = Inr cur \<Longrightarrow> get_cur_user_list t = Inr l \<Longrightarrow> user_lists t cur = Some l"
  by (auto simp: get_cur_user_list_def split: option.splits)

lemma tabs_list_event_ids:
  assumes "wf_tabs t" "user_lists t cur = Some l" "get_cur_user_list t = Inr l"
    "tabs_list_event collide ev cur t = Inr (r, t')"
  shows "tabs_ids t' = tabs_ids t \<and> (\<forall>e. r = Some (Friend_event e) \<longrightarrow> target_id e \<in> tabs_ids t)"
proof -
  obtain q l' where q: "user_list_handle_event collide ev l = (q, l')" by fastforce
  from assms(1,2) have "wf_users l" by (simp add: wf_tabs_def)
  from user_step_refines [OF this, of collide "User_event ev"] q have "users_of l' = users_of l" by simp
  moreover have "target_id e \<in> tabs_ids t" if "q = Some e" for e
    using in_tabs_ids [OF assms(2)] user_event_target q that by blast
  ultimately show ?thesis using tabs_ids_update [OF assms(2)] q assms(3,4)
    by (auto simp: tabs_list_event_def split: option.splits if_splits)
qed

lemma tabs_event_ids:
  assumes "wf_tabs t" "tabs_handle_event collide ev t = Inr (r, t')"
  shows "tabs_ids t' = tabs_ids t \<and> (\<forall>e. r = Some (Friend_event e) \<longrightarrow> target_id e \<in> tabs_ids t)"
proof -
  obtain chosen bs where o: "options_handle_event collide ev (tab_buttons t) = (chosen, bs)" by fastforce
  let ?t = "t\<lparr>tab_buttons := bs\<rparr>"
  show ?thesis
  proof (cases chosen)
    case (Some k)
    with o assms(2) show ?thesis by (auto simp: tabs_handle_event_def)
  next
    case None
    have wf: "wf_tabs ?t" using assms(1) options_frame [OF o] by (simp add: wf_tabs_def)
    from wf_current [OF this] obtain cur l where cur: "get_cur_tab_name ?t = Inr cur"
      "get_cur_user_list ?t = Inr l" "wf_users l" "cur \<in> set (tab_names ?t)" "user_lists ?t cur = Some l" .
    let ?u = "\<lambda>b. ?t\<lparr>refresh_buttons := (refresh_buttons t)(cur \<mapsto> b)\<rparr>"
    have "wf_tabs (?u b)" "get_cur_user_list (?u b) = Inr l" "user_lists (?u b) cur = Some l" for b
      using wf cur by (simp_all add: wf_tabs_def get_cur_user_list_def get_cur_tab_name_def)
    note u = tabs_list_event_ids [OF this(1,3,2)] tabs_list_event_ids [OF wf cur(5,2)]
    from None o cur(1) assms(2) have "tabs_list_event collide ev cur ?t = Inr (r, t') \<or>
      (\<exists>b. r = Some (Refresh_tab cur) \<and> t' = ?u b \<or> tabs_list_event collide ev cur (?u b) = Inr (r, t'))"
      by (auto simp: tabs_handle_event_def Let_def split: option.splits prod.splits if_splits)
    then show ?thesis using u by (elim disjE exE conjE) force+
  qed
qed

lemma on_tab_names [simp]: "tab_names (on_tab n f t) = tab_names t"
  by (simp add: on_tab_def split: option.split)

lemma tabs_clear_names [simp]: "tab_names (tabs_clear n t) = tab_names t"
  by (simp add: tabs_clear_def split: option.split)

lemma tabs_packet_names [simp]: "tab_names (snd (tabs_handle_packet p t)) = tab_names t"
  by (cases p) (simp_all add: tabs_add_user_def tabs_delete_user_def)

lemma tabs_list_event_names:
  "tabs_list_event collide ev cur t = Inr (r, t') \<Longrightarrow> tab_names t' = tab_names t \<and> (\<forall>n. r \<noteq> Some (Refresh_tab n))"
  by (auto simp: tabs_list_event_def Let_def split_def py_bind_eq_Inr split: option.splits if_splits)

lemma tabs_event_names:
  assumes "wf_tabs t" "tabs_handle_event collide ev t = Inr (r, t')"
  shows "tab_names t' = tab_names t \<and> (\<forall>n. r = Some (Refresh_tab n) \<longrightarrow> n \<in> set (tab_names t))"
proof -
  obtain chosen bs where o: "options_handle_event collide ev (tab_buttons t) = (chosen, bs)" by fastforce
  have "n \<in> set (tab_names t)" if "get_cur_tab_name (t\<lparr>tab_buttons := bs\<rparr>) = Inr n" for n
    using assms(1) that by (auto simp: get_cur_tab_name_def wf_tabs_def py_get_nonneg)
  with o assms(2) show ?thesis
    by (auto simp: tabs_handle_event_def Let_def split_def py_bind_eq_Inr split: option.splits if_splits dest!: tabs_list_event_names)
qed

subsection \<open>The invariant\<close>

text \<open>A scene that can be constructed: a room has two or five seats.\<close>

fun scene_ok :: "scene \<Rightarrow> bool" where
  "scene_ok (To_multi name n pw) = (n = 2 \<or> n = 5)"
| "scene_ok sc = True"

definition chat_ok :: "chat_window \<Rightarrow> bool" where
  "chat_ok c \<longleftrightarrow> box_ok (chat_input c) \<and> chat_scrolls c"

definition wf_lists :: "lobby_state \<Rightarrow> bool" where
  "wf_lists s \<longleftrightarrow> wf_rooms (lb_rooms s) \<and> keys_ok (lb_rooms s) \<and> wf_tabs (lb_tabs s) \<and>
     tab_names (lb_tabs s) = [USER_TAB_NAME, FRIEND_TAB_NAME] \<and> (\<forall>i \<in> tabs_ids (lb_tabs s). id_ok i) \<and> chat_ok (lb_chat s) \<and>
     volume_dict (volumes (lb_sounds s)) \<and> is_self (my_session s) \<and>
     (\<forall>sc. next_state s = Some sc \<longrightarrow> scene_ok sc)"

definition quick_ok :: "popup \<Rightarrow> bool" where
  "quick_ok w \<longleftrightarrow> map btn_text (pop_buttons w) = [QUICK_START_SINGLE_TEXT, QUICK_START_MULTI_TEXT, CANCEL_TEXT]"

definition wf_dialogs :: "lobby_state \<Rightarrow> bool" where
  "wf_dialogs s \<longleftrightarrow>
     (\<forall>w. quick_start_window s = Some w \<longrightarrow>
        quick_ok w) \<and>
     (\<forall>w. room_create_window s = Some w \<longrightarrow> wf_create w) \<and>
     (\<forall>w. lb_setting_window s = Some w \<longrightarrow> wf_settings (w, lb_sounds s)) \<and>
     (\<forall>w. input_pw_window s = Some w \<longrightarrow> box_ok (iw_input w)) \<and>
     (friend_ev_btn s \<noteq> None \<longrightarrow> (\<exists>i. friend_ev_target_id s = Some i \<and> id_ok i)) \<and>
     (friend_request_popup s \<noteq> None \<longrightarrow> (\<exists>i. friend_requester_id s = Some i \<and> id_ok i)) \<and>
     (\<forall>k. join_room_key s = Some k \<longrightarrow> key_ok k)"

definition dialog_open :: "lobby_state \<Rightarrow> bool" where
  "dialog_open s \<longleftrightarrow> lb_error_popup s \<noteq> None \<or> quick_start_window s \<noteq> None \<or> lb_fast_window s \<noteq> None \<or>
     room_create_window s \<noteq> None \<or> exit_popup s \<noteq> None \<or> lb_setting_window s \<noteq> None \<or>
     save_success_popup s \<noteq> None \<or> input_pw_window s \<noteq> None \<or> info_popup s \<noteq> None \<or> friend_request_popup s \<noteq> None"

definition wf_lobby :: "lobby_state \<Rightarrow> bool" where
  "wf_lobby s \<longleftrightarrow> wf_lists s \<and> wf_dialogs s \<and> (\<not> lb_reactable s \<longrightarrow> dialog_open s)"

lemmas wf_lobby_defs = wf_lobby_def wf_lists_def wf_dialogs_def dialog_open_def

definition lost_key :: "lobby_state \<Rightarrow> bool" where
  "lost_key s \<longleftrightarrow> input_pw_window s \<noteq> None \<and> join_room_key s = None"

lemma wf_lobby_lists:
  assumes "wf_lobby s"
  shows "wf_rooms (lb_rooms s)" "keys_ok (lb_rooms s)" "wf_tabs (lb_tabs s)" "chat_ok (lb_chat s)"
    "volume_dict (volumes (lb_sounds s))" "is_self (my_session s)"
    "tab_names (lb_tabs s) = [USER_TAB_NAME, FRIEND_TAB_NAME]" "next_state s = Some sc \<Longrightarrow> scene_ok sc"
  using assms unfolding wf_lobby_def wf_lists_def by blast+

lemma wf_lobby_dialogs:
  assumes "wf_lobby s"
  shows "quick_start_window s = Some w \<Longrightarrow>
      quick_ok w"
    "room_create_window s = Some c \<Longrightarrow> wf_create c"
    "lb_setting_window s = Some x \<Longrightarrow> wf_settings (x, lb_sounds s)"
    "input_pw_window s = Some i \<Longrightarrow> box_ok (iw_input i)"
    "friend_ev_btn s \<noteq> None \<Longrightarrow> \<exists>i. friend_ev_target_id s = Some i \<and> id_ok i"
    "friend_request_popup s \<noteq> None \<Longrightarrow> \<exists>i. friend_requester_id s = Some i \<and> id_ok i"
    "join_room_key s = Some k \<Longrightarrow> key_ok k"
  using assms unfolding wf_lobby_def wf_dialogs_def by blast+

lemma wf_lobby_frame [simp]:
  "wf_lobby (s\<lparr>sent := l\<rparr>) = wf_lobby s" "wf_lobby (s\<lparr>top_menus := bs\<rparr>) = wf_lobby s"
  "wf_lobby s \<Longrightarrow> wf_lobby (s\<lparr>next_state := None\<rparr>)" "wf_lobby (s\<lparr>fade_mode := m\<rparr>) = wf_lobby s"
  "wf_lobby (s\<lparr>fade_elapsed_ms := t\<rparr>) = wf_lobby s" "wf_lobby (s\<lparr>lb_exited := b\<rparr>) = wf_lobby s"
  by (simp_all add: wf_lobby_defs)

lemma queue_state_lobby [simp]: "wf_lobby s \<Longrightarrow> scene_ok sc \<Longrightarrow> wf_lobby (queue_state sc s)"
  by (simp add: queue_state_def start_fade_out_def Let_def) (simp add: wf_lobby_defs)

lemma opened_defined:
  "\<exists>p. popup_of m = Inr p" "\<exists>p. QuickStartWindow = Inr p \<and> quick_ok p"
  "\<exists>w. FastMatchingWindow = Inr w" "\<exists>w. InputWindow [JOIN_TEXT, CANCEL_TEXT] = Inr w \<and> box_ok (iw_input w)"
  "\<exists>p. PopupBox screen_size m [a, b] None None None None = Inr p"
proof -
  show "\<exists>p. popup_of m = Inr p" by (rule popup_of_defined)
  show "\<exists>p. QuickStartWindow = Inr p \<and> quick_ok p"
    unfolding QuickStartWindow_def dialog_popup_def quick_ok_def by (rule popup_defined) simp_all
  obtain p where "dialog_popup [] [FIND_TEXT, CANCEL_TEXT] = Inr p"
    unfolding dialog_popup_def using popup_defined [of "[FIND_TEXT, CANCEL_TEXT]"] by fastforce
  then show "\<exists>w. FastMatchingWindow = Inr w" by (simp add: FastMatchingWindow_def Let_def)
  obtain p where "dialog_popup [] [JOIN_TEXT, CANCEL_TEXT] = Inr p"
    unfolding dialog_popup_def using popup_defined [of "[JOIN_TEXT, CANCEL_TEXT]"] by fastforce
  then show "\<exists>w. InputWindow [JOIN_TEXT, CANCEL_TEXT] = Inr w \<and> box_ok (iw_input w)"
    by (simp add: InputWindow_def MAX_ROOM_PASSWORD_def Let_def split: prod.split)
  show "\<exists>p. PopupBox screen_size m [a, b] None None None None = Inr p"
    using popup_defined [of "[a, b]"] by fastforce
qed

lemma SinglePlayState_defined: "\<exists>s. SinglePlayState se name pw = Inr s"
proof -
  have "wf_grid (grid (ts_board (TetrisSession single_board_rect True)))"
    using wf_TetrisSession(1) by (simp add: wf_ts_def)
  then show ?thesis by (auto simp: SinglePlayState_def init_session_def Let_def board_init_spec)
qed

subsection \<open>Packets keep it\<close>

fun packet_ok :: "s2c \<Rightarrow> bool" where
  "packet_ok (P_ERROR code) = (code \<in> fst ` set ERROR_MESSAGES)"
| "packet_ok (P_INFO kind) = (kind \<in> fst ` set INFO_MESSAGES)"
| "packet_ok (P_ROOM_INFO key name maxu cur priv play) = key_ok key"
| "packet_ok p = (\<forall>i \<in> packet_ids p. id_ok i)"

lemma dict_get_key: "k \<in> fst ` set d \<Longrightarrow> \<exists>v. dict_get d k = Inr v"
  by (cases "map_of d k") (auto simp: dict_get_def map_of_eq_None_iff)

lemma tabs_packet_ok:
  assumes "wf_lobby s" "\<And>i. i \<in> packet_ids p \<Longrightarrow> id_ok i"
  shows "\<exists>s'. lobby_tabs_packet p s = Inr s' \<and> wf_lobby s'"
proof -
  obtain r t where t: "tabs_handle_packet p (lb_tabs s) = (r, t)" by fastforce
  note wf = wf_lobby_lists(3) [OF assms(1)]
  from tabs_packet_ids [OF wf t] wf_tabs_packet [OF wf, of p] tabs_packet_names [of p "lb_tabs s"] t assms
  have new: "wf_tabs t" "tab_names t = [USER_TAB_NAME, FRIEND_TAB_NAME]" "\<And>i. i \<in> tabs_ids t \<Longrightarrow> id_ok i" "\<And>i nick. r = Some (i, nick) \<Longrightarrow> id_ok i"
    by (auto simp: wf_lobby_defs)
  have s: "wf_lobby (s\<lparr>lb_tabs := t\<rparr>)" using assms(1) new(1-3) by (simp add: wf_lobby_defs)
  show ?thesis
  proof (cases r)
    case (Some q)
    then obtain i nick where q: "r = Some (i, nick)" by (cases q) simp
    obtain pop where "PopupBox screen_size (friend_message nick) [ACCEPT_TEXT, CLOSE_TEXT] None None None None = Inr pop"
      using opened_defined(5) by blast
    with t q new(4) [OF q] s show ?thesis by (simp add: lobby_tabs_packet_def wf_lobby_defs)
  qed (use t s in \<open>simp add: lobby_tabs_packet_def\<close>)
qed

lemma scroll_input [simp]:
  "chat_input (set_scroll_info n c) = chat_input c" "chat_input (set_scroll_len c) = chat_input c"
  "chat_input (set_show_start_index c) = chat_input c" "chat_input (scroll_to_bottom c) = chat_input c"
  for c :: chat_window
  by (simp_all only: set_scroll_info_def set_scroll_len_def set_show_start_index_def
      scroll_to_bottom_def set_scroll_rect_def Let_def, simp_all)

lemma show_range_input: "chat_input (set_show_range n c) = chat_input c"
  by (simp add: set_show_range_def Let_def)

lemma message_input: "chat_input (add_new_message px u m c) = chat_input c"
  by (simp add: add_new_message_def Let_def)

lemma chat_ok_steps:
  assumes "chat_ok c"
  shows "chat_ok (add_new_message px u m c)" "chat_ok (set_show_range (chat_items_len c) c)" "chat_ok (chat_update dt c)"
    "chat_ok (scroll_handle_event collide ev c)" "box_ok b \<Longrightarrow> chat_ok (c\<lparr>chat_input := b\<rparr>)"
proof -
  have "chat_input (scroll_handle_event collide ev c) = chat_input c"
    by (cases ev) (simp_all add: scroll_press_def scroll_motion_def scroll_wheel_def set_show_start_index_def
        set_scroll_rect_def Let_def)
  with assms show "chat_ok (add_new_message px u m c)" "chat_ok (set_show_range (chat_items_len c) c)"
    "chat_ok (chat_update dt c)" "chat_ok (scroll_handle_event collide ev c)" "box_ok b \<Longrightarrow> chat_ok (c\<lparr>chat_input := b\<rparr>)"
    by (simp_all add: chat_ok_def message_input show_range_input scrolls_message scrolls_range scrolls_event)
      (simp add: chat_update_def box_ok_update)
qed

lemma open_room_ok: "wf_lobby s \<Longrightarrow> \<exists>s'. open_room name maxu pw s = Inr s' \<and> wf_lobby s'"
  using SinglePlayState_defined [of "my_session s" name pw] wf_MultiPlayState [of "my_session s" maxu name pw]
  by (auto simp: open_room_def wf_lobby_defs [where s = s] wf_lists_def)

lemma lobby_packet_ok:
  assumes "wf_lobby s" "packet_ok p"
  shows "\<exists>s'. lobby_handle_packet pf p s = Inr s' \<and> wf_lobby s'"
proof -
  have tabs: "\<exists>s'. lobby_tabs_packet p s = Inr s' \<and> wf_lobby s'" if "packet_ids p \<noteq> {} \<or> (\<exists>i. p = P_DELETE_FRIEND i)"
    using assms that by (intro tabs_packet_ok) (cases p; auto)+
  show ?thesis
  proof (cases p)
    case (P_ERROR code)
    with assms(2) have "code \<in> fst ` set ERROR_MESSAGES" by simp
    from dict_get_key [OF this] obtain m where "dict_get ERROR_MESSAGES code = Inr m" ..
    moreover obtain q where "popup_of m = Inr q" using opened_defined(1) by blast
    ultimately show ?thesis using assms(1) P_ERROR by (simp add: wf_lobby_defs)
  next
    case (P_INFO kind)
    with assms(2) have "kind \<in> fst ` set INFO_MESSAGES" by simp
    from dict_get_key [OF this] obtain m where "dict_get INFO_MESSAGES kind = Inr m" ..
    moreover obtain q where "popup_of m = Inr q" using opened_defined(1) by blast
    ultimately show ?thesis using assms(1) P_INFO by (simp add: wf_lobby_defs)
  next
    case (P_ROOM_INFO key name maxu cur priv play)
    let ?d = "\<lparr>room_key = key, room_name = name, max_user = maxu, cur_user = cur, is_private = priv, is_play = play\<rparr>"
    have "map ri_data (rooms (room_list_add ?d (lb_rooms s))) = map ri_data (rooms (lb_rooms s)) @ [?d]"
      by (simp add: room_list_add_def RoomInfo_def Let_def)
    with assms P_ROOM_INFO room_list_add_wf [of "lb_rooms s" ?d] show ?thesis
      by (simp add: wf_lobby_defs keys_ok_def)
  next
    case (P_MESSAGE i name msg)
    with assms(1) P_MESSAGE show ?thesis by (simp add: wf_lobby_defs chat_ok_steps(1))
  qed (use assms(1) tabs open_room_ok in auto)
qed

subsection \<open>Events keep it\<close>

lemma lobby_menu_ok:
  assumes "wf_lobby s" "bounded_floats (pf_floats pf)"
  shows "\<exists>s'. lobby_menu pf k s = Inr s' \<and> wf_lobby s'"
proof -
  obtain q where q: "QuickStartWindow = Inr q"
    "quick_ok q"
    using opened_defined(2) by (elim exE conjE)
  obtain c where c: "CreateRoomWindow = Inr c" "wf_create c" using wf_CreateRoomWindow by (elim exE conjE)
  note wf_lobby_lists(5) [OF assms(1)]
  from wf_SettingWindow [OF assms(2) this] obtain w where
    w: "SettingWindow (pf_floats pf) (lb_sounds s) = Inr w" "wf_settings (w, lb_sounds s)" by blast
  obtain x where x: "PopupBox screen_size EXIT_QUESTION [EXIT_GAME_TEXT, CONTINUE_TEXT] None None None None = Inr x"
    using opened_defined(5) by blast
  consider "k = 0" | "k = 1" | "k = 2" | "k = 4" | "k = 5" | "k \<notin> {0, 1, 2, 4, 5}" by auto
  then show ?thesis
    by cases (use assms(1) q(2) c(2) w(2) in \<open>simp_all add: lobby_menu_def q(1) c(1) w(1) x\<close>, simp_all add: wf_lobby_defs)
qed

lemma lobby_rooms_ok:
  assumes "wf_lobby s"
  shows "\<exists>s'. lobby_rooms_event pf ev s = Inr s' \<and> wf_lobby s'"
proof -
  obtain r l where l: "room_list_handle_event (pf_collide pf) ev (lb_rooms s) = (r, l)" by fastforce
  note base = wf_lobby_lists(1,2) [OF assms]
  note ev = room_list_event_wf [OF base(1) l]
  have keys: "keys_ok l" using base(2) room_list_event_data [OF l] by (simp add: keys_ok_def)
  have s: "wf_lobby (s\<lparr>lb_rooms := l\<rparr>)" using assms ev keys by (simp add: wf_lobby_defs)
  show ?thesis
  proof (cases r)
    case None
    with l s show ?thesis by (simp add: lobby_rooms_event_def)
  next
    case (Some e)
    show ?thesis
    proof (cases e)
      case Refresh
      have "wf_rooms (room_list_clear l)" "keys_ok (room_list_clear l)"
        using room_list_step_wf [of l undefined Rooms_clear] ev rooms_cleared by simp_all
      with s Some Refresh l show ?thesis
        by (simp add: lobby_rooms_event_def request_room_list_def send_ok) (simp add: wf_lobby_defs)
    next
      case (Join_room k)
      from ev Some Join_room have v: "int k < show_end l - show_start l" "view_ok (room_items_len l) l" by auto
      then have "nat (show_start l) + k < length (rooms l)"
        by (auto simp: view_ok_def room_items_len_def)
      with keys have key: "key_ok (room_key (ri_data (rooms l ! (nat (show_start l) + k))))"
        by (simp add: keys_ok_def list_all_length)
      obtain w where w: "InputWindow [JOIN_TEXT, CANCEL_TEXT] = Inr w" "box_ok (iw_input w)"
        using opened_defined(4) by (elim exE conjE)
      show ?thesis
        using Some Join_room l s key w builds_join_open [OF key]
        by (simp add: lobby_rooms_event_def send_join_def send_ok Let_def) (simp add: wf_lobby_defs)
    qed
  qed
qed

lemma lobby_chat_ok:
  assumes "wf_lobby s" "scalar_event ev"
  shows "\<exists>s'. lobby_chat_event pf ev s = Inr s' \<and> wf_lobby s'"
proof -
  let ?c = "scroll_handle_event (pf_collide pf) ev (lb_chat s)"
  have c: "chat_ok ?c" using chat_ok_steps(4) [OF wf_lobby_lists(4) [OF assms(1)]] .
  then have "box_ok (chat_input ?c)" by (simp add: chat_ok_def)
  from box_ok_event [OF this assms(2), of "pf_printable pf" "pf_collide pf"] obtain r b where
    b: "input_handle_event (pf_printable pf) (pf_collide pf) ev (chat_input ?c) = Inr (r, b)" "box_ok b"
      "\<And>t. r = Some t \<Longrightarrow> text_ok t" by blast
  then show ?thesis using assms(1) chat_ok_steps(5) [OF c b(2)]
    by (cases r) (auto simp: lobby_chat_event_def chat_handle_event_def Let_def send_ok builds_message wf_lobby_defs)
qed

lemma tabs_cleared:
  assumes "wf_lobby s"
  shows "wf_lobby (s\<lparr>lb_tabs := tabs_clear (Some n) (lb_tabs s)\<rparr>)"
  using assms wf_tabs_clear [of "lb_tabs s" "Some n"] tabs_ids_clear [of "lb_tabs s" n]
  by (auto simp: wf_lobby_defs)

lemma tab_names_distinct [simp]: "FRIEND_TAB_NAME \<noteq> USER_TAB_NAME" "DELETE_EVENT \<noteq> ADD_EVENT"
  "DELETE_FRIEND_TEXT \<noteq> ADD_FRIEND_TEXT"
  by (simp_all add: FRIEND_TAB_NAME_def USER_TAB_NAME_def DELETE_EVENT_def ADD_EVENT_def
      DELETE_FRIEND_TEXT_def ADD_FRIEND_TEXT_def)

definition keeps :: "lobby_state py \<Rightarrow> bool" where
  "keeps r \<longleftrightarrow> (\<exists>s. r = Inr s \<and> wf_lobby s)"

lemma keeps_Inr [simp]: "keeps (Inr s) = wf_lobby s"
  by (simp add: keeps_def)

lemma keeps_bind: "keeps r \<Longrightarrow> (\<And>s. wf_lobby s \<Longrightarrow> keeps (f s)) \<Longrightarrow> keeps (py_bind r f)"
  by (auto simp: keeps_def)

lemma lobby_tabs_ok:
  assumes "wf_lobby s"
  shows "keeps (lobby_tabs_event pf ev s)"
proof -
  from wf_tabs_event [OF wf_lobby_lists(3) [OF assms], of "pf_collide pf" ev] obtain r t where
    t: "tabs_handle_event (pf_collide pf) ev (lb_tabs s) = Inr (r, t)" "wf_tabs t"
      "\<forall>e. r = Some (Friend_event e) \<longrightarrow> ev_type e = ADD_EVENT \<or> ev_type e = DELETE_EVENT" by (elim exE conjE)
  note ids = tabs_event_ids [OF wf_lobby_lists(3) [OF assms] t(1)]
    and names = tabs_event_names [OF wf_lobby_lists(3) [OF assms] t(1)]
  have s: "wf_lobby (s\<lparr>lb_tabs := t\<rparr>)" using assms t(2) ids names by (simp add: wf_lobby_defs)
  show ?thesis
  proof (cases r)
    case None
    with t(1) s show ?thesis by (simp add: lobby_tabs_event_def)
  next
    case (Some a)
    show ?thesis
    proof (cases a)
      case (Friend_event e)
      with Some ids assms have "id_ok (target_id e)" by (simp add: wf_lobby_defs)
      then have f: "wf_lobby (s\<lparr>lb_tabs := t, friend_ev_target_id := Some (target_id e), friend_ev_btn := Some b\<rparr>)" for b
        using s by (simp add: wf_lobby_defs)
      from Some Friend_event t(3) have "ev_type e = ADD_EVENT \<or> ev_type e = DELETE_EVENT" by simp
      with Some Friend_event t(1) f show ?thesis by (auto simp: lobby_tabs_event_def Let_def)
    next
      case (Refresh_tab n)
      with Some names wf_lobby_lists(7) [OF assms] have n: "n = USER_TAB_NAME \<or> n = FRIEND_TAB_NAME" by simp
      have "wf_lobby ((s\<lparr>lb_tabs := t\<rparr>)\<lparr>lb_tabs := tabs_clear (Some n) t\<rparr>)" for n
        using tabs_cleared [OF s] by simp
      with Some Refresh_tab n t(1) show ?thesis
        by (auto simp: lobby_tabs_event_def request_lobby_user_list_def request_friend_list_def send_ok)
    qed
  qed
qed

lemma lobby_mouse_ok:
  assumes "wf_lobby s"
  shows "keeps (lobby_mouse_event pf ev s)"
proof (cases "friend_ev_btn s")
  case None
  with lobby_tabs_ok [OF assms] show ?thesis by (simp add: lobby_mouse_event_def)
next
  case (Some b)
  with wf_lobby_dialogs(5) [OF assms] obtain i where i: "friend_ev_target_id s = Some i" "id_ok i" by auto
  obtain c b' where b: "button_handle_event (pf_collide pf) ev b = (c, b')" by fastforce
  have shown: "wf_lobby (s\<lparr>friend_ev_btn := Some b'\<rparr>)" "wf_lobby (s\<lparr>friend_ev_btn := None, friend_ev_target_id := None\<rparr>)"
    using assms i by (simp_all add: wf_lobby_defs)
  then have "wf_lobby (s\<lparr>sent := l, friend_ev_btn := None, friend_ev_target_id := None\<rparr>)" for l
    using assms by (simp add: wf_lobby_defs)
  with Some b shown i(1) builds_friend [OF i(2)] lobby_tabs_ok show ?thesis
    by (cases c) (auto simp: lobby_mouse_event_def send_friend_def send_ok Let_def split: option.split)
qed

lemma lobby_open_ok:
  assumes "wf_lobby s" "bounded_floats (pf_floats pf)" "scalar_event ev"
  shows "keeps (lobby_open_event pf ev s)"
proof -
  obtain menu bs where m: "menus_handle_event (pf_collide pf) ev (top_menus s) = (menu, bs)" by fastforce
  have s: "wf_lobby (s\<lparr>top_menus := bs\<rparr>)" using assms(1) by simp
  show ?thesis
  proof (cases menu)
    case (Some k)
    with m lobby_menu_ok [OF s assms(2), of k] show ?thesis by (simp add: lobby_open_event_def keeps_def)
  next
    case None
    have "keeps (py_bind (lobby_rooms_event pf ev (s\<lparr>top_menus := bs\<rparr>)) (\<lambda>s. py_bind (lobby_chat_event pf ev s) (\<lambda>s.
        if event_pos ev \<noteq> None then lobby_mouse_event pf ev s else Inr s)))"
      using lobby_rooms_ok [OF s] lobby_chat_ok [OF _ assms(3)] lobby_mouse_ok
      by (intro keeps_bind) (auto simp: keeps_def)
    with m None show ?thesis by (simp add: lobby_open_event_def)
  qed
qed

subsection \<open>Dialogs keep it\<close>

lemma unlocked: "wf_lobby s \<Longrightarrow> wf_lobby (s\<lparr>lb_reactable := True\<rparr>)"
  by (simp add: wf_lobby_defs)

lemma popup_event_texts:
  "popup_handle_event collide ev p = (r, p') \<Longrightarrow>
     map btn_text (pop_buttons p') = map btn_text (pop_buttons p) \<and> (\<forall>t. r = Some t \<longrightarrow> t \<in> btn_text ` set (pop_buttons p))"
  using buttons_texts [of collide ev "pop_buttons p"] by (auto simp: popup_handle_event_def split: prod.splits)

lemma quick_start_ok:
  assumes "wf_lobby s" "quick_start_window s = Some w" "\<not> lb_reactable s"
  shows "keeps (quick_start_event pf ev w s)"
proof -
  obtain r p where e: "popup_handle_event (pf_collide pf) ev w = (r, p)" by fastforce
  note q = wf_lobby_dialogs(1) [OF assms(1,2)]
  then have set: "btn_text ` set (pop_buttons w) = {QUICK_START_SINGLE_TEXT, QUICK_START_MULTI_TEXT, CANCEL_TEXT}"
    unfolding quick_ok_def set_map [symmetric] by (simp only: set_simps)
  from popup_event_texts [OF e] q have p: "quick_ok p" by (simp only: quick_ok_def)
  have r: "r \<in> {None, Some QUICK_START_SINGLE_TEXT, Some QUICK_START_MULTI_TEXT, Some CANCEL_TEXT}"
    using popup_event_texts [OF e] unfolding set by (cases r) simp_all
  obtain f where f: "FastMatchingWindow = Inr f" using opened_defined(3) by (elim exE)
  have "wf_lobby (s\<lparr>quick_start_window := Some p\<rparr>)" "wf_lobby (s\<lparr>quick_start_window := None, lb_reactable := True\<rparr>)"
    "wf_lobby (s\<lparr>quick_start_window := None, sent := l, lb_reactable := True\<rparr>)"
    "wf_lobby (s\<lparr>quick_start_window := None, lb_fast_window := Some f\<rparr>)" for l
    using assms(1) p by (simp_all add: wf_lobby_defs)
  with e r builds_quick_start show ?thesis
    by (auto simp: quick_start_event_def send_ok f Let_def)
qed

lemma fast_ok:
  assumes "wf_lobby s" "lb_fast_window s = Some w"
  shows "keeps (fast_event pf ev w s)"
proof -
  obtain r rs w' where e: "fast_handle_event (pf_collide pf) ev w = (r, rs, w')" by (cases "fast_handle_event (pf_collide pf) ev w") 
  then have "list_all builds rs"
    by (auto simp: fast_handle_event_def send_fast_matching_def builds_fast Let_def split: prod.splits if_splits)
  from send_all_ok [OF this, of "s\<lparr>lb_fast_window := Some w'\<rparr>"] obtain l where
    l: "send_all rs (s\<lparr>lb_fast_window := Some w'\<rparr>) = Inr (s\<lparr>lb_fast_window := Some w', sent := l\<rparr>)" by (elim exE)
  have "wf_lobby (s\<lparr>lb_fast_window := Some w', sent := l\<rparr>)"
    "wf_lobby (s\<lparr>sent := l, lb_fast_window := None, lb_reactable := True\<rparr>)"
    using assms(1) by (simp_all add: wf_lobby_defs)
  with e l show ?thesis by (simp add: fast_event_def)
qed

lemma create_ok:
  assumes "wf_lobby s" "room_create_window s = Some w" "scalar_event ev"
  shows "keeps (create_event pf ev w s)"
proof -
  from create_event_ok [OF wf_lobby_dialogs(2) [OF assms(1,2)] assms(3), of "pf_printable pf" "pf_collide pf"] obtain r rs w' where
    e: "create_handle_event (pf_printable pf) (pf_collide pf) ev w = Inr (r, rs, w')" "wf_create w'"
      "rs = [] \<and> r \<in> {None, Some CANCEL_TEXT} \<or> r = Some MAKE_TEXT \<and> (\<exists>q. rs = [q] \<and> room_request_ok q)"
    by (elim exE conjE)
  from e(3) have "list_all builds rs" by (auto simp: room_request_ok_def builds_def)
  from send_all_ok [OF this, of "s\<lparr>room_create_window := Some w'\<rparr>"] obtain l where
    l: "send_all rs (s\<lparr>room_create_window := Some w'\<rparr>) = Inr (s\<lparr>room_create_window := Some w', sent := l\<rparr>)" by (elim exE)
  have "wf_lobby (s\<lparr>room_create_window := Some w', sent := l\<rparr>)"
    "wf_lobby (s\<lparr>sent := l, room_create_window := None, lb_reactable := True\<rparr>)"
    using assms(1) e(2) by (simp_all add: wf_lobby_defs)
  with e(1) l show ?thesis by (simp add: create_event_def)
qed

lemma exit_ok:
  assumes "wf_lobby s" "exit_popup s = Some p"
  shows "keeps (exit_event pf ev p s)"
proof -
  obtain r p' where e: "popup_handle_event (pf_collide pf) ev p = (r, p')" by fastforce
  have "wf_lobby (s\<lparr>exit_popup := Some p'\<rparr>)" "wf_lobby (s\<lparr>exit_popup := None, lb_reactable := True\<rparr>)"
    "wf_lobby (s\<lparr>exit_popup := Some p', sent := l, lb_exited := True\<rparr>)" for l
    using assms(1) by (simp_all add: wf_lobby_defs)
  with e show ?thesis by (simp add: exit_event_def send_ok Let_def)
qed

lemma settings_ok:
  assumes "wf_lobby s" "lb_setting_window s = Some w" "bounded_floats (pf_floats pf)"
  shows "keeps (settings_event pf ev w s)"
proof -
  from setting_event_ok [OF assms(3) wf_lobby_dialogs(3) [OF assms(1,2)], of "pf_collide pf" ev] obtain r w' snds where
    e: "setting_handle_event (pf_floats pf) (pf_collide pf) ev (w, lb_sounds s) = Inr (r, w', snds)"
      "wf_settings (w', snds)" by (elim exE conjE)
  obtain p where p: "popup_of SAVED_TEXT = Inr p" using opened_defined(1) by blast
  have "volume_dict (volumes snds)" using e(2) by (simp add: wf_settings_def)
  then have "wf_lobby (s\<lparr>lb_setting_window := Some w', lb_sounds := snds\<rparr>)"
    "wf_lobby (s\<lparr>lb_sounds := snds, save_success_popup := Some p, lb_setting_window := None\<rparr>)"
    "wf_lobby (s\<lparr>lb_sounds := snds, lb_reactable := True, lb_setting_window := None\<rparr>)"
    using assms(1) e(2) by (simp_all add: wf_lobby_defs)
  with e p show ?thesis by (simp add: settings_event_def Let_def)
qed

lemma friend_request_ok:
  assumes "wf_lobby s" "friend_request_popup s = Some p"
  shows "keeps (friend_request_event pf ev p s)"
proof -
  obtain r p' where e: "popup_handle_event (pf_collide pf) ev p = (r, p')" by fastforce
  from wf_lobby_dialogs(6) [OF assms(1)] assms(2) obtain i where i: "friend_requester_id s = Some i" "id_ok i" by auto
  have "wf_lobby (s\<lparr>friend_request_popup := Some p'\<rparr>)"
    "wf_lobby (s\<lparr>friend_request_popup := None, friend_requester_id := None, lb_reactable := True\<rparr>)"
    "wf_lobby (s\<lparr>sent := l, friend_request_popup := None, friend_requester_id := None, lb_reactable := True\<rparr>)" for l
    using assms(1) i by (simp_all add: wf_lobby_defs)
  with e i(1) builds_friend [OF i(2)] show ?thesis by (simp add: friend_request_event_def send_ok Let_def)
qed

lemma password_ok:
  assumes "wf_lobby s" "input_pw_window s = Some w" "scalar_event ev"
  shows "keeps (password_event pf ev w s) \<or> lost_key s \<and> password_event pf ev w s = Inl StructError"
proof -
  obtain b where b: "input_handle_event (pf_printable pf) (pf_collide pf) ev (iw_input w) = Inr b" "box_ok (snd b)"
    using box_ok_event [OF wf_lobby_dialogs(4) [OF assms(1,2)] assms(3), of "pf_printable pf" "pf_collide pf"] by auto
  obtain r p where e: "popup_handle_event (pf_collide pf) ev (iw_window w) = (r, p)" by fastforce
  let ?w = "w\<lparr>iw_input := snd b, iw_window := p\<rparr>" and ?close = "\<lambda>s. s\<lparr>lb_reactable := True, input_pw_window := None, join_room_key := None\<rparr>"
  have ev: "inputw_handle_event (pf_printable pf) (pf_collide pf) ev w = Inr (r, ?w)"
    using b(1) e by (simp add: inputw_handle_event_def split_def)
  have closed: "wf_lobby (s\<lparr>input_pw_window := Some ?w\<rparr>)" "wf_lobby (?close s)" "wf_lobby (s\<lparr>sent := l, lb_reactable := True, input_pw_window := None, join_room_key := None\<rparr>)" for l
    using assms(1) b(2) by (simp_all add: wf_lobby_defs)
  show ?thesis
  proof (cases "r = Some JOIN_TEXT")
    case False
    with ev closed show ?thesis by (simp add: password_event_def Let_def)
  next
    case True
    from box_ok_extract [OF b(2)] obtain t b' where t: "extract_text (snd b) = Inr (t, b')" "list_all scalar t"
      by (auto simp: text_ok_def)
    show ?thesis
    proof (cases "join_room_key s")
      case None
      from str_to_bytes_scalar [OF t(2), of MAX_ROOM_PASSWORD] have "send_join (Some t) (s\<lparr>input_pw_window := Some ?w\<rparr>) = Inl StructError"
        using None by (auto simp: send_join_def split: list.split)
      with True ev t(1) None assms(2) show ?thesis by (simp add: password_event_def lost_key_def Let_def)
    next
      case (Some k)
      from builds_join [OF wf_lobby_dialogs(7) [OF assms(1) Some] t(2)] Some True ev t(1) closed show ?thesis
        by (simp add: password_event_def send_join_def send_ok Let_def)
    qed
  qed
qed

definition safe :: "lobby_state \<Rightarrow> lobby_state py \<Rightarrow> bool" where
  "safe s r \<longleftrightarrow> keeps r \<or> lost_key s \<and> r = Inl StructError"

lemma keeps_safe: "keeps r \<Longrightarrow> safe s r"
  by (simp add: safe_def)

lemma safe_case:
  "(v = None \<Longrightarrow> safe s n) \<Longrightarrow> (\<And>x. v = Some x \<Longrightarrow> safe s (g x)) \<Longrightarrow> safe s (case v of None \<Rightarrow> n | Some x \<Rightarrow> g x)"
  by (cases v) simp_all

lemma lobby_dialog_ok:
  assumes "wf_lobby s" "\<not> lb_reactable s" "scalar_event ev" "bounded_floats (pf_floats pf)"
  shows "keeps (lobby_dialog_event pf ev s) \<or> lost_key s \<and> lobby_dialog_event pf ev s = Inl StructError"
proof -
  have shown: "wf_lobby (s\<lparr>lb_error_popup := None, lb_reactable := True\<rparr>)" "wf_lobby (s\<lparr>lb_error_popup := Some p\<rparr>)"
    "wf_lobby (s\<lparr>lb_reactable := True, save_success_popup := None\<rparr>)" "wf_lobby (s\<lparr>save_success_popup := Some p\<rparr>)"
    "wf_lobby (s\<lparr>info_popup := None, lb_reactable := True\<rparr>)" "wf_lobby (s\<lparr>info_popup := Some p\<rparr>)" for p
    using assms(1) by (simp_all add: wf_lobby_defs)
  have parts: "quick_start_window s = Some q \<Longrightarrow> keeps (quick_start_event pf ev q s)"
    "lb_fast_window s = Some f \<Longrightarrow> keeps (fast_event pf ev f s)"
    "room_create_window s = Some c \<Longrightarrow> keeps (create_event pf ev c s)"
    "exit_popup s = Some x \<Longrightarrow> keeps (exit_event pf ev x s)"
    "lb_setting_window s = Some w \<Longrightarrow> keeps (settings_event pf ev w s)"
    "friend_request_popup s = Some x \<Longrightarrow> keeps (friend_request_event pf ev x s)" for q f c x w
    by (erule quick_start_ok [OF assms(1) _ assms(2)] fast_ok [OF assms(1)] create_ok [OF assms(1) _ assms(3)]
        exit_ok [OF assms(1)] settings_ok [OF assms(1) _ assms(4)] friend_request_ok [OF assms(1)])+
  show ?thesis
    unfolding lobby_dialog_event_def safe_def [symmetric]
  proof (intro safe_case)
    show "safe s (password_event pf ev w s)" if "input_pw_window s = Some w" for w
      using password_ok [OF assms(1) that assms(3)] by (simp add: safe_def)
  qed (use shown assms(1) in \<open>simp_all add: split_def Let_def keeps_safe parts\<close>)
qed

lemma lobby_event_ok:
  assumes "wf_lobby s" "scalar_event ev" "bounded_floats (pf_floats pf)"
  shows "keeps (lobby_event pf ev s) \<or> lost_key s \<and> lobby_event pf ev s = Inl StructError"
  using assms lobby_open_ok lobby_dialog_ok
  by (auto simp: lobby_event_def lobby_handle_event_def)

subsection \<open>Runs\<close>

text \<open>A loop that keeps an invariant or stops with an exception, raised by an element that may raise it.\<close>

lemma py_for_or_raise:
  assumes "\<And>e s. e \<in> set es \<Longrightarrow> P s \<Longrightarrow> (\<exists>s'. f e s = Inr s' \<and> P s') \<or> (\<exists>err. f e s = Inl err \<and> Q e s err)" "P s"
  shows "(\<exists>s'. py_for f es s = Inr s' \<and> P s') \<or>
    (\<exists>err ps e qs s1. py_for f es s = Inl err \<and> es = ps @ e # qs \<and> py_for f ps s = Inr s1 \<and> P s1 \<and> Q e s1 err)"
  using assms
proof (induction es arbitrary: s)
  case (Cons e es)
  from Cons.prems(1) [of e s] Cons.prems(2) consider
    s' where "f e s = Inr s'" "P s'" | err where "Q e s err" "f e s = Inl err" by auto
  then show ?case
  proof cases
    case 1
    have "(\<exists>t. py_for f es s' = Inr t \<and> P t) \<or> (\<exists>err ps e qs s1. py_for f es s' = Inl err \<and>
        es = ps @ e # qs \<and> py_for f ps s' = Inr s1 \<and> P s1 \<and> Q e s1 err)"
      using Cons.prems(1) 1(2) by (intro Cons.IH) auto
    then show ?thesis
    proof (elim disjE conjE exE)
      fix err ps e' qs s1
      assume "es = ps @ e' # qs" "py_for f ps s' = Inr s1" "P s1" "Q e' s1 err" "py_for f es s' = Inl err"
      with 1(1) show ?thesis
        by (intro disjI2 exI [of _ err] exI [of _ "e # ps"] exI [of _ e'] exI [of _ qs] exI [of _ s1]) simp
    qed (use 1(1) in auto)
  next
    case 2
    with Cons.prems(2) show ?thesis
      by (intro disjI2 exI [of _ err] exI [of _ "[]"] exI [of _ e] exI [of _ es] exI [of _ s]) simp
  qed
qed simp

datatype lobby_op = L_packet s2c | L_frame rat "event list" | L_draw

fun lobby_step :: "platform \<Rightarrow> lobby_op \<Rightarrow> lobby_state \<Rightarrow> lobby_state py" where
  "lobby_step pf (L_packet p) s = lobby_handle_packet pf p s"
| "lobby_step pf (L_frame dt evs) s = py_bind (lobby_update pf dt evs s) (\<lambda>(_, s). Inr s)"
| "lobby_step pf L_draw s = lobby_draw s"

fun lobby_op_ok :: "lobby_op \<Rightarrow> bool" where
  "lobby_op_ok (L_packet p) = packet_ok p"
| "lobby_op_ok (L_frame dt evs) = list_all scalar_event evs"
| "lobby_op_ok L_draw = True"

text \<open>A frame in which the password dialog handles an event after the key of its room was lost.\<close>

fun loses_key :: "platform \<Rightarrow> lobby_op \<Rightarrow> lobby_state \<Rightarrow> bool" where
  "loses_key pf (L_frame dt evs) s = (\<exists>ps ev qs s1. evs = ps @ ev # qs \<and>
     py_for (lobby_event pf) ps (s\<lparr>lb_chat := chat_update dt (lb_chat s)\<rparr>) = Inr s1 \<and> lost_key s1)"
| "loses_key pf _ s = False"

lemma update_fade_ok [simp]: "wf_lobby (update_fade dt s) = wf_lobby s"
  by (simp add: update_fade_def Let_def)

lemma consume_state_ok [simp]: "wf_lobby s \<Longrightarrow> wf_lobby (snd (consume_state s))"
  by (simp add: consume_state_def)

lemma lobby_frame_ok:
  assumes "wf_lobby s" "list_all scalar_event evs" "bounded_floats (pf_floats pf)"
  shows "keeps (lobby_step pf (L_frame dt evs) s) \<or>
    loses_key pf (L_frame dt evs) s \<and> lobby_step pf (L_frame dt evs) s = Inl StructError"
proof -
  let ?s = "s\<lparr>lb_chat := chat_update dt (lb_chat s)\<rparr>"
  have s: "wf_lobby ?s" using assms(1) by (simp add: wf_lobby_defs chat_ok_steps(3))
  have "(\<exists>s'. py_for (lobby_event pf) evs ?s = Inr s' \<and> wf_lobby s') \<or>
    (\<exists>err ps e qs s1. py_for (lobby_event pf) evs ?s = Inl err \<and> evs = ps @ e # qs \<and>
       py_for (lobby_event pf) ps ?s = Inr s1 \<and> wf_lobby s1 \<and> err = StructError \<and> lost_key s1)"
    using lobby_event_ok assms(2,3) s by (intro py_for_or_raise) (auto simp: keeps_def list_all_iff)
  then show ?thesis
  proof
    assume "\<exists>s'. py_for (lobby_event pf) evs ?s = Inr s' \<and> wf_lobby s'"
    then obtain s' where s': "py_for (lobby_event pf) evs ?s = Inr s'" "wf_lobby s'" by blast
    have "wf_lobby (s'\<lparr>room_create_window := map_option (create_update dt) (room_create_window s'),
        input_pw_window := map_option (inputw_update dt) (input_pw_window s')\<rparr>)"
      using s'(2) by (cases "room_create_window s'"; cases "input_pw_window s'")
        (simp_all add: wf_lobby_defs wf_create_update inputw_update_def box_ok_update)
    with s' show ?thesis by (simp add: lobby_update_def Let_def split_def)
  qed (auto simp: lobby_update_def)
qed

lemma tabs_draw_frame:
  assumes "wf_tabs t" "tabs_draw t = Inr t'"
  shows "tab_names t' = tab_names t \<and> tabs_ids t' = tabs_ids t"
proof -
  let ?t = "t\<lparr>tab_buttons := press_only (Some (cur_tab_index t)) (tab_buttons t)\<rparr>"
  have "wf_tabs ?t" using assms(1) by (simp add: wf_tabs_def)
  from wf_current [OF this] obtain cur l where cur: "get_cur_tab_name ?t = Inr cur"
    "get_cur_user_list ?t = Inr l" "wf_users l" "user_lists ?t cur = Some l" by metis
  from user_step_refines [OF cur(3), of undefined User_draw] obtain l' where
    "user_list_draw l = Inr l'" "users_of l' = users_of l" by auto
  with cur tabs_ids_update [OF cur(4), of l'] assms(2) show ?thesis by (auto simp: tabs_draw_def)
qed

lemma room_draw_data: "room_draw_item i y l = Inr l' \<Longrightarrow> map ri_data (rooms l') = map ri_data (rooms l)"
  by (auto simp: room_draw_item_def py_get_def py_set_def py_bind_eq_Inr map_update room_update_rects_def
      list_update_same_conv py_index_def split: option.splits if_splits)

lemma room_list_draw_data:
  assumes "room_list_draw l = Inr l'"
  shows "map ri_data (rooms l') = map ri_data (rooms l)"
proof -
  let ?l = "set_show_range (room_items_len l) l"
  from assms obtain t where t: "py_for (\<lambda>i l. room_draw_item i (rect_y (window_rect l) + (i - show_start l) * line_height l) l)
      [show_start ?l..show_end ?l - 1] ?l = Inr t" "l' = update_show_rooms t"
    by (auto simp: room_list_draw_def Let_def py_bind_eq_Inr)
  have "map ri_data (rooms t) = map ri_data (rooms ?l)"
    by (rule py_for_invariant [OF t(1)]) (auto dest: room_draw_data)
  with t(2) show ?thesis by (simp add: set_show_range_def Let_def)
qed

lemma lobby_draw_ok:
  assumes "wf_lobby s"
  shows "keeps (lobby_draw s)"
proof -
  obtain l where l: "room_list_draw (lb_rooms s) = Inr l" "wf_rooms l"
    using room_list_draw_defined wf_lobby_lists(1) [OF assms] by blast
  have keys: "keys_ok l" using room_list_draw_data [OF l(1)] wf_lobby_lists(2) [OF assms] by (simp add: keys_ok_def)
  from wf_tabs_draw [OF wf_lobby_lists(3) [OF assms]] obtain t where t: "tabs_draw (lb_tabs s) = Inr t" "wf_tabs t" by blast
  with tabs_draw_frame [OF wf_lobby_lists(3) [OF assms] t(1)] l keys assms show ?thesis
    by (simp add: lobby_draw_def wf_lobby_defs chat_ok_steps(2))
qed

lemma wf_RoomList:
  assumes "100 \<le> rect_h r"
  shows "wf_rooms (RoomList r)"
proof -
  let ?s = "ScrollWindowBase (r\<lparr>rect_y := rect_y r + ROOM_INFO_HEIGHT, rect_h := rect_h r - ROOM_INFO_HEIGHT\<rparr>) ROOM_INFO_HEIGHT 0"
  let ?l = "scroll_window.extend ?s (room_list.fields (r\<lparr>rect_y := rect_y r + ROOM_INFO_HEIGHT, rect_h := ROOM_INFO_HEIGHT\<rparr>) []
    (Button \<lparr>rect_x = rect_x r + rect_w r, rect_y = rect_y r + ROOM_INFO_HEIGHT - 50, rect_w = 50, rect_h = 50\<rparr> True []))"
  have "wf_scroll 0 ?s" using assms by (intro wf_ScrollWindowBase) (simp_all add: ROOM_INFO_HEIGHT_def)
  moreover have "scroll_window.truncate ?l = ?s" by (simp add: scroll_window.defs)
  ultimately have "wf_scroll 0 ?l" using truncate_scroll by metis
  then have "wf_scroll 0 (resized 0 ?l)" by (rule wf_resized_grow) simp_all
  moreover have "rooms ?l = []" by (simp add: scroll_window.defs room_list.defs)
  ultimately have "wf_rooms (resized 0 ?l)" by (simp add: wf_rooms_def room_items_len_def resized_def)
  then show ?thesis by (simp add: RoomList_def resized_def update_show_rooms_wf)
qed

lemma wf_LobbyState:
  assumes "is_self se" "volume_dict (volumes snds)"
  shows "\<exists>s. LobbyState se snds = Inr s \<and> wf_lobby s"
proof -
  have "box_ok (chat_input (ChatWindow r))" for r
    by (simp add: ChatWindow_def ScrollWindowBase_def set_scroll_info_def set_scroll_rect_def MAX_CHAT_INPUT_def Let_def
        scroll_window.defs chat_window.defs) (simp add: box_ok_def InputBox_def Let_def)
  then have box: "chat_ok (ChatWindow r)" for r
    using wf_chat_scrolls [OF wf_ChatWindow] by (simp add: chat_ok_def)
  let ?R = "RoomList \<lparr>rect_x = 50, rect_y = 135, rect_w = 900, rect_h = 400\<rparr>"
    and ?T = "UserTabs \<lparr>rect_x = 1100, rect_y = 150, rect_w = 300, rect_h = 375\<rparr> [USER_TAB_NAME, FRIEND_TAB_NAME]"
    and ?C = "ChatWindow \<lparr>rect_x = 50, rect_y = 575, rect_w = 900, rect_h = 260\<rparr>"
  have tabs: "wf_tabs ?T" by (rule wf_UserTabs) simp_all
  have names: "tab_names ?T = [USER_TAB_NAME, FRIEND_TAB_NAME]" "tabs_ids ?T = {}"
    using wf_UserList by (auto simp: UserTabs_def tabs_ids_def tab_consts Let_def split: if_splits)
  have rooms: "wf_rooms ?R" "keys_ok ?R"
    by (rule wf_RoomList) (simp_all add: keys_ok_def RoomList_def room_list.defs scroll_window.defs Let_def)
  let ?s = "base_state.extend (BaseState se) (lobby_state.fields
       (map (\<lambda>k. Button (menu_rect k) True (menu_texts ! k)) [0..<6]) ?R ?C ?T
       snds None None None None None None None None True None None None None None None False)"
  have s: "wf_lobby ?s"
    using box tabs names rooms assms by (simp add: wf_lobby_defs BaseState_def base_state.defs lobby_state.defs)
  have rl: "wf_lobby (s\<lparr>lb_rooms := room_list_clear (lb_rooms s)\<rparr>)" if "wf_lobby s" for s
    using that room_list_step_wf [OF wf_lobby_lists(1) [OF that], of undefined Rooms_clear]
    by (simp add: wf_lobby_defs rooms_cleared)
  have requests: "keeps (request_room_list s)" "keeps (request_lobby_user_list s)" "keeps (request_friend_list s)" if "wf_lobby s" for s
    using rl [OF that] tabs_cleared [OF that]
    by (simp_all add: request_room_list_def request_lobby_user_list_def request_friend_list_def send_ok)
  show ?thesis
    unfolding LobbyState_def keeps_def [symmetric] by (intro keeps_bind requests s)
qed

text \<open>The lobby is safe between the frames in which a key was lost.\<close>

lemma lobby_step_ok:
  assumes "wf_lobby s" "lobby_op_ok e" "bounded_floats (pf_floats pf)"
  shows "(\<exists>s'. lobby_step pf e s = Inr s' \<and> wf_lobby s') \<or> loses_key pf e s \<and> lobby_step pf e s = Inl StructError"
proof (cases e)
  case (L_packet p)
  with lobby_packet_ok assms(1,2) show ?thesis by simp
next
  case (L_frame dt evs)
  with lobby_frame_ok assms show ?thesis unfolding keeps_def by simp
next
  case L_draw
  with lobby_draw_ok assms(1) show ?thesis by (simp add: keeps_def)
qed

subsection \<open>Properties\<close>



end
