(* ===== verification/GameFrames.thy ===== *)
theory GameFrames
  imports GameLoop LobbyInv LobbyFrames
begin

text \<open>
  What the frames of a game can raise. A request of a scene always builds, so a frame of a single
  game or of a room only raises when a game-over animation has run past its board. And the ids of
  the players in the scenes fit the fields of the packets that they came in.
\<close>

subsection \<open>The own session in the lobby\<close>

text \<open>Nothing in the lobby touches the own session.\<close>

lemma queue_state_self: "my_session (queue_state sc s) = my_session s"
  by (simp add: queue_state_def start_fade_out_def Let_def)

lemma fades_self: "my_session (snd (consume_state (update_fade dt s))) = my_session s"
  by (simp add: consume_state_def update_fade_def Let_def)

lemma lobby_start_self: "LobbyState se snds = Inr s \<Longrightarrow> my_session s = se"
  by (auto simp: LobbyState_def py_bind_eq_Inr base_state.defs lobby_state.defs BaseState_def dest!: own.requests_keep)

lemma tabs_packet_self: "lobby_tabs_packet p s = Inr s' \<Longrightarrow> my_session s' = my_session s"
  by (auto simp: lobby_tabs_packet_def py_bind_eq_Inr Let_def split: prod.splits option.splits)

lemma lobby_packet_self: "lobby_handle_packet pf p s = Inr s' \<Longrightarrow> my_session s' = my_session s"
  by (cases "(pf, p, s)" rule: lobby_handle_packet.cases) (auto simp: py_bind_eq_Inr dest: own.open_room_keeps tabs_packet_self)

lemmas dialog_events_self = dialog_event_keeps [where part = my_session, simplified]

lemma lobby_dialog_self: "lobby_dialog_event pf ev s = Inr s' \<Longrightarrow> my_session s' = my_session s"
  unfolding lobby_dialog_event_def
  by (elim dialog_cases)
    (auto simp: Let_def split_def dest: dialog_events_self)

lemma lobby_event_self: "lobby_event pf ev s = Inr s' \<Longrightarrow> my_session s' = my_session s"
  by (auto simp: lobby_event_def lobby_handle_event_def dest: own.open_event_keeps lobby_dialog_self split: if_splits)

lemma lobby_update_self:
  assumes "lobby_update pf dt evs s = Inr (r, s')"
  shows "my_session s' = my_session s"
proof -
  let ?s = "s\<lparr>lb_chat := chat_update dt (lb_chat s)\<rparr>"
  from assms obtain s1 where s1: "py_for (lobby_event pf) evs ?s = Inr s1"
    and s': "s' = s1 \<or> s' = snd (consume_state (update_fade dt (s1\<lparr>room_create_window := map_option (create_update dt) (room_create_window s1),
        input_pw_window := map_option (inputw_update dt) (input_pw_window s1)\<rparr>)))"
    by (auto simp: lobby_update_def py_bind_eq_Inr Let_def split: if_splits intro: sym [THEN arg_cong, of _ _ snd])
  have "my_session s1 = my_session ?s"
    by (rule py_for_invariant [OF s1, where P = "\<lambda>t. my_session t = my_session ?s"]) (use lobby_event_self in force)+
  with s' show ?thesis by (auto simp: fades_self)
qed

lemma lobby_draw_self: "lobby_draw s = Inr s' \<Longrightarrow> my_session s' = my_session s"
  by (auto simp: lobby_draw_def py_bind_eq_Inr)

subsection \<open>A session\<close>

text \<open>A game-over animation whose next row is outside the board, also for a negative index.\<close>

definition overrun :: "tsession \<Rightarrow> bool" where
  "overrun p \<longleftrightarrow> ts_state p = GAMEOVER_ANIMATING \<and> py_index 25 (anim_target_line (ts_board p)) = None"

lemma session_frame_outcomes:
  assumes "wf_ts p"
  shows "(\<exists>ms p'. tsession_update dt p = Inr (ms, p')) \<or> tsession_update dt p = Inl IndexError \<and> overrun p"
proof (cases "ts_state p = GAMEOVER_ANIMATING")
  case True
  have g: "wf_grid (grid (ts_board p))" using assms by (simp add: wf_ts_def)
  note up = update_animating [OF True g, of dt]
  consider "anim_elapsed_ms (ts_board p) + dt \<le> 100"
    | "100 < anim_elapsed_ms (ts_board p) + dt" "py_index 25 (anim_target_line (ts_board p)) = None"
    | i where "100 < anim_elapsed_ms (ts_board p) + dt" "py_index 25 (anim_target_line (ts_board p)) = Some i"
    by (metis not_le option.exhaust)
  then show ?thesis
  proof cases
    case (3 i)
    then show ?thesis using up(3,4) [OF 3] by blast
  qed (use up(1,2) True in \<open>auto simp: overrun_def\<close>)
next
  case False
  then show ?thesis by (auto simp: tsession_update_def Let_def split: option.split prod.split)
qed

lemma overrun_event: "tsession_handle_event collide ev p = (r, p') \<Longrightarrow> overrun p' = overrun p"
  by (auto simp: tsession_handle_event_def overrun_def Let_def split: if_splits prod.splits)

lemma builds_game [simp]:
  "builds Start" "builds Ready" "builds Giveup" "builds Delete_user" "builds (Move (move_code m))"
  "id_ok i \<Longrightarrow> builds (Kick i)"
proof -
  have "valid_request (Move (move_code m))" by (cases m) simp_all
  then show "builds (Move (move_code m))" by (rule builds_valid)
qed (simp_all only: builds_valid valid_request.simps id_ok_def)

lemma send_moves: "\<exists>l. send_all (map (\<lambda>m. Move (move_code m)) ms) s = Inr (s\<lparr>sent := l\<rparr>)"
  by (rule send_all_ok) (simp add: list_all_iff)

subsection \<open>A room\<close>

text \<open>The ids of the players at the seats fit a packet's field.\<close>

definition seats_ids :: "multi_play_state \<Rightarrow> bool" where
  "seats_ids s \<longleftrightarrow> (\<forall>p \<in> set (players s). \<forall>se. ts_session p = Some se \<longrightarrow> id_ok (s_id se))"

definition room_overrun :: "multi_play_state \<Rightarrow> bool" where
  "room_overrun s \<longleftrightarrow> (\<exists>p \<in> set (players s). overrun p)"

text \<open>What the events of a frame keep.\<close>

definition room_kept :: "multi_play_state \<Rightarrow> multi_play_state \<Rightarrow> bool" where
  "room_kept s s' \<longleftrightarrow> wf_room s' \<and> seats_ids s' \<and> map overrun (players s') = map overrun (players s)"

lemma room_kept_trans: "room_kept s s' \<Longrightarrow> room_kept s' s'' \<Longrightarrow> room_kept s s''"
  by (simp add: room_kept_def)

lemma room_kept_overrun: "room_kept s s' \<Longrightarrow> room_overrun s' = room_overrun s"
proof -
  have "room_overrun t \<longleftrightarrow> True \<in> set (map overrun (players t))" for t by (auto simp: room_overrun_def)
  then show "room_kept s s' \<Longrightarrow> room_overrun s' = room_overrun s" by (simp only: room_kept_def)
qed

lemma seats_ids_update:
  "seats_ids s \<Longrightarrow> k < length (players s) \<Longrightarrow> (\<And>se. ts_session p = Some se \<Longrightarrow> id_ok (s_id se)) \<Longrightarrow>
   seats_ids (set_player k p s)"
  by (auto simp: seats_ids_def dest!: set_update_subset_insert [THEN subsetD])

lemma seats_ids_same:
  "seats_ids s \<Longrightarrow> k < length (players s) \<Longrightarrow> ts_session p = ts_session (players s ! k) \<Longrightarrow> seats_ids (set_player k p s)"
  by (rule seats_ids_update) (auto simp: seats_ids_def, metis nth_mem)

lemma room_kept_sent [simp]: "room_kept s (s'\<lparr>sent := l\<rparr>) = room_kept s s'"
  by (simp add: room_kept_def seats_ids_def room_simps)

lemma player_event_kept:
  assumes "wf_room s" "seats_ids s" "k < length (players s)"
  shows "\<exists>s'. player_event collide ev k (players s ! k) s = Inr s' \<and> room_kept s s'"
proof (cases "ts_session (players s ! k)")
  case (Some se)
  obtain r p where p: "tsession_handle_event collide ev (players s ! k) = (r, p)" by fastforce
  note seat = tsession_event_seat [OF p]
  have "ts_step collide (Input ev) (players s ! k) = Inr p" by (simp add: p)
  from wf_room_ts_step [OF assms(1,3) this] have "wf_room (set_player k p s)" by simp
  moreover have "map overrun ((players s)[k := p]) = map overrun (players s)"
    by (simp add: map_update overrun_event [OF p] assms(3) list_update_same_conv)
  ultimately have kept: "room_kept s (set_player k p s)"
    using seats_ids_same [OF assms(2,3)] seat by (simp add: room_kept_def)
  have "id_ok (s_id se)" using assms(2,3) Some nth_mem unfolding seats_ids_def by blast
  with kept Some p seat show ?thesis
    by (cases r rule: option.exhaust) (auto simp: player_event_def send_ok Let_def split: action.split)
qed (use assms in \<open>simp add: player_event_def room_kept_def\<close>)

lemma for_players_kept:
  assumes "wf_room s" "seats_ids s"
    and "\<And>k s. k < length (players s) \<Longrightarrow> wf_room s \<Longrightarrow> seats_ids s \<Longrightarrow> \<exists>s'. f k (players s ! k) s = Inr s' \<and> room_kept s s'"
  shows "\<exists>s'. for_players f s = Inr s' \<and> room_kept s s'"
  unfolding for_players_def
proof (rule py_for_defined)
  fix k t assume k: "k \<in> set [0..<length (players s)]" and t: "room_kept s t"
  then have "length (players t) = length (players s)" unfolding room_kept_def by (metis length_map)
  with k t assms(3) [of k t] room_kept_trans [OF t] show "\<exists>s'. f k (players t ! k) t = Inr s' \<and> room_kept s s'"
    by (auto simp: room_kept_def [of s t])
qed (use assms in \<open>simp add: room_kept_def\<close>)

lemma multi_event_kept:
  assumes "wf_room s" "seats_ids s"
  shows "\<exists>s'. multi_event collide ev s = Inr s' \<and> room_kept s s'"
proof -
  let ?t = "multi_popups collide ev s"
  have pl: "players ?t = players s" by (simp add: multi_popups_def Let_def split: option.split prod.split)
  have t: "wf_room ?t" "seats_ids ?t" using assms by (simp_all add: multi_popups_wf seats_ids_def pl)
  have "\<exists>s1. for_players (player_event collide ev) ?t = Inr s1 \<and> room_kept ?t s1"
    using t player_event_kept by (intro for_players_kept) blast+
  then obtain s1 where s1: "multi_handle_event collide ev s = Inr s1" "room_kept s s1"
    by (auto simp: multi_handle_event_def room_kept_def pl)
  then obtain b where b: "mp_btn_exit s1 = Some b" by (auto simp: room_kept_def wf_room_def)
  obtain c b' where b': "button_handle_event collide ev b = (c, b')" by fastforce
  have "room_kept s (s1\<lparr>mp_btn_exit := Some b'\<rparr>)"
    using s1(2) by (simp add: room_kept_def room_simps seats_ids_def)
  with s1(1) b b' show ?thesis by (auto simp: multi_event_def send_ok Let_def)
qed

lemma room_frame_outcomes:
  assumes "wf_room s" "seats_ids s"
  shows "(\<exists>r s'. multi_update collide dt evs s = Inr (r, s') \<and> seats_ids s') \<or>
    multi_update collide dt evs s = Inl IndexError \<and> room_overrun s"
proof -
  have "\<exists>s1. py_for (multi_event collide) evs s = Inr s1 \<and> room_kept s s1"
  proof (rule py_for_defined)
    fix ev t assume "room_kept s t"
    then show "\<exists>s'. multi_event collide ev t = Inr s' \<and> room_kept s s'"
      using multi_event_kept [of t collide ev] room_kept_trans by (auto simp: room_kept_def)
  qed (use assms in \<open>simp add: room_kept_def\<close>)
  then obtain s1 where s1: "py_for (multi_event collide) evs s = Inr s1" "room_kept s s1" by blast
  let ?P = "\<lambda>n t. wf_room t \<and> seats_ids t \<and> length (players t) = length (players s1) \<and>
    (\<forall>j. n \<le> j \<longrightarrow> players t ! j = players s1 ! j)"
  have "(\<exists>t. py_for (\<lambda>k t. player_update dt k (players t ! k) t) [0..<n] s1 = Inr t \<and> ?P n t) \<or>
    py_for (\<lambda>k t. player_update dt k (players t ! k) t) [0..<n] s1 = Inl IndexError \<and> room_overrun s1"
    if "n \<le> length (players s1)" for n
    using that
  proof (induction n)
    case 0
    then show ?case using s1(2) by (simp add: room_kept_def)
  next
    case (Suc n)
    let ?loop = "py_for (\<lambda>k t. player_update dt k (players t ! k) t)"
    from Suc consider t where "?loop [0..<n] s1 = Inr t" "?P n t"
      | "?loop [0..<n] s1 = Inl IndexError" "room_overrun s1" by fastforce
    then show ?case
    proof cases
      case (1 t)
      then have n: "n < length (players t)" "players t ! n = players s1 ! n" using Suc.prems by auto
      have "wf_ts (players t ! n)" using wf_room_seat [of t n] 1(2) n(1) by (simp add: seat_ok_def)
      from session_frame_outcomes [OF this, of dt] show ?thesis
      proof (elim disjE exE conjE)
        fix ms p assume p: "tsession_update dt (players t ! n) = Inr (ms, p)"
        obtain l where l: "send_all (map (\<lambda>m. Move (move_code m)) ms) (set_player n p t) = Inr (set_player n p t\<lparr>sent := l\<rparr>)"
          using send_moves by blast
        let ?t = "set_player n p t\<lparr>sent := l\<rparr>"
        have st: "ts_step undefined (Tick dt) (players t ! n) = Inr p" using p by simp
        have "wf_room ?t" using wf_room_ts_step [OF _ n(1) st] 1(2) by (simp add: room_simps)
        moreover have "ts_session p = ts_session (players t ! n)"
          using ts_step_seat_ok [OF wf_room_seat [OF _ n(1)] st] 1(2) by simp
        with seats_ids_same [OF _ n(1)] 1(2) have "seats_ids ?t" by (simp add: seats_ids_def)
        ultimately have "?P (Suc n) ?t" using 1(2) by simp
        with 1(1) p l show ?thesis by (simp add: py_for_append player_update_def)
      next
        assume e: "tsession_update dt (players t ! n) = Inl IndexError" "overrun (players t ! n)"
        then have "room_overrun s1" using n 1(2) Suc.prems nth_mem [of n "players s1"] by (auto simp: room_overrun_def)
        with e(1) 1(1) show ?thesis by (simp add: py_for_append player_update_def)
      qed
    qed (simp add: py_for_append)
  qed
  from this [OF order.refl] consider t where "for_players (player_update dt) s1 = Inr t" "seats_ids t"
    | "for_players (player_update dt) s1 = Inl IndexError" "room_overrun s1" by (auto simp: for_players_def)
  then show ?thesis
  proof cases
    case (1 t)
    obtain r u where u: "consume_state (update_fade dt t) = (r, u)" by fastforce
    have "players u = players t" using arg_cong [OF u, of snd]
      by (auto simp: consume_state_def update_fade_def Let_def split: if_splits)
    with 1 s1(1) u show ?thesis by (simp add: multi_update_def seats_ids_def)
  qed (use s1 room_kept_overrun [OF s1(2)] in \<open>simp add: multi_update_def\<close>)
qed

text \<open>Packets keep the ids: a new one comes with its user.\<close>

lemma seats_ids_frame [simp]:
  "seats_ids (s\<lparr>room_state := a\<rparr>) = seats_ids s" "seats_ids (s\<lparr>mp_error_popup := b\<rparr>) = seats_ids s"
  "seats_ids (s\<lparr>winner_popup := b\<rparr>) = seats_ids s" "seats_ids (s\<lparr>mp_reactable := c\<rparr>) = seats_ids s"
  "seats_ids (s\<lparr>host_index := h\<rparr>) = seats_ids s" "seats_ids (s\<lparr>my_session := se\<rparr>) = seats_ids s"
  "seats_ids (queue_state sc s) = seats_ids s"
  by (simp_all add: seats_ids_def queue_state_def start_fade_out_def Let_def)

lemma for_players_ids:
  assumes "for_players f s = Inr s'" "seats_ids s"
    and "\<And>k s s'. k < length (players s) \<Longrightarrow> seats_ids s \<Longrightarrow> f k (players s ! k) s = Inr s' \<Longrightarrow>
      seats_ids s' \<and> length (players s') = length (players s)"
  shows "seats_ids s'"
proof -
  let ?P = "\<lambda>t. seats_ids t \<and> length (players t) = length (players s)"
  have "?P s'"
  proof (rule py_for_invariant [OF assms(1) [unfolded for_players_def]])
    fix k t t' assume "k \<in> set [0..<length (players s)]" "?P t" "f k (players t ! k) t = Inr t'"
    with assms(3) [of k t t'] show "?P t'" by auto
  qed (use assms(2) in simp)
  then show ?thesis ..
qed

lemma with_player_ids:
  assumes "with_player i f s = Inr s'" "seats_ids s" "\<And>p p'. f p = Inr p' \<Longrightarrow> ts_session p' = ts_session p"
  shows "seats_ids s'"
  using assms seats_ids_same by (auto simp: with_player_def py_bind_eq_Inr split: option.splits dest!: first_playerD)

lemma add_user_ids:
  assumes "add_user se s = Inr s'" "seats_ids s" "id_ok (s_id se)"
  shows "seats_ids s'"
proof (cases "first_player (has_id (s_id se)) s = None \<and> first_player (\<lambda>p. ts_session p = None) s \<noteq> None")
  case True
  then obtain k where k: "first_player (\<lambda>p. ts_session p = None) s = Some k" by auto
  with True assms(1) obtain p where p: "init_session se (players s ! k) = Inr p"
    "s' = set_player k p s \<or> s' = set_player k (make_btn_kick p) (set_player k p s)"
    by (auto simp: add_user_def Let_def py_bind_eq_Inr split: if_splits)
  from first_playerD [OF k] have len: "k < length (players s)" by simp
  have "ts_session p = Some se" "ts_session (make_btn_kick p) = Some se"
    using p(1) by (auto simp: init_session_def set_score_def make_btn_kick_def Let_def py_bind_eq_Inr)
  then have "seats_ids (set_player k q s)" if "q = p \<or> q = make_btn_kick p" for q
    using assms(3) that \<open>ts_session p = Some se\<close> \<open>ts_session (make_btn_kick p) = Some se\<close>
    by (intro seats_ids_update [OF assms(2) len]) auto
  then show ?thesis using p(2) by (auto simp: set_player_def)
qed (use assms in \<open>auto simp: add_user_def split: if_splits option.splits\<close>)

lemma update_host_ids:
  assumes "update_host i s = Inr s'" "seats_ids s"
  shows "seats_ids s'"
proof -
  have host: "ts_session p' = ts_session p" if "set_is_host p = Inr p'" for p p'
    using that by (auto simp: set_is_host_def Let_def split: option.splits if_splits)
  from assms(1) obtain s1 where
    s1: "s1 = s \<or> (\<exists>k p. k < length (players s) \<and> set_is_host (players s ! k) = Inr p \<and>
      s1 = set_player k p s\<lparr>host_index := int k\<rparr>)"
    and s': "s' = s1 \<or> for_players (\<lambda>k p s. Inr (if ts_session p \<noteq> None \<and> int k \<noteq> host_index s
               then set_player k (make_btn_kick p) s else s)) s1 = Inr s'"
    by (auto simp: update_host_def py_bind_eq_Inr split: option.splits if_splits dest: first_playerD)
  have "seats_ids s1" using s1 seats_ids_same [OF assms(2)] host assms(2) by auto
  with s' show ?thesis
    by (auto elim!: for_players_ids intro!: seats_ids_same simp: make_btn_kick_def Let_def split: if_splits)
qed

lemma delete_player_ids:
  assumes "delete_player i s = Inr s'" "seats_ids s"
  shows "seats_ids s'"
proof -
  have "ts_session (set_nickname n p') = None" if "tsession_clear p = Inr p'" for p p' n
    using that by (auto simp: tsession_clear_def set_nickname_def set_score_def Let_def py_bind_eq_Inr)
  with assms seats_ids_update [OF assms(2)] show ?thesis
    by (fastforce simp: delete_player_def py_bind_eq_Inr split: option.splits if_splits dest!: first_playerD)
qed

lemma game_end_ids:
  assumes "game_end i s = Inr s'" "seats_ids s"
  shows "seats_ids s'"
proof -
  have "seats_ids s1" if "reset_room s = Inr s1" for s1
    using that unfolding reset_room_def
    by (rule for_players_ids [OF _ assms(2)])
      (auto intro!: seats_ids_same simp: tsession_reset_def py_bind_eq_Inr split: if_splits)
  with assms(1) show ?thesis by (auto simp: game_end_def Let_def py_bind_eq_Inr)
qed

lemma match_record_ids:
  assumes "match_record w l s = Inr s'" "seats_ids s"
  shows "seats_ids s'"
proof (cases "first_player self_player s")
  case (Some k)
  from first_playerD [OF this] obtain se where k: "k < length (players s)" "ts_session (players s ! k) = Some se"
    by (auto simp: self_player_def split: option.splits)
  with assms(2) have "id_ok (s_id se)" using nth_mem unfolding seats_ids_def by blast
  then have "seats_ids (set_player k ((players s ! k)\<lparr>ts_session := Some (se\<lparr>win := w, lose := l\<rparr>)\<rparr>) s)"
    by (intro seats_ids_update [OF assms(2) k(1)]) auto
  with Some k assms(1) show ?thesis by (auto simp: match_record_def Let_def)
qed (use assms in \<open>simp add: match_record_def\<close>)

text \<open>A packet that every scene handles: also the ids that scenes keep fit the fields of requests.\<close>

fun packet_fits :: "s2c \<Rightarrow> bool" where
  "packet_fits (P_LOGIN i best w l name) = id_ok i"
| "packet_fits (P_ADD_USER i name) = id_ok i"
| "packet_fits p = packet_ok p"

lemma packet_fits_ok: "packet_fits p \<Longrightarrow> packet_ok p"
  by (cases p) simp_all

lemma room_packet_ids:
  assumes "multi_handle_packet p s = Inr s'" "seats_ids s" "packet_fits p"
  shows "seats_ids s'"
proof -
  note game = with_player_ids [OF _ assms(2) handle_packet_seat [THEN conjunct1]]
  have over: "ts_session q' = ts_session q" if "process_gameover q = Inr q'" for q q'
    using that by (auto simp: process_gameover_def py_bind_eq_Inr)
  have ready: "ts_session q' = ts_session q" if "set_ready r q = Inr q'" for r q q'
    using that by (auto simp: set_ready_def split: if_splits option.splits)
  show ?thesis
  proof (cases "(p, s)" rule: multi_handle_packet.cases)
    case (2 s0)
    with assms show ?thesis
      by (auto elim!: for_players_ids intro!: seats_ids_same simp: set_state_def split: if_splits)
  next
    case (4 i name s0)
    then have "id_ok (s_id (set_is_not_my_session i name Session))"
      using assms(3) by (simp add: set_is_not_my_session_def)
    with 4 assms add_user_ids show ?thesis by simp
  next
    case (5 i r s0)
    with assms with_player_ids [OF _ assms(2) ready] show ?thesis by simp
  next
    case (7 i s0)
    with assms with_player_ids [OF _ assms(2) over] show ?thesis by simp
  qed (use assms game in \<open>auto simp: py_bind_eq_Inr
      dest: update_host_ids delete_player_ids game_end_ids match_record_ids\<close>)
qed

lemma room_start_ids:
  assumes "MultiPlayState se title maxp pw = Inr s" "id_ok (s_id se)"
  shows "seats_ids s"
proof -
  have own: "ts_session p = Some se" if "init_session se q = Inr p" for p q
    using that by (auto simp: init_session_def set_score_def Let_def py_bind_eq_Inr)
  have two: "\<exists>p. ps = [p, TetrisSession right_board_rect False] \<and> ts_session p = Some se" if "layout_2player se = Inr ps" for ps
    using that own by (auto simp: layout_2player_def py_bind_eq_Inr)
  have five: "\<exists>p qs. ps = p # qs \<and> ts_session p = Some se \<and> (\<forall>q \<in> set qs. ts_session q = None)" if "layout_5player se = Inr ps" for ps
    using that by (auto simp: layout_5player_def py_bind_eq_Inr Let_def wf_TetrisSession dest!: two)
  have "\<forall>p \<in> set (players s). ts_session p = None \<or> ts_session p = Some se"
    using assms(1) by (auto simp: MultiPlayState_def py_bind_eq_Inr base_state.defs multi_play_state.defs wf_TetrisSession
        split: if_splits dest!: two five)
  with assms(2) show ?thesis by (auto simp: seats_ids_def)
qed

subsection \<open>Single play\<close>

text \<open>A single game: its session is the one all scenes share.\<close>

definition wf_single :: "single_play_state \<Rightarrow> bool" where
  "wf_single s \<longleftrightarrow> wf_ts (tetris_session s) \<and> ts_session (tetris_session s) = Some (my_session s) \<and>
     is_self (my_session s) \<and> leads_home s"

lemma wf_single_step:
  assumes "wf_single s" "ts_step collide e (tetris_session s) = Inr ts" "ts_session ts = ts_session (tetris_session s)"
  shows "wf_single (s\<lparr>tetris_session := ts\<rparr>)"
  using assms wf_ts_step [OF assms(2)] by (simp add: wf_single_def leads_home_def)

lemma wf_single_frame [simp]:
  "wf_single (s\<lparr>sent := l\<rparr>) = wf_single s" "wf_single (s\<lparr>sp_btn_exit := b\<rparr>) = wf_single s"
  "wf_single (s\<lparr>btn_giveup := b\<rparr>) = wf_single s"
  by (simp_all add: wf_single_def leads_home_def)

lemma wf_SinglePlayState:
  assumes "is_self se"
  shows "\<exists>s. SinglePlayState se name pw = Inr s \<and> wf_single s"
proof -
  have wf: "wf_ts (TetrisSession single_board_rect True)" by (rule wf_TetrisSession)
  then have "wf_grid (grid (ts_board (TetrisSession single_board_rect True)))" by (simp add: wf_ts_def)
  then obtain ts where ts: "init_session se (TetrisSession single_board_rect True) = Inr ts"
    by (auto simp: init_session_def Let_def board_init_spec)
  then have "wf_ts ts" using wf_ts_step [of undefined "Init se" "TetrisSession single_board_rect True" ts] wf by simp
  moreover have "ts_session ts = Some se"
    using ts by (auto simp: init_session_def set_score_def Let_def py_bind_eq_Inr)
  ultimately show ?thesis using ts assms
    by (simp add: SinglePlayState_def wf_single_def leads_home_def BaseState_def base_state.defs single_play_state.defs)
qed

lemma process_gameover_session: "process_gameover p = Inr p' \<Longrightarrow> ts_session p' = ts_session p"
  by (auto simp: process_gameover_def py_bind_eq_Inr)

lemma tsession_update_session: "tsession_update dt p = Inr (moves, p') \<Longrightarrow> ts_session p' = ts_session p"
  by (auto simp: tsession_update_def tsession_reset_def Let_def py_bind_eq_Inr split: if_splits prod.splits option.splits)

lemma single_packet_wf:
  assumes "single_handle_packet p s = Inr s'" "wf_single s"
  shows "wf_single s'"
proof -
  have game: "wf_single s'" if "single_ingame q s = Inr s'" for q
    using that wf_single_step [OF assms(2), of undefined "Packet q"] handle_packet_seat [of q "tetris_session s"]
    by (auto simp: single_ingame_def py_bind_eq_Inr)
  show ?thesis
  proof (cases "(p, s)" rule: single_handle_packet.cases)
    case (1 n s0)
    have "wf_ts (set_score n (tetris_session s))" using assms(2) by (simp add: wf_single_def wf_ts_def set_score_def)
    with wf_ts_step [of undefined "New_state PLAY" "set_score n (tetris_session s)"]
    have "wf_ts (set_state PLAY (set_score n (tetris_session s)))" by simp
    with 1 assms show ?thesis by (auto simp: wf_single_def leads_home_def set_state_def set_score_def)
  next
    case (2 i s0)
    with assms show ?thesis
      by (auto simp: wf_single_def leads_home_fades split: if_splits) (simp_all add: queue_state_def start_fade_out_def Let_def)
  next
    case (3 i s0)
    with assms(1) wf_single_step [OF assms(2), of undefined Gameover] process_gameover_session show ?thesis
      by (auto simp: py_bind_eq_Inr)
  next
    case (4 n s0)
    with assms show ?thesis by (auto simp: wf_single_def leads_home_def wf_ts_def Let_def)
  qed (use assms game in auto)
qed

lemma consume_next: "fst (consume_state (update_fade dt s)) = Some n \<Longrightarrow> next_state s = Some n"
  by (simp add: consume_state_def update_fade_def Let_def split: if_splits)

lemma leads_home_ok: "leads_home s \<Longrightarrow> fst (consume_state (update_fade dt s)) = Some n \<Longrightarrow> scene_ok n"
  by (auto simp: leads_home_def dest!: consume_next)

lemma single_event_kept:
  assumes "wf_single s"
  shows "\<exists>s'. single_handle_event collide ev s = Inr s' \<and> wf_single s' \<and> my_session s' = my_session s \<and>
    overrun (tetris_session s') = overrun (tetris_session s)"
proof -
  obtain res ts where ts: "tsession_handle_event collide ev (tetris_session s) = (res, ts)" by fastforce
  have wf: "wf_single (s\<lparr>tetris_session := ts\<rparr>)"
    using wf_single_step [OF assms, of collide "Input ev" ts] tsession_event_seat [OF ts] ts by simp
  obtain c b where b: "button_handle_event collide ev (sp_btn_exit s) = (c, b)" by fastforce
  obtain d b' where b': "button_handle_event collide ev (btn_giveup s) = (d, b')" by fastforce
  show ?thesis using wf overrun_event [OF ts]
    by (simp add: single_handle_event_def ts b b' send_ok Let_def)
qed

lemma wf_single_fades: "wf_single s \<Longrightarrow> wf_single (snd (consume_state (update_fade dt s)))"
  using leads_home_fades(2) [of s dt]
  by (auto simp: wf_single_def consume_state_def update_fade_def Let_def)

lemma single_frame_outcomes:
  assumes "wf_single s"
  shows "(\<exists>r s'. single_update collide dt evs s = Inr (r, s') \<and> wf_single s' \<and> my_session s' = my_session s \<and>
      (\<forall>n. r = Some n \<longrightarrow> scene_ok n)) \<or>
    single_update collide dt evs s = Inl IndexError \<and> overrun (tetris_session s)"
proof -
  let ?P = "\<lambda>t. wf_single t \<and> my_session t = my_session s \<and> overrun (tetris_session t) = overrun (tetris_session s)"
  have "\<exists>s1. py_for (single_handle_event collide) evs s = Inr s1 \<and> ?P s1"
    using assms by (intro py_for_defined) (use single_event_kept in fastforce)+
  then obtain s1 where s1: "py_for (single_handle_event collide) evs s = Inr s1" "?P s1" by blast
  then have "wf_ts (tetris_session s1)" by (simp add: wf_single_def)
  from session_frame_outcomes [OF this, of dt] show ?thesis
  proof (elim disjE exE conjE)
    fix ms ts assume ts: "tsession_update dt (tetris_session s1) = Inr (ms, ts)"
    obtain l where l: "send_all (map (\<lambda>m. Move (move_code m)) ms) (s1\<lparr>tetris_session := ts\<rparr>) = Inr (s1\<lparr>tetris_session := ts, sent := l\<rparr>)"
      using send_moves by fastforce
    let ?s = "s1\<lparr>tetris_session := ts, sent := l\<rparr>"
    have "wf_single (s1\<lparr>tetris_session := ts\<rparr>)"
      using wf_single_step [of s1 undefined "Tick dt" ts] s1(2) tsession_update_session [OF ts] ts by simp
    then have wf: "wf_single ?s" by simp
    obtain r u where u: "consume_state (update_fade dt ?s) = (r, u)" by fastforce
    then have "single_update collide dt evs s = Inr (r, u)"
      using s1(1) ts l by (simp add: single_update_def)
    moreover have "wf_single u" "my_session u = my_session ?s"
      using wf_single_fades [OF wf, of dt] fades_self [of dt ?s] u by simp_all
    moreover have "scene_ok n" if "r = Some n" for n
      using leads_home_ok [of ?s dt n] wf u that by (simp add: wf_single_def)
    ultimately show ?thesis using s1(2) by simp
  qed (use s1 in \<open>simp add: single_update_def\<close>)
qed

text \<open>Which packets make a single game raise: those that its board rejects.\<close>

definition game_packet :: "s2c \<Rightarrow> bool" where
  "game_packet p \<longleftrightarrow> (case p of P_MOVE i m \<Rightarrow> True | P_SPAWN i t n x y \<Rightarrow> True | P_FIX i x y \<Rightarrow> True
     | P_CLEARLINE i l c sc \<Rightarrow> True | P_ADDLINE i h \<Rightarrow> True | _ \<Rightarrow> False)"

definition single_raises :: "single_play_state \<Rightarrow> s2c \<Rightarrow> bool" where
  "single_raises s p \<longleftrightarrow> game_packet p \<and> packet_raises (ts_board (tetris_session s)) p"

lemma single_packet_raises:
  assumes "wf_single s"
  shows "raises (single_handle_packet p s) \<longleftrightarrow> single_raises s p"
proof -
  have ts: "wf_ts (tetris_session s)" "ts_session (tetris_session s) \<noteq> None" using assms by (simp_all add: wf_single_def)
  have game: "raises (single_ingame q s) \<longleftrightarrow> packet_raises (ts_board (tetris_session s)) q" for q
    using handle_packet_raises [OF ts(1), of q] by (auto simp: single_ingame_def raises_bind)
  show ?thesis
    using ts process_gameover_defined [OF ts(1)]
    by (cases "(p, s)" rule: single_handle_packet.cases)
      (auto simp: single_raises_def game_packet_def game raises_bind Let_def simp del: packet_raises.simps split: option.splits)
qed

end
