(* ===== verification/DrawInv.thy ===== *)
theory DrawInv
  imports GameFrames
begin

text \<open>
  What drawing can raise. In states that satisfy the invariants the one exception is a \<open>KeyError\<close> of a
  board that holds the grey shape of garbage lines as a piece: the server's spawn packet can name it, but
  it has no cells to draw.
\<close>

subsection \<open>A board\<close>

definition garbled :: "tsession \<Rightarrow> bool" where
  "garbled p \<longleftrightarrow> next_tetromino_shape (ts_board p) = Some KG \<or>
     ts_session p \<noteq> None \<and> (\<exists>t. current_tetromino (ts_board p) = Some t \<and> shape_key t = KG)"

text \<open>The spawn packets that do it.\<close>

lemma grey_spawn:
  assumes "handle_packet (P_SPAWN i t n x y) p = Inr q" "ts_session p \<noteq> None"
  shows "garbled q \<longleftrightarrow> t = 7 \<or> n = 7"
proof -
  from assms(1) obtain k nk where k: "map_of SHAPES_INDEX t = Some k" "map_of SHAPES_INDEX n = Some nk"
    and q: "q = p\<lparr>ts_board := (ts_board p)\<lparr>current_tetromino := Some (Tetromino k x y), next_tetromino_shape := Some nk\<rparr>\<rparr>"
    by (auto simp: py_bind_eq_Inr dict_get_def split: option.splits)
  have "k = KG \<longleftrightarrow> t = 7" "nk = KG \<longleftrightarrow> n = 7" using k by (auto simp: SHAPES_INDEX_def split: if_splits)
  with assms(2) q show ?thesis by (auto simp: garbled_def Tetromino_def)
qed

lemma preview_outcome:
  assumes "\<And>k. map_of tex k \<noteq> None"
  shows "if next_tetromino_shape b = Some KG then draw_preview tex b = Inl KeyError else \<exists>out. draw_preview tex b = Inr out"
proof (cases "next_tetromino_shape b")
  case (Some k)
  obtain im where im: "dict_get tex k = Inr im" using assms [of k] by (auto simp: dict_get_def)
  show ?thesis
  proof (cases "k = KG")
    case False
    then obtain rots where r: "map_of SHAPES k = Some rots" by (cases k) (simp_all add: SHAPES_def)
    with SHAPES_good have "rots \<noteq> []" by (auto dest!: map_of_SomeD)
    with False Some r im show ?thesis by (simp add: draw_preview_def dict_get_def py_get_def py_index_def Let_def)
  qed (use Some in \<open>simp add: draw_preview_def dict_get_def SHAPES_def\<close>)
qed (simp add: draw_preview_def)

lemma game_outcome:
  assumes "\<And>k. map_of tex k \<noteq> None" "wf_board b"
  shows "if \<exists>t. current_tetromino b = Some t \<and> shape_key t = KG then draw_game tex b = Inl KeyError
    else \<exists>out. draw_game tex b = Inr out"
proof (cases "\<exists>t. current_tetromino b = Some t \<and> shape_key t = KG")
  case True
  then have "falling_cells b = Inl KeyError" using KG_raises by (auto simp: falling_cells_def)
  with True show ?thesis by (simp add: draw_game_def draw_cells_def)
next
  case False
  with assms(2) have g: "wf_grid (grid b)" and t: "\<And>t. current_tetromino b = Some t \<Longrightarrow> wf_tetromino t"
    by (auto simp: wf_board_def)
  have tex: "\<exists>im. dict_get tex k = Inr im" for k using assms(1) [of k] by (auto simp: dict_get_def)
  from falling_cells_ok [OF t] obtain falling where "falling_cells b = Inr falling" by blast
  from draw_cells_eq [OF g assms(1) this] obtain cs where "draw_cells tex b = Inr cs" ..
  moreover have "\<exists>ls. draw_landing_blocks tex b = Inr ls"
  proof (cases "current_tetromino b")
    case (Some u)
    note wf = t [OF this]
    from landing_from_spec [OF g wf] obtain n where n: "landing_from (grid b) u = Inr (u\<lparr>tet_y := tet_y u + int n\<rparr>)" by blast
    have "wf_tetromino (u\<lparr>tet_y := tet_y u + int n\<rparr>)" using wf by (simp add: wf_tetromino_def split: option.splits)
    from blocks_Inr [OF this] obtain bs where "blocks (u\<lparr>tet_y := tet_y u + int n\<rparr>) = Inr bs" by auto
    with Some n tex [of "shape_key u"] show ?thesis by (auto simp: draw_landing_blocks_def make_landing_tetromino_def)
  qed (simp add: draw_landing_blocks_def make_landing_tetromino_def)
  ultimately show ?thesis using False by (auto simp: draw_game_def)
qed

lemma session_outcome:
  assumes "\<And>k. map_of tex k \<noteq> None" "wf_ts p"
  shows "if garbled p then session_draw ts crown tex p = Inl KeyError else \<exists>ls. session_draw ts crown tex p = Inr ls"
proof -
  note pre = preview_outcome [OF assms(1), of "ts_board p"]
    and game = game_outcome [OF assms(1), of "ts_board p", folded wf_ts_board, OF assms(2)]
  show ?thesis
    by (cases "ts_session p"; use pre game in \<open>auto simp: session_draw_def frame_layers_def game_layers_def garbled_def Let_def split: if_splits\<close>)
qed

subsection \<open>Scenes with boards\<close>

lemma collect_outcome:
  assumes "\<And>x. x \<in> set xs \<Longrightarrow> if bad x then f x = Inl e else \<exists>y. f x = Inr y"
  shows "if \<exists>x \<in> set xs. bad x then py_collect f xs = Inl e else \<exists>ys. py_collect f xs = Inr ys"
proof -
  have "if \<exists>x \<in> set xs. bad x then py_for (\<lambda>x ys. py_bind (f x) (\<lambda>y. Inr (ys @ [y]))) xs zs = Inl e
    else \<exists>ys. py_for (\<lambda>x ys. py_bind (f x) (\<lambda>y. Inr (ys @ [y]))) xs zs = Inr ys" for zs
    using assms
  proof (induction xs arbitrary: zs)
    case (Cons x xs)
    show ?case
    proof (cases "bad x")
      case True
      with Cons.prems [of x] show ?thesis by simp
    next
      case False
      with Cons.prems [of x] obtain y where "f x = Inr y" by auto
      with False Cons.IH [OF Cons.prems] show ?thesis by simp
    qed
  qed simp
  then show ?thesis by (simp add: py_collect_def)
qed

definition loaded :: "graphics \<Rightarrow> bool" where
  "loaded g \<longleftrightarrow> load_default_textures = Inr (g_blocks g)"

lemma player_outcome:
  assumes "loaded g" "wf_ts p"
  shows "if garbled p then player_layers g p = Inl KeyError else \<exists>ls. player_layers g p = Inr ls"
proof -
  from default_textures_complete obtain ts where ts: "load_default_textures = Inr ts" "\<And>k. map_of ts k \<noteq> None" by blast
  with assms(1) have "g_blocks g = ts" unfolding loaded_def by (metis sum.inject(2))
  with ts(2) have "map_of (g_blocks g) k \<noteq> None" for k by simp
  then have "map_of (set_textures (g_blocks g) b) k \<noteq> None" for k b by (simp add: set_textures_def map_of_map)
  from session_outcome [OF this assms(2)] show ?thesis by (simp add: player_layers_def)
qed

lemma single_view_outcome:
  assumes "loaded g" "wf_single s"
  shows "if garbled (tetris_session s) then single_view g s = Inl KeyError else \<exists>ls. single_view g s = Inr ls"
  using player_outcome [OF assms(1), of "tetris_session s"] assms(2) by (auto simp: single_view_def wf_single_def split: if_splits)

lemma multi_view_outcome:
  assumes "loaded g" "wf_room s"
  shows "if \<exists>p \<in> set (players s). garbled p then multi_view g s = Inl KeyError else \<exists>ls. multi_view g s = Inr ls"
proof -
  have "wf_ts p" if "p \<in> set (players s)" for p
    using that assms(2) by (auto simp: wf_room_def seat_ok_def in_set_conv_nth)
  then have "if \<exists>p \<in> set (players s). garbled p then py_collect (player_layers g) (players s) = Inl KeyError
      else \<exists>ls. py_collect (player_layers g) (players s) = Inr ls"
    using player_outcome [OF assms(1)] by (intro collect_outcome) blast
  moreover from assms(2) obtain b where "mp_btn_exit s = Some b" by (auto simp: wf_room_def)
  ultimately show ?thesis by (auto simp: multi_view_def split: if_splits)
qed

subsection \<open>Login and lobby\<close>

lemma input_drawn: "box_ok b \<Longrightarrow> \<exists>ls. input_draw ts holder b = Inr ls"
  by (auto simp: box_ok_def input_draw_def get_render_text_def below_max_def Let_def)

lemma label_drawn: "box_ok (lf_input l) \<Longrightarrow> \<exists>ls. label_draw ts frame l = Inr ls"
  using input_drawn [of "lf_input l" ts None] by (auto simp: label_draw_def)

lemma after_Inr: "after x = Inr s \<Longrightarrow> \<exists>ls. x = Inr (ls, s)"
  by (cases x) (auto simp: after_def)

lemma chat_drawn:
  assumes "chat_ok c"
  shows "\<exists>ls c'. chat_view ts c = Inr (ls, c')"
proof -
  let ?c = "set_show_range (chat_items_len c) c"
  have c: "chat_ok ?c" by (rule chat_ok_steps(2) [OF assms])
  have "view_ok (chat_items_len c) ?c"
    using assms show_range_ok [of "chat_items_len c" c] by (simp add: chat_ok_def chat_scrolls_def chat_items_len_def)
  then have i: "0 \<le> i" "i < int (length (texts ?c))" if "i \<in> set [show_start ?c..show_end ?c - 1]" for i
    using that by (auto simp: view_ok_def chat_items_len_def set_show_range_def Let_def)
  have "\<exists>r. draw_items chat_item ?c = Inr r \<and> snd r = ?c"
    unfolding draw_items_def
    by (rule py_for_defined) (use i in \<open>auto simp: chat_item_def py_get_nonneg\<close>)
  then obtain rows where "draw_items chat_item ?c = Inr (rows, ?c)" by auto
  moreover from c input_drawn [of "chat_input ?c" ts None] obtain ls where "input_draw ts None (chat_input ?c) = Inr ls"
    by (auto simp: chat_ok_def)
  ultimately show ?thesis by (simp add: chat_view_def Let_def)
qed

lemma dialogs_drawn:
  assumes "wf_lobby s"
  shows "\<exists>ls. dialog_layers g s d = Inr ls"
proof -
  have field: "box_ok b \<Longrightarrow> \<exists>ls. field_layers g b = Inr ls" for b by (simp add: field_layers_def input_drawn)
  have wf: "wf_dialogs s" using assms by (simp add: wf_lobby_def)
  show ?thesis
  proof (cases d)
    case D_create
    show ?thesis
    proof (cases "room_create_window s")
      case (Some w)
      then have "box_ok (cw_title w)" "box_ok (cw_password w)" using wf unfolding wf_dialogs_def wf_create_def by blast+
      with field obtain t p where "field_layers g (cw_title w) = Inr t" "field_layers g (cw_password w) = Inr p" by blast
      with D_create Some show ?thesis by (simp add: shown_if_def create_layers_def)
    qed (use D_create in \<open>simp add: shown_if_def\<close>)
  next
    case D_settings
    show ?thesis
    proof (cases "lb_setting_window s")
      case (Some w)
      then have "wf_settings (w, lb_sounds s)" using wf unfolding wf_dialogs_def by blast
      then obtain ss where "dict_get (setting_types w) (activated_setting w) = Inr ss"
        by (auto simp: wf_settings_def dict_get_def)
      with D_settings Some show ?thesis by (simp add: shown_if_def settings_layers_def Let_def)
    qed (use D_settings in \<open>simp add: shown_if_def\<close>)
  next
    case D_password
    show ?thesis
    proof (cases "input_pw_window s")
      case (Some w)
      then have "box_ok (iw_input w)" using wf unfolding wf_dialogs_def by blast
      with field obtain t where "field_layers g (iw_input w) = Inr t" by blast
      with D_password Some show ?thesis by (simp add: shown_if_def input_window_layers_def)
    qed (use D_password in \<open>simp add: shown_if_def\<close>)
  qed (simp_all add: shown_if_def split: option.split)
qed

lemma wf_pressed: "wf_settings (w\<lparr>setting_top_menus := press_only v (setting_top_menus w)\<rparr>, snds) = wf_settings (w, snds)"
  by (simp add: wf_settings_def)

lemma wf_press_settings:
  assumes "wf_lobby s"
  shows "wf_lobby (press_settings s)"
proof (cases "lb_setting_window s")
  case None
  then have "press_settings s = s" by (simp add: press_settings_def)
  with assms show ?thesis by simp
next
  case (Some w)
  let ?w = "w\<lparr>setting_top_menus := press_only (Some (activated_setting w)) (setting_top_menus w)\<rparr>"
  have p: "press_settings s = s\<lparr>lb_setting_window := Some ?w\<rparr>" using Some by (simp add: press_settings_def)
  have "wf_lists (press_settings s)" using assms unfolding p wf_lobby_def wf_lists_def by simp
  moreover have "wf_settings (w, lb_sounds s)" using assms Some unfolding wf_lobby_def wf_dialogs_def by blast
  then have "wf_dialogs (press_settings s)" using assms unfolding p wf_lobby_def wf_dialogs_def by (simp add: wf_pressed)
  ultimately show ?thesis unfolding wf_lobby_def by (simp add: p dialog_open_def)
qed

lemma lobby_drawn:
  assumes "wf_lobby s"
  shows "\<exists>ls s'. lobby_view g s = Inr (ls, s') \<and> wf_lobby s' \<and> my_session s' = my_session s"
proof -
  obtain l where "room_list_draw (lb_rooms s) = Inr l" using room_list_draw_defined wf_lobby_lists(1) [OF assms] by blast
  with after_Inr [OF after_room_list_view [THEN trans]] obtain rl where
    r: "room_list_view (g_size g) (g_ui g UI_BUTTON_RED) (lb_rooms s) = Inr (rl, l)" by blast
  from chat_drawn [OF wf_lobby_lists(4) [OF assms]] obtain cl c where c: "chat_view (g_size g) (lb_chat s) = Inr (cl, c)" by blast
  obtain t where "tabs_draw (lb_tabs s) = Inr t" using wf_tabs_draw wf_lobby_lists(3) [OF assms] by blast
  with after_Inr [OF after_tabs_view [THEN trans]] obtain tl where t: "tabs_view g (lb_tabs s) = Inr (tl, t)" by blast
  have "if \<exists>d \<in> set draw_order. False then py_collect (dialog_layers g s) draw_order = Inl KeyError
      else \<exists>ds. py_collect (dialog_layers g s) draw_order = Inr ds"
    using dialogs_drawn [OF assms] by (intro collect_outcome) simp
  then obtain ds where "py_collect (dialog_layers g s) draw_order = Inr ds" by auto
  with r c t obtain ls s' where v: "lobby_view g s = Inr (ls, s')" by (simp add: lobby_view_def Let_def)
  from lobby_view_state [OF this] obtain u where u: "lobby_draw s = Inr u" "s' = press_settings u" by blast
  with lobby_draw_ok [OF assms] lobby_draw_self [OF u(1)] v show ?thesis
    by (auto simp: keeps_def intro: wf_press_settings) (simp add: press_settings_def)
qed

end
