(* ===== verification/AppInv.thy ===== *)
theory AppInv
  imports DrawInv
begin

text \<open>
  Lemmas on the login and ranking scenes and on the main loop: every scene that the loop runs
  satisfies its invariant, whatever packets, events and frames come, and across every change of scene.
\<close>

subsection \<open>Login\<close>

definition own_session :: "session \<Rightarrow> bool" where
  "own_session se \<longleftrightarrow> is_self se \<and> id_ok (s_id se)"

definition wf_login :: "login_state \<Rightarrow> bool" where
  "wf_login s \<longleftrightarrow> box_ok (lf_input (id_label s)) \<and> box_ok (lf_input (pw_label s)) \<and> own_session (my_session s) \<and>
     leads_home s \<and> (\<not> li_reactable s \<longrightarrow> fail_connect_popup s \<noteq> None \<or> fail_login_popup s \<noteq> None)"

lemma box_ok_frame [simp]: "box_ok (b\<lparr>text_h := h, ib_padding := p\<rparr>) = box_ok b"
  by (simp add: box_ok_def)

lemma wf_LoginState: "own_session se \<Longrightarrow> wf_login (LoginState se)"
  by (simp add: LoginState_def wf_login_def login_label_def LabelFrame_def leads_home_def BaseState_def MAX_INPUT_def
      base_state.defs login_state.defs Let_def split: prod.split)

lemma builds_login:
  assumes "list_all scalar u" "list_all scalar p"
  shows "builds (Login u p)"
proof -
  from str_to_bytes_scalar [OF assms(1)] obtain ub where u: "str_to_bytes u 48 = Inr ub" "length ub = 48" by blast
  from str_to_bytes_scalar [OF assms(2)] obtain pb where p: "str_to_bytes p 48 = Inr pb" "length pb = 48" by blast
  let ?d = "set_field ''user_password'' (VBytes pb) (set_field ''user_id'' (VBytes ub) (fresh C2S_LOGIN_PACKET C2S_LOGIN))"
  have "\<exists>bs. pack_struct ?d = Inr bs"
    using pack_body [of C2S_LOGIN ?d] u(2) p(2)
    by (auto simp: read_back_simps framed_def C2S_LOGIN_PACKET_def)
  with u(1) p(1) show ?thesis by (simp add: builds_def build_login_pkt_def Let_def packet_limits)
qed

lemma str_of_scalar: "(\<And>t. r = Some t \<Longrightarrow> text_ok t) \<Longrightarrow> list_all scalar (str_of r)"
  by (auto simp: str_of_def text_ok_def scalar_def split: option.split)

lemma login_connect_ok: "wf_login s \<Longrightarrow> \<exists>s'. login_connect net s = Inr s' \<and> wf_login s'"
  using opened_defined(5) [of CONNECT_FAILED RETRY_TEXT QUIT_TEXT]
  by (auto simp: login_connect_def wf_login_def leads_home_def Let_def)

lemma login_packet_ok:
  assumes "wf_login s" "packet_fits p"
  shows "\<exists>s'. login_handle_packet p s = Inr s' \<and> wf_login s'"
proof (cases p)
  case (P_ERROR code)
  with assms(2) have "code \<in> fst ` set ERROR_MESSAGES" by simp
  from dict_get_key [OF this] obtain m where "dict_get ERROR_MESSAGES code = Inr m" ..
  moreover obtain q where "popup_of m = Inr q" using opened_defined(1) by blast
  ultimately show ?thesis using assms(1) P_ERROR by (simp add: wf_login_def leads_home_def)
next
  case (P_LOGIN i b w l name)
  with assms show ?thesis
    by (auto simp: wf_login_def own_session_def leads_home_def queue_state_def start_fade_out_def Let_def)
qed (use assms(1) in auto)

lemma login_labels_ok:
  assumes "wf_login s" "scalar_event ev"
  shows "\<exists>i p s'. login_labels_event pf ev s = Inr (i, p, s') \<and> wf_login s' \<and>
    (\<forall>t. i = Some t \<longrightarrow> text_ok t) \<and> (\<forall>t. p = Some t \<longrightarrow> text_ok t)"
proof -
  from assms(1) have "box_ok (lf_input (id_label s))" "box_ok (lf_input (pw_label s))" by (simp_all add: wf_login_def)
  from this [THEN box_ok_event, OF assms(2), of "pf_printable pf" "pf_collide pf"] show ?thesis
    using assms(1) by (elim exE conjE) (simp add: login_labels_event_def label_handle_event_def wf_login_def leads_home_def)
qed

lemma login_open_ok:
  assumes "wf_login s" "scalar_event ev"
  shows "\<exists>s'. login_open_event pf ev s = Inr s' \<and> wf_login s'"
proof -
  from login_labels_ok [OF assms, of pf] obtain i p s1 where
    s1: "login_labels_event pf ev s = Inr (i, p, s1)" "wf_login s1" "\<forall>t. i = Some t \<longrightarrow> text_ok t" "\<forall>t. p = Some t \<longrightarrow> text_ok t"
    by (elim exE conjE)
  obtain c b where c: "button_handle_event (pf_collide pf) ev (btn_login s1) = (c, b)" by fastforce
  from s1(2) have boxes: "box_ok (lf_input (id_label s1))" "box_ok (lf_input (pw_label s1))" by (simp_all add: wf_login_def)
  from box_ok_extract [OF boxes(1)] obtain i' ib where
    i': "extract_text (lf_input (id_label s1)) = Inr (i', ib)" "list_all scalar i'" "box_ok ib" unfolding text_ok_def by blast
  from box_ok_extract [OF boxes(2)] obtain p' pb where
    p': "extract_text (lf_input (pw_label s1)) = Inr (p', pb)" "list_all scalar p'" "box_ok pb" unfolding text_ok_def by blast
  from builds_login [OF i'(2) p'(2)] builds_login [OF str_of_scalar str_of_scalar, of i p] s1 c i' p' show ?thesis
    by (auto simp: login_open_event_def send_ok wf_login_def leads_home_def Let_def)
qed

lemma login_popup_ok:
  assumes "wf_login s" "\<not> li_reactable s"
  shows "\<exists>s'. login_popup_event pf net ev s = Inr s' \<and> wf_login s'"
proof (cases "fail_connect_popup s")
  case None
  with assms show ?thesis
    by (auto simp: login_popup_event_def wf_login_def leads_home_def Let_def split_def)
next
  case (Some p)
  have "wf_login (s\<lparr>fail_connect_popup := None, li_reactable := True\<rparr>)"
    using assms(1) by (simp add: wf_login_def leads_home_def)
  from login_connect_ok [OF this, of net] Some assms(1) show ?thesis
    by (auto simp: login_popup_event_def wf_login_def leads_home_def Let_def split_def)
qed

lemma login_event_ok:
  assumes "wf_login s" "scalar_event ev"
  shows "\<exists>s'. login_handle_event pf net ev s = Inr s' \<and> wf_login s'"
  using login_open_ok [OF assms, of pf] login_popup_ok [OF assms(1), of pf net ev] assms(1)
  by (simp add: login_handle_event_def)

lemma wf_login_frame:
  "wf_login s \<Longrightarrow> box_ok b \<Longrightarrow> box_ok c \<Longrightarrow>
   wf_login (s\<lparr>id_label := (id_label s)\<lparr>lf_input := b\<rparr>, pw_label := (pw_label s)\<lparr>lf_input := c\<rparr>\<rparr>)"
  by (simp add: wf_login_def leads_home_def)

lemma wf_login_fades: "wf_login s \<Longrightarrow> wf_login (snd (consume_state (update_fade dt s)))"
  using leads_home_fades(2) [of s dt]
  by (auto simp: wf_login_def consume_state_def update_fade_def Let_def)

lemma login_update_ok:
  assumes "wf_login s" "list_all scalar_event evs"
  shows "\<exists>r s'. login_update pf net dt evs s = Inr (r, s') \<and> wf_login s' \<and> (\<forall>n. r = Some n \<longrightarrow> scene_ok n)"
proof -
  have "\<exists>s'. py_for (login_handle_event pf net) evs s = Inr s' \<and> wf_login s'"
    using assms login_event_ok by (intro py_for_defined) (auto simp: list_all_iff)
  then obtain s1 where s1: "py_for (login_handle_event pf net) evs s = Inr s1" "wf_login s1" by blast
  then have boxes: "box_ok (lf_input (id_label s1))" "box_ok (lf_input (pw_label s1))" by (simp_all add: wf_login_def)
  let ?s = "s1\<lparr>id_label := label_update dt (id_label s1), pw_label := label_update dt (pw_label s1)\<rparr>"
  from wf_login_frame [OF s1(2) boxes [THEN box_ok_update], of dt dt] have "wf_login ?s" by (simp add: label_update_def)
  then have "wf_login (snd (consume_state (update_fade dt ?s)))" by (rule wf_login_fades)
  moreover obtain r s2 where r: "consume_state (update_fade dt ?s) = (r, s2)" by fastforce
  moreover have "scene_ok n" if "r = Some n" for n
    using leads_home_ok [of ?s dt n] \<open>wf_login ?s\<close> r that by (simp add: wf_login_def)
  ultimately show ?thesis using s1 by (simp add: login_update_def Let_def)
qed

subsection \<open>Ranking\<close>

definition wf_ranking :: "ranking_state \<Rightarrow> bool" where
  "wf_ranking s \<longleftrightarrow> own_session (my_session s) \<and> leads_home s"

lemma wf_RankingState: "own_session se \<Longrightarrow> \<exists>s. RankingState se = Inr s \<and> wf_ranking s"
  by (simp add: RankingState_def request_ranking_def send_ok rebuild_rows_def wf_ranking_def leads_home_def BaseState_def
      base_state.defs ranking_state.defs Let_def split: prod.split)

lemma ranking_packet_ok: "wf_ranking s \<Longrightarrow> \<exists>s'. ranking_handle_packet p s = Inr s' \<and> wf_ranking s'"
  by (cases p) (simp_all add: rebuild_rows_def wf_ranking_def leads_home_def Let_def)

lemma ranking_event_ok: "wf_ranking s \<Longrightarrow> wf_ranking (ranking_handle_event collide ev s)"
  by (auto simp: ranking_handle_event_def wf_ranking_def leads_home_def queue_state_def start_fade_out_def Let_def split_def)

lemma ranking_update_ok:
  assumes "wf_ranking s"
  shows "wf_ranking (snd (ranking_update collide dt evs s)) \<and>
    (\<forall>n. fst (ranking_update collide dt evs s) = Some n \<longrightarrow> scene_ok n)"
proof -
  have "wf_ranking (fold (ranking_handle_event collide) evs s)"
    using assms ranking_event_ok by (induction evs arbitrary: s) simp_all
  then show ?thesis using leads_home_ok [of "fold (ranking_handle_event collide) evs s" dt]
    by (auto simp: ranking_update_def wf_ranking_def consume_state_def update_fade_def leads_home_def Let_def)
qed

subsection \<open>Every scene\<close>

fun wf_scene :: "app_scene \<Rightarrow> bool" where
  "wf_scene (In_login s) = wf_login s"
| "wf_scene (In_lobby s) = (wf_lobby s \<and> id_ok (s_id (my_session s)))"
| "wf_scene (In_single s) = (wf_single s \<and> id_ok (s_id (my_session s)))"
| "wf_scene (In_multi s) = (wf_room s \<and> seats_ids s)"
| "wf_scene (In_ranking s) = wf_ranking s"

lemma room_own: "wf_room s \<Longrightarrow> seats_ids s \<Longrightarrow> own_session (my_session s)"
  using wf_room_seat0 [of s] nth_mem [of 0 "players s"] by (auto simp: seats_ids_def own_session_def)

lemma scene_own: "wf_scene sc \<Longrightarrow> own_session (my_session (scene_base sc))"
  by (cases sc) (simp_all add: base_state.defs wf_login_def wf_lobby_lists wf_single_def room_own wf_ranking_def, simp_all add: own_session_def wf_lobby_lists)

text \<open>The packets that make a scene raise.\<close>

fun scene_rejects :: "app_scene \<Rightarrow> s2c \<Rightarrow> bool" where
  "scene_rejects (In_single s) p = single_raises s p"
| "scene_rejects (In_multi s) p = room_raises s p"
| "scene_rejects sc p = False"

lemma single_packet_id: "single_handle_packet p s = Inr s' \<Longrightarrow> wf_single s \<Longrightarrow> s_id (my_session s') = s_id (my_session s)"
  by (cases "(p, s)" rule: single_handle_packet.cases)
    (auto simp: wf_single_def single_ingame_def py_bind_eq_Inr Let_def queue_state_self split: if_splits)

lemma scene_packet_ok:
  assumes "wf_scene sc" "packet_fits p"
  shows "(\<exists>sc'. scene_handle_packet pf p sc = Inr sc' \<and> wf_scene sc') \<or>
    (\<exists>e. scene_handle_packet pf p sc = Inl e \<and> scene_rejects sc p)"
proof (cases sc)
  case (In_login s)
  with login_packet_ok [of s p] assms show ?thesis by auto
next
  case (In_lobby s)
  with lobby_packet_ok [of s p pf] lobby_packet_self [of pf p s] packet_fits_ok assms show ?thesis by fastforce
next
  case (In_single s)
  with assms(1) single_packet_wf [of p s] single_packet_id [of p s] single_packet_raises [of s p] show ?thesis
    by (cases "single_handle_packet p s") auto
next
  case (In_multi s)
  with assms multi_handle_packet_wf [of p s] room_packet_ids [of p s] multi_packet_raises [of s p] show ?thesis
    by (cases "multi_handle_packet p s") auto
next
  case (In_ranking s)
  with ranking_packet_ok [of s p] assms show ?thesis by auto
qed

lemma multi_update_wf:
  assumes "multi_update collide dt evs s = Inr (r, s')" "wf_room s"
  shows "wf_room s' \<and> (\<forall>n. r = Some n \<longrightarrow> scene_ok n)"
proof -
  from assms(1) obtain s1 s2 where s1: "py_for (multi_event collide) evs s = Inr s1"
    and s2: "for_players (player_update dt) s1 = Inr s2" and s': "consume_state (update_fade dt s2) = (r, s')"
    by (auto simp: multi_update_def py_bind_eq_Inr)
  have "wf_room s1" using py_for_invariant [OF s1, of wf_room] assms(2) multi_event_wf by blast
  with for_players_wf [OF s2] have "wf_room s2" by (simp add: player_update_wf)
  with consume_update_wf [of s2 dt] leads_home_ok [of s2 dt] s' show ?thesis by (simp add: wf_room_def)
qed

lemma lobby_update_ok:
  assumes "wf_lobby s" "list_all scalar_event evs" "bounded_floats (pf_floats pf)"
  shows "(\<exists>r s'. lobby_update pf dt evs s = Inr (r, s') \<and> wf_lobby s' \<and> (\<forall>n. r = Some n \<longrightarrow> scene_ok n)) \<or>
    lobby_update pf dt evs s = Inl StructError \<and> loses_key pf (L_frame dt evs) s"
proof (cases "lobby_update pf dt evs s")
  case (Inl e)
  with lobby_frame_ok [OF assms, of dt] show ?thesis by (auto simp: keeps_def simp del: loses_key.simps)
next
  case (Inr rs)
  obtain r s' where rs: "rs = (r, s')" by fastforce
  with Inr lobby_frame_ok [OF assms, of dt] have wf: "wf_lobby s'" by (auto simp: keeps_def)
  let ?s = "s\<lparr>lb_chat := chat_update dt (lb_chat s)\<rparr>"
  from Inr rs obtain s1 where s1: "py_for (lobby_event pf) evs ?s = Inr s1" and r: "r = None \<or>
      r = fst (consume_state (update_fade dt (s1\<lparr>room_create_window := map_option (create_update dt) (room_create_window s1),
        input_pw_window := map_option (inputw_update dt) (input_pw_window s1)\<rparr>)))"
    by (auto simp: lobby_update_def py_bind_eq_Inr Let_def split: if_splits intro: sym [THEN arg_cong, of _ _ fst])
  have s: "wf_lobby ?s" using assms(1) by (simp add: wf_lobby_defs chat_ok_steps(3))
  have "wf_lobby t'" if "ev \<in> set evs" "wf_lobby t" "lobby_event pf ev t = Inr t'" for ev t t'
    using lobby_event_ok [OF that(2) _ assms(3), of ev] that(1,3) assms(2) by (auto simp: keeps_def list_all_iff)
  with py_for_invariant [OF s1, of wf_lobby] s have "wf_lobby s1" by blast
  then have "scene_ok n" if "r = Some n" for n
  proof -
    let ?u = "s1\<lparr>room_create_window := map_option (create_update dt) (room_create_window s1),
        input_pw_window := map_option (inputw_update dt) (input_pw_window s1)\<rparr>"
    have "fst (consume_state (update_fade dt ?u)) = Some n" using r that by auto
    from consume_next [OF this] have "next_state s1 = Some n" by simp
    with \<open>wf_lobby s1\<close> show ?thesis by (rule wf_lobby_lists)
  qed
  with Inr rs wf show ?thesis by auto
qed

text \<open>The frames that make a scene raise.\<close>

fun frame_fails :: "platform \<Rightarrow> rat \<Rightarrow> event list \<Rightarrow> app_scene \<Rightarrow> py_error \<Rightarrow> bool" where
  "frame_fails pf dt evs (In_single s) e = (e = IndexError \<and> overrun (tetris_session s))"
| "frame_fails pf dt evs (In_multi s) e = (e = IndexError \<and> room_overrun s)"
| "frame_fails pf dt evs (In_lobby s) e = (e = StructError \<and> loses_key pf (L_frame dt evs) s)"
| "frame_fails pf dt evs sc e = False"

lemma scene_update_ok:
  assumes "wf_scene sc" "list_all scalar_event evs" "bounded_floats (pf_floats pf)"
  shows "(\<exists>r sc'. scene_update pf net dt evs sc = Inr (r, sc') \<and> wf_scene sc' \<and> (\<forall>n. r = Some n \<longrightarrow> scene_ok n)) \<or>
    (\<exists>e. scene_update pf net dt evs sc = Inl e \<and> frame_fails pf dt evs sc e)"
proof (cases sc)
  case (In_login s)
  with login_update_ok [of s evs pf net dt] assms(1,2) show ?thesis by auto
next
  case (In_lobby s)
  with lobby_update_ok [of s evs pf dt] assms consider
    r s' where "lobby_update pf dt evs s = Inr (r, s')" "wf_lobby s'" "\<forall>n. r = Some n \<longrightarrow> scene_ok n"
    | "lobby_update pf dt evs s = Inl StructError" "loses_key pf (L_frame dt evs) s" by auto
  then show ?thesis
    by cases (use In_lobby assms(1) lobby_update_self [of pf dt evs s] in \<open>simp_all del: loses_key.simps\<close>)
next
  case (In_single s)
  with single_frame_outcomes [of s "pf_collide pf" dt evs] assms(1) show ?thesis by auto
next
  case (In_multi s)
  with room_frame_outcomes [of s "pf_collide pf" dt evs] multi_update_wf [of "pf_collide pf" dt evs s] assms(1)
  show ?thesis by auto
next
  case (In_ranking s)
  then show ?thesis using ranking_update_ok [of s "pf_collide pf" dt evs] assms(1)
    by (cases "ranking_update (pf_collide pf) dt evs s") auto
qed

lemma enter_scene_ok:
  assumes "own_session se" "volume_dict (volumes snds)" "scene_ok n"
  shows "\<exists>sc. enter_scene n se snds = Inr sc \<and> wf_scene sc"
proof -
  have self: "is_self se" and own: "id_ok (s_id se)" using assms(1) by (simp_all add: own_session_def)
  show ?thesis
  proof (cases n)
    case To_lobby
    from wf_LobbyState [OF self assms(2)] obtain s where "LobbyState se snds = Inr s" "wf_lobby s" by blast
    with To_lobby own lobby_start_self [of se snds s] show ?thesis by (simp add: start_fade_in_def)
  next
    case (To_single name pw)
    from wf_SinglePlayState [OF self, of name pw] obtain s where "SinglePlayState se name pw = Inr s" "wf_single s" by blast
    moreover from this have "my_session s = se"
      by (auto simp: SinglePlayState_def py_bind_eq_Inr base_state.defs single_play_state.defs BaseState_def)
    ultimately show ?thesis using To_single own by (simp add: start_fade_in_def wf_single_def)
  next
    case (To_multi name k pw)
    with assms(3) wf_MultiPlayState [OF self, of k name pw] obtain s where s: "MultiPlayState se name k pw = Inr s" "wf_room s"
      by auto
    with room_start_ids [OF s(1) own] To_multi show ?thesis by (simp add: start_fade_in_def room_simps seats_ids_def)
  next
    case To_ranking
    with wf_RankingState [OF assms(1)] show ?thesis by (auto simp: start_fade_in_def wf_ranking_def leads_home_def)
  qed
qed

lemma drain_ok:
  assumes "wf_scene sc" "list_all packet_fits q"
  shows "(\<exists>q' sc'. drain pf q sc = Inr (q', sc') \<and> wf_scene sc' \<and> list_all packet_fits q') \<or>
    (\<exists>e ps p qs sc1. drain pf q sc = Inl e \<and> q = ps @ p # qs \<and> py_for (scene_handle_packet pf) ps sc = Inr sc1 \<and>
       scene_handle_packet pf p sc1 = Inl e \<and> scene_rejects sc1 p)"
  using assms
proof (induction q arbitrary: sc)
  case (Cons p q)
  show ?case
  proof (cases "next_state (scene_base sc) = None")
    case True
    from scene_packet_ok [OF Cons.prems(1), of p pf] Cons.prems(2) consider
      sc1 where "scene_handle_packet pf p sc = Inr sc1" "wf_scene sc1"
      | e where "scene_handle_packet pf p sc = Inl e" "scene_rejects sc p" by auto
    then show ?thesis
    proof cases
      case 1
      have "list_all packet_fits q" using Cons.prems(2) by simp
      from Cons.IH [OF 1(2) this] show ?thesis
      proof (elim disjE exE conjE)
        fix e ps p' qs sc2 assume "drain pf q sc1 = Inl e" "q = ps @ p' # qs" "py_for (scene_handle_packet pf) ps sc1 = Inr sc2"
          "scene_handle_packet pf p' sc2 = Inl e" "scene_rejects sc2 p'"
        with 1 True show ?thesis
          by (intro disjI2 exI [of _ e] exI [of _ "p # ps"] exI [of _ p'] exI [of _ qs] exI [of _ sc2]) simp
      qed (use 1 True in simp_all)
    next
      case 2
      with True show ?thesis
        by (intro disjI2 exI [of _ e] exI [of _ "[]"] exI [of _ p] exI [of _ q] exI [of _ sc]) simp
    qed
  qed (use Cons.prems in simp)
qed simp

subsection \<open>The loop\<close>

definition wf_app :: "app \<Rightarrow> bool" where
  "wf_app a \<longleftrightarrow> wf_scene (app_state a) \<and> list_all packet_fits (app_queue a) \<and> volume_dict (volumes (app_sounds a))"

lemma load_line_dict: "volume_dict d \<Longrightarrow> volume_dict (load_line digit line d)"
proof -
  assume d: "volume_dict d"
  have "volume_dict (dict_set d k (max 0 (min 100 v)))" if "k = MASTER \<or> k = BGM \<or> k = EFFECT" for k v
    by (rule volume_dictE [OF d]) (use that in \<open>auto simp: volume_dict_def volume_ok_def keys_distinct\<close>)
  with d show ?thesis by (auto simp: load_line_def Let_def split: option.split)
qed

lemma Sounds_ok: "\<exists>snds. Sounds digit file = Inr snds \<and> volume_dict (volumes snds)"
proof -
  have "volume_dict (fold (load_line digit) ls d)" if "volume_dict d" for ls d
    using that by (induction ls arbitrary: d) (simp_all add: load_line_dict)
  then have "volume_dict (load_sound_settings digit file [(MASTER, 100), (BGM, 80), (EFFECT, 80)])"
    by (simp add: load_sound_settings_def volume_dict_def volume_ok_def split: option.split)
  then obtain d where d: "load_sound_settings digit file [(MASTER, 100), (BGM, 80), (EFFECT, 80)] = d" "volume_dict d"
    by blast
  let ?s = "\<lparr>volumes = d, bgm_volume = 1, effect_volume = 1, settings_file = file\<rparr>"
  have "length (volumes ?s) = 3" using d(2) by (simp add: volume_dict_length)
  from set_volumes_dict [OF d(2) this] obtain x y where
    "set_volumes d ?s = Inr (True, ?s\<lparr>volumes := d, bgm_volume := x, effect_volume := y, settings_file := Some (saved_text d)\<rparr>)"
    by (elim exE)
  with d show ?thesis by (simp add: Sounds_def Let_def)
qed

lemma wf_GameLoop: "\<exists>a. GameLoop digit file net = Inr a \<and> wf_app a"
proof -
  from Sounds_ok obtain snds where snds: "Sounds digit file = Inr snds" "volume_dict (volumes snds)" by blast
  have "wf_login (LoginState (set_my_session Session))" 
    by (rule wf_LoginState) (simp add: set_my_session_def Session_def own_session_def id_ok_def)
  from login_connect_ok [OF this, of net] snds show ?thesis by (auto simp: GameLoop_def wf_app_def)
qed

text \<open>
  What may still raise, in a round: a game that gets a packet its board or room rejects; after the
  queue was drained, a game whose game-over animation has left the board, or a lobby that lost a key;
  and after the frame's update, drawing a board that was given the grey shape as a piece.
\<close>

fun scene_garbled :: "app_scene \<Rightarrow> bool" where
  "scene_garbled (In_single s) = garbled (tetris_session s)"
| "scene_garbled (In_multi s) = (\<exists>p \<in> set (players s). garbled p)"
| "scene_garbled sc = False"

fun app_may_raise :: "platform \<Rightarrow> (nat \<Rightarrow> bool) \<Rightarrow> app_op \<Rightarrow> app \<Rightarrow> py_error \<Rightarrow> bool" where
  "app_may_raise pf net (A_arrive ps) a e = False"
| "app_may_raise pf net (A_round dt quit evs) a e =
     ((\<exists>ps p qs sc. app_queue a = ps @ p # qs \<and> py_for (scene_handle_packet pf) ps (app_state a) = Inr sc \<and>
         scene_handle_packet pf p sc = Inl e \<and> scene_rejects sc p) \<or>
      (\<exists>q sc. drain pf (app_queue a) (app_state a) = Inr (q, sc) \<and>
         (frame_fails pf (dt * 1000) (if is_input_blocked (scene_base sc) then [] else evs) sc e \<or>
          (\<exists>b. app_update pf net (dt * 1000) evs (a\<lparr>app_queue := q, app_state := sc\<rparr>) = Inr b \<and>
             e = KeyError \<and> scene_garbled (app_state b)))))"

lemma app_update_ok:
  assumes "wf_app a" "list_all scalar_event evs" "bounded_floats (pf_floats pf)"
  shows "(\<exists>a'. app_update pf net dt evs a = Inr a' \<and> wf_app a') \<or>
    (\<exists>e. app_update pf net dt evs a = Inl e \<and>
       frame_fails pf dt (if is_input_blocked (scene_base (app_state a)) then [] else evs) (app_state a) e)"
proof -
  let ?evs = "if is_input_blocked (scene_base (app_state a)) then [] else evs"
  have wf: "wf_scene (app_state a)" "list_all scalar_event ?evs" using assms(1,2) by (simp_all add: wf_app_def)
  from scene_update_ok [OF this assms(3), of net dt] consider
    r sc where "scene_update pf net dt ?evs (app_state a) = Inr (r, sc)" "wf_scene sc" "\<And>n. r = Some n \<Longrightarrow> scene_ok n"
    | e where "scene_update pf net dt ?evs (app_state a) = Inl e" "frame_fails pf dt ?evs (app_state a) e" by blast
  then show ?thesis
  proof cases
    case 1
    have "volume_dict (volumes (scene_sounds sc (app_sounds a)))"
      using assms(1) 1(2) wf_lobby_lists(5) by (cases sc) (auto simp: wf_app_def)
    moreover from this enter_scene_ok [OF scene_own [OF 1(2)] this 1(3)] have
      "r = Some n \<Longrightarrow> \<exists>new. enter_scene n (my_session (scene_base sc)) (scene_sounds sc (app_sounds a)) = Inr new \<and> wf_scene new" for n
      by blast
    ultimately show ?thesis using 1(1,2) assms(1)
      by (cases r) (auto simp: app_update_def wf_app_def Let_def)
  next
    case 2
    then show ?thesis by (simp add: app_update_def)
  qed
qed

lemma login_drawn:
  assumes "wf_login s"
  shows "\<exists>ls. login_view g s = Inr ls"
proof -
  let ?draw = "label_draw (g_size g) (scale_image (g_ui g UI_TEXT_HOLDER) 400 50)"
  from assms label_drawn obtain i p where "?draw (id_label s) = Inr i" "?draw (pw_label s) = Inr p"
    unfolding wf_login_def by blast
  then show ?thesis by (simp add: login_view_def Let_def)
qed

lemma scene_drawn:
  assumes "loaded g" "wf_scene sc"
  shows "if scene_garbled sc then scene_view g sc = Inl KeyError else \<exists>ls sc'. scene_view g sc = Inr (ls, sc') \<and> wf_scene sc'"
proof (cases sc)
  case (In_login s)
  with assms(2) login_drawn [of s g] show ?thesis by auto
next
  case (In_lobby s)
  with assms(2) lobby_drawn [of s g] show ?thesis by auto
next
  case (In_single s)
  with assms single_view_outcome [of g s] show ?thesis by (auto split: if_splits)
next
  case (In_multi s)
  with assms multi_view_outcome [of g s] show ?thesis by (auto split: if_splits)
next
  case (In_ranking s)
  with assms(2) show ?thesis by simp
qed

lemma app_draw_ok:
  assumes "loaded g" "wf_app a"
  shows "(\<exists>a'. app_draw g a = Inr a' \<and> wf_app a') \<or> app_draw g a = Inl KeyError \<and> scene_garbled (app_state a)"
proof -
  have "wf_scene (app_state a)" using assms(2) by (simp add: wf_app_def)
  from scene_drawn [OF assms(1) this] assms(2) show ?thesis
    by (cases "scene_view g (app_state a)")
      (auto simp: app_draw_def frame_view_def wf_app_def Let_def split_def split: if_splits)
qed

fun app_op_ok :: "app_op \<Rightarrow> bool" where
  "app_op_ok (A_arrive ps) = list_all packet_fits ps"
| "app_op_ok (A_round dt quit evs) = list_all scalar_event evs"

lemma app_round_ok:
  assumes "wf_app a" "list_all scalar_event evs" "bounded_floats (pf_floats pf)" "loaded g"
  shows "(\<exists>a'. app_round pf g net dt quit evs a = Inr a' \<and> wf_app a') \<or>
    (\<exists>e. app_round pf g net dt quit evs a = Inl e \<and> app_may_raise pf net (A_round dt quit evs) a e)"
proof (cases "app_exited a")
  case False
  from assms(1) have "wf_scene (app_state a)" "list_all packet_fits (app_queue a)" by (simp_all add: wf_app_def)
  from drain_ok [OF this, of pf] show ?thesis
  proof (elim disjE exE conjE)
    fix q sc assume d: "drain pf (app_queue a) (app_state a) = Inr (q, sc)" "wf_scene sc" "list_all packet_fits q"
    let ?a = "a\<lparr>app_queue := q, app_state := sc\<rparr>"
    have wf: "wf_app ?a" using assms(1) d by (simp add: wf_app_def)
    from False d(1) have round: "app_round pf g net dt quit evs a = (if dt \<le> 1 / FPS then Inr ?a
        else if quit then Inr (?a\<lparr>app_exited := True\<rparr>) else py_bind (app_update pf net (dt * 1000) evs ?a) (app_draw g))"
      by (simp add: app_round_def drain_packets_def)
    have "wf_app (?a\<lparr>app_exited := True\<rparr>)" using wf by (simp add: wf_app_def)
    moreover have "(\<exists>a'. py_bind (app_update pf net (dt * 1000) evs ?a) (app_draw g) = Inr a' \<and> wf_app a') \<or>
      (\<exists>e. py_bind (app_update pf net (dt * 1000) evs ?a) (app_draw g) = Inl e \<and> app_may_raise pf net (A_round dt quit evs) a e)"
      using app_update_ok [OF wf assms(2,3), of net "dt * 1000"]
    proof (elim disjE exE conjE)
      fix a' assume "app_update pf net (dt * 1000) evs ?a = Inr a'" "wf_app a'"
      with d(1) app_draw_ok [OF assms(4), of a'] show ?thesis by auto
    next
      fix e assume "app_update pf net (dt * 1000) evs ?a = Inl e" "frame_fails pf (dt * 1000)
        (if is_input_blocked (scene_base (app_state ?a)) then [] else evs) (app_state ?a) e"
      with d(1) show ?thesis by simp
    qed
    ultimately show ?thesis unfolding round using wf by simp
  next
    fix e ps p qs sc assume "drain pf (app_queue a) (app_state a) = Inl e" "app_queue a = ps @ p # qs"
      "py_for (scene_handle_packet pf) ps (app_state a) = Inr sc" "scene_handle_packet pf p sc = Inl e" "scene_rejects sc p"
    with False show ?thesis unfolding app_round_def drain_packets_def app_may_raise.simps
      by (intro disjI2 exI [of _ e] conjI disjI1 exI [of _ ps] exI [of _ p] exI [of _ qs] exI [of _ sc]) simp_all
  qed
qed (use assms(1) in \<open>simp add: app_round_def\<close>)

lemma app_step_ok:
  assumes "wf_app a" "app_op_ok op" "bounded_floats (pf_floats pf)" "loaded g"
  shows "(\<exists>a'. app_step pf g net op a = Inr a' \<and> wf_app a') \<or>
    (\<exists>e. app_step pf g net op a = Inl e \<and> app_may_raise pf net op a e)"
proof (cases op)
  case (A_round dt quit evs)
  with app_round_ok [OF assms(1) _ assms(3,4), of evs net dt quit] assms(2) show ?thesis by simp
qed (use assms(1,2) in \<open>simp add: wf_app_def\<close>)

subsection \<open>Properties\<close>

text \<open>What every scene offers its user: a way to act, and the player's own session.\<close>

fun scene_responds :: "app_scene \<Rightarrow> bool" where
  "scene_responds (In_login s) = (li_reactable s \<or> fail_connect_popup s \<noteq> None \<or> fail_login_popup s \<noteq> None)"
| "scene_responds (In_lobby s) = (lb_reactable s \<or> dialog_open s)"
| "scene_responds (In_single s) = (ts_session (tetris_session s) = Some (my_session s))"
| "scene_responds (In_multi s) = ((length (players s) = 2 \<or> length (players s) = 5) \<and>
     ts_session (players s ! 0) = Some (my_session s) \<and> distinct_ids (players s))"
| "scene_responds (In_ranking s) = True"

lemma wf_scene_responds: "wf_scene sc \<Longrightarrow> scene_responds sc"
  by (cases sc) (auto simp: wf_login_def wf_lobby_def wf_single_def wf_room_def)


definition sample_platform :: platform where
  "sample_platform = \<lparr>pf_collide = \<lambda>_ _. True, pf_printable = \<lambda>_. True, pf_width = \<lambda>_. 0,
     pf_floats = \<lparr>percent = \<lambda>a b. 0, part_of = \<lambda>w v. 0\<rparr>\<rparr>"

definition sample_graphics :: graphics where
  "sample_graphics = \<lparr>g_size = \<lambda>f t. (f * int (length t), f), g_ui = \<lambda>k. load_image [] 0 0,
     g_blocks = (case load_default_textures of Inr ts \<Rightarrow> ts | Inl e \<Rightarrow> [])\<rparr>"

lemma loaded_sample: "loaded sample_graphics"
proof -
  from default_textures_complete obtain ts where "load_default_textures = Inr ts" by blast
  then have "load_default_textures = Inr (case load_default_textures of Inr ts \<Rightarrow> ts | Inl e \<Rightarrow> [])" by (metis sum.case(2))
  then show ?thesis unfolding loaded_def sample_graphics_def graphics.simps .
qed

definition sample_ops :: "app_op list" where
  "sample_ops = [A_arrive [P_LOGIN 7 100 3 4 [65]], A_round 1 False [OTHER_EVENT]]"


lemma none_pending_Cons:
  "(\<forall>k sc1. k < length (p # d) \<and> py_for f (take k (p # d)) sc = Inr sc1 \<longrightarrow> P sc1) \<longleftrightarrow>
   P sc \<and> (\<forall>sc1. f p sc = Inr sc1 \<longrightarrow> (\<forall>k sc2. k < length d \<and> py_for f (take k d) sc1 = Inr sc2 \<longrightarrow> P sc2))"
proof -
  have "(\<forall>k<Suc (length d). \<forall>sc1. py_for f (take k (p # d)) sc = Inr sc1 \<longrightarrow> P sc1) \<longleftrightarrow>
    P sc \<and> (\<forall>k<length d. \<forall>sc2. py_for f (p # take k d) sc = Inr sc2 \<longrightarrow> P sc2)"
    unfolding All_less_Suc2 by simp
  then show ?thesis by (cases "f p sc") auto
qed

lemma drain_sound:
  "drain pf q sc = Inr (rest, sc') \<Longrightarrow>
     \<exists>done. q = done @ rest \<and> py_for (scene_handle_packet pf) done sc = Inr sc' \<and>
        (rest \<noteq> [] \<longrightarrow> next_state (scene_base sc') \<noteq> None) \<and>
        (\<forall>k sc1. k < length done \<and> py_for (scene_handle_packet pf) (take k done) sc = Inr sc1 \<longrightarrow>
           next_state (scene_base sc1) = None)"
proof (induction q arbitrary: sc)
  case (Cons p q)
  show ?case
  proof (cases "next_state (scene_base sc) = None")
    case False
    with Cons.prems show ?thesis by (intro exI [of _ "[]"]) auto
  next
    case True
    with Cons.prems obtain sc1 where sc1: "scene_handle_packet pf p sc = Inr sc1" "drain pf q sc1 = Inr (rest, sc')"
      by (cases "scene_handle_packet pf p sc") auto
    from Cons.IH [OF sc1(2)] obtain d where d: "q = d @ rest" "py_for (scene_handle_packet pf) d sc1 = Inr sc'"
      "rest \<noteq> [] \<longrightarrow> next_state (scene_base sc') \<noteq> None"
      "\<forall>k sc2. k < length d \<and> py_for (scene_handle_packet pf) (take k d) sc1 = Inr sc2 \<longrightarrow> next_state (scene_base sc2) = None"
      by (elim exE conjE)
    show ?thesis
      by (rule exI [of _ "p # d"], unfold none_pending_Cons) (use d sc1(1) True in simp)
  qed
qed auto

lemma drain_complete:
  assumes "py_for (scene_handle_packet pf) done sc = Inr sc'" "rest \<noteq> [] \<longrightarrow> next_state (scene_base sc') \<noteq> None"
    "\<forall>k sc1. k < length done \<and> py_for (scene_handle_packet pf) (take k done) sc = Inr sc1 \<longrightarrow> next_state (scene_base sc1) = None"
  shows "drain pf (done @ rest) sc = Inr (rest, sc')"
  using assms
proof (induction "done" arbitrary: sc)
  case Nil
  then show ?case by (cases rest) auto
next
  case (Cons p d)
  from Cons.prems(1) obtain sc1 where sc1: "scene_handle_packet pf p sc = Inr sc1" "py_for (scene_handle_packet pf) d sc1 = Inr sc'"
    by (cases "scene_handle_packet pf p sc") auto
  from Cons.prems(3) [unfolded none_pending_Cons] sc1(1) Cons.IH [OF sc1(2) Cons.prems(2)] show ?case by simp
qed

text \<open>
  C38: the main loop hands the received packets to the scenes in the order of their arrival and loses
  none. Draining the queue is exactly this: the current scene handles a first part of the queue, in
  order, and nothing else of the program changes; the rest stays queued for the next scene, and it is
  empty unless the scene has a transition pending; and that was not so before any handled packet.
\<close>

theorem drain_packets_in_order:
  "drain_packets pf a = Inr a' \<longleftrightarrow>
     (\<exists>done rest sc. app_queue a = done @ rest \<and> a' = a\<lparr>app_queue := rest, app_state := sc\<rparr> \<and>
        py_for (scene_handle_packet pf) done (app_state a) = Inr sc \<and>
        (rest \<noteq> [] \<longrightarrow> next_state (scene_base sc) \<noteq> None) \<and>
        (\<forall>k sc1. k < length done \<and> py_for (scene_handle_packet pf) (take k done) (app_state a) = Inr sc1 \<longrightarrow>
           next_state (scene_base sc1) = None))"
proof -
  have "drain_packets pf a = Inr a' \<longleftrightarrow>
    (\<exists>rest sc. drain pf (app_queue a) (app_state a) = Inr (rest, sc) \<and> a' = a\<lparr>app_queue := rest, app_state := sc\<rparr>)"
    by (cases "drain pf (app_queue a) (app_state a)") (auto simp: drain_packets_def)
  also have "\<dots> \<longleftrightarrow> (\<exists>done rest sc. app_queue a = done @ rest \<and> a' = a\<lparr>app_queue := rest, app_state := sc\<rparr> \<and>
        py_for (scene_handle_packet pf) done (app_state a) = Inr sc \<and>
        (rest \<noteq> [] \<longrightarrow> next_state (scene_base sc) \<noteq> None) \<and>
        (\<forall>k sc1. k < length done \<and> py_for (scene_handle_packet pf) (take k done) (app_state a) = Inr sc1 \<longrightarrow>
           next_state (scene_base sc1) = None))"
    (is "?l \<longleftrightarrow> ?r")
  proof
    assume ?l
    then obtain rest sc where "drain pf (app_queue a) (app_state a) = Inr (rest, sc)" "a' = a\<lparr>app_queue := rest, app_state := sc\<rparr>"
      by (elim exE conjE)
    with drain_sound [OF this(1)] show ?r by blast
  next
    assume ?r
    then obtain d rest sc where "app_queue a = d @ rest" "a' = a\<lparr>app_queue := rest, app_state := sc\<rparr>"
      "drain pf (d @ rest) (app_state a) = Inr (rest, sc)"
      by (elim exE conjE) (simp add: drain_complete)
    then show ?l by metis
  qed
  finally show ?thesis .
qed

text \<open>Of three packets a login scene handles two: the second one is the login's acceptance.\<close>

theorem drain_packets_in_order_witness:
  "\<exists>a'. drain_packets sample_platform
     \<lparr>app_state = In_login (LoginState (set_my_session Session)),
      app_queue = [P_MESSAGE 1 [65] [66], P_LOGIN 7 100 3 4 [65], P_MESSAGE 2 [67] [68]],
      app_sounds = \<lparr>volumes = [], bgm_volume = 1, effect_volume = 1, settings_file = None\<rparr>, app_sent = [], app_exited = False\<rparr> = Inr a' \<and>
     app_queue a' = [P_MESSAGE 2 [67] [68]]"
proof -
  let ?s = "LoginState (set_my_session Session)" and ?pf = sample_platform and ?ps = "[P_MESSAGE 1 [65] [66], P_LOGIN 7 100 3 4 [65]]"
  let ?a = "\<lparr>app_state = In_login ?s, app_queue = ?ps @ [P_MESSAGE 2 [67] [68]],
      app_sounds = \<lparr>volumes = [], bgm_volume = 1, effect_volume = 1, settings_file = None\<rparr>, app_sent = [], app_exited = False\<rparr>"
  have none: "next_state ?s = None"
    by (simp add: LoginState_def BaseState_def base_state.defs login_state.defs Let_def split: prod.split)
  have "next_state (scene_base sc1) = None"
    if "k < length ?ps \<and> py_for (scene_handle_packet ?pf) (take k ?ps) (In_login ?s) = Inr sc1" for k sc1
    using that none by (auto simp: less_Suc_eq base_state.defs)
  note pend = this
  obtain s2 where s2: "py_for (scene_handle_packet ?pf) ?ps (In_login ?s) = Inr (In_login s2)" "next_state s2 \<noteq> None"
    using none by (simp add: queue_state_def start_fade_out_def Let_def)
  let ?rest = "[P_MESSAGE 2 [67] [68]]"
  have "drain_packets ?pf ?a = Inr (?a\<lparr>app_queue := ?rest, app_state := In_login s2\<rparr>)"
    unfolding drain_packets_in_order
  proof (intro exI conjI)
    show "app_queue ?a = ?ps @ ?rest" by simp
    show "?a\<lparr>app_queue := ?rest, app_state := In_login s2\<rparr> = ?a\<lparr>app_queue := ?rest, app_state := In_login s2\<rparr>" by (rule refl)
    show "py_for (scene_handle_packet ?pf) ?ps (app_state ?a) = Inr (In_login s2)" using s2(1) by (simp only: app.simps)
    show "?rest \<noteq> [] \<longrightarrow> next_state (scene_base (In_login s2)) \<noteq> None" using s2(2) by (simp add: base_state.defs)
    show "\<forall>k sc1. k < length ?ps \<and> py_for (scene_handle_packet ?pf) (take k ?ps) (app_state ?a) = Inr sc1 \<longrightarrow>
        next_state (scene_base sc1) = None"
      using pend by (simp only: app.simps) blast
  qed
  then show ?thesis by simp
qed

end
