(* ===== verification/Received.thy ===== *)
theory Received
  imports GameFrames
begin

text \<open>
  The types of received packets: what the decoder (\<^verbatim>\<open>client/tetris/net/packet_structs.py\<close>)
  delivers has the integers of its C types, which is what the scenes and the packet builder rely on.
\<close>

text \<open>The integer fields of each packet, with the codes of its class's \<open>BODY_FMT\<close>.\<close>

fun packet_ints :: "s2c \<Rightarrow> (code \<times> int) list" where
  "packet_ints (P_ERROR a) = [(Ci, a)]"
| "packet_ints (P_LOGIN a b c d e) = [(Ci, a), (Ci, b), (Ci, c), (Ci, d)]"
| "packet_ints (P_MESSAGE a b c) = [(Ci, a)]"
| "packet_ints (P_DISCONNECT a) = [(Ci, a)]"
| "packet_ints (P_ADD_OPEN_ROOM a b c) = [(CQ, a), (Cb, b)]"
| "packet_ints (P_ADD_LOCK_ROOM a b c d) = [(CQ, a), (Cb, b)]"
| "packet_ints (P_ADD_USER a b) = [(Ci, a)]"
| "packet_ints (P_DELETE_USER a) = [(Ci, a)]"
| "packet_ints (P_READY a b) = [(Ci, a)]"
| "packet_ints (P_SINGLE_START a) = [(Ci, a)]"
| "packet_ints P_MULTI_START = []"
| "packet_ints (P_KICK a) = [(Ci, a)]"
| "packet_ints (P_MOVE a b) = [(Ci, a), (Cb, b)]"
| "packet_ints (P_SPAWN a b c d e) = [(Ci, a), (Cb, b), (Cb, c), (Cb, d), (Cb, e)]"
| "packet_ints (P_FIX a b c) = [(Ci, a), (Cb, b), (Cb, c)]"
| "packet_ints (P_CLEARLINE a b c d) = [(Ci, a), (Cb, b), (Cb, c), (Ci, d)]"
| "packet_ints (P_ADDLINE a b) = [(Ci, a), (Cb, b)]"
| "packet_ints (P_GAMEOVER a) = [(Ci, a)]"
| "packet_ints (P_GAMEEND a) = [(Ci, a)]"
| "packet_ints (P_UPDATE_SCORE a) = [(Ci, a)]"
| "packet_ints (P_MATCH_RECORD a b) = [(Ci, a), (Ci, b)]"
| "packet_ints (P_UPDATE_HOST a) = [(Ci, a)]"
| "packet_ints (P_ROOM_INFO a b c d e f) = [(CQ, a), (Cb, c), (Cb, d)]"
| "packet_ints (P_INFO a) = [(Ci, a)]"
| "packet_ints (P_REQUEST_FRIEND a b) = [(Ci, a)]"
| "packet_ints (P_DELETE_FRIEND a) = [(Ci, a)]"
| "packet_ints (P_ADD_FRIEND a b) = [(Ci, a)]"
| "packet_ints (P_LOBBY_USER_INFO a b) = [(Ci, a)]"
| "packet_ints (P_FRIEND_INFO a b c) = [(Ci, a)]"
| "packet_ints (P_RANKING_INFO a b) = [(Ci, b)]"

definition well_typed :: "s2c \<Rightarrow> bool" where
  "well_typed p \<longleftrightarrow> (\<forall>(c, i) \<in> set (packet_ints p). int_range c i)"

text \<open>A value of a code; a boolean is any byte.\<close>

fun code_value :: "code \<Rightarrow> pyval \<Rightarrow> bool" where
  "code_value (Cs n) v = (\<exists>bs. v = VBytes bs)"
| "code_value Cbool v = (\<exists>b. v = VBool b)"
| "code_value c v = (\<exists>i. v = VInt i \<and> int_range c i)"

lemma unpack_code_value: "length bs = code_size c \<Longrightarrow> code_value c (unpack_field c bs)"
  using unpack_field_exact [of bs c] by (cases c) auto

lemma read_fields_codes: "calcsize f \<le> length bs \<Longrightarrow> list_all2 code_value f (read_fields f bs)"
proof (induction f arbitrary: bs)
  case (Cons c f)
  then show ?case using unpack_code_value [of "take (code_size c) bs" c] by simp
qed simp

text \<open>What each entry of \<open>VIEWS\<close> makes of values of its codes.\<close>

definition body_codes :: "int \<Rightarrow> packet_class \<Rightarrow> fmt" where
  "body_codes t c = body_fmt c @ (if t = S2C_MESSAGE then [Cs 0] else [])"

definition view_typed :: "int \<times> (packet \<Rightarrow> s2c py) \<Rightarrow> bool" where
  "view_typed = (\<lambda>(t, v). \<exists>c. map_of PACKET_REGISTRY t = Some c \<and>
     (\<forall>sz vs. list_all2 code_value (body_codes t c) vs \<longrightarrow> (\<exists>x. v (decoded c sz t vs) = Inr x \<and> well_typed x)))"

lemma view_typedI:
  assumes "map_of PACKET_REGISTRY t = Some c"
    and "\<And>sz vs. list_all2 code_value (body_codes t c) vs \<Longrightarrow> \<exists>x. v (decoded c sz t vs) = Inr x \<and> well_typed x"
  shows "view_typed (t, v)"
  using assms by (auto simp: view_typed_def)

lemma views_typed: "list_all view_typed VIEWS"
  unfolding VIEWS_def list.pred_inject
  by (intro conjI list.pred_inject(1); (rule view_typedI, simp add: PACKET_REGISTRY_def packet_types,
      auto simp: packet_classes class_makers body_codes_def body_fmt_def packet_types list_all2_Cons1 decoded_def typed_attrs well_typed_def))

lemma decoded_typed:
  assumes "map_of PACKET_REGISTRY t = Some c" "cls_recv c" "list_all2 code_value (body_codes t c) vs"
  shows "\<exists>v. view (decoded c sz t vs) = Inr v \<and> well_typed v"
proof -
  from views_cover assms(2) map_of_SomeD [OF assms(1)] obtain f where f: "map_of VIEWS t = Some f"
    by (auto simp: list_all_iff)
  from views_typed map_of_SomeD [OF f] have "view_typed (t, f)" by (auto simp: list_all_iff)
  with assms f show ?thesis by (auto simp: view_typed_def view_def dict_get_def decoded_def)
qed

lemma bytes_to_struct_typed:
  assumes "bytes_to_struct pkt = Inr p"
  shows "\<exists>v. view p = Inr v \<and> well_typed v"
proof -
  from assms header_short [of pkt] have len: "3 \<le> length pkt" by (cases "3 \<le> length pkt") auto
  with assms obtain c where c: "map_of PACKET_REGISTRY (frame_type pkt) = Some c"
    by (auto simp: bytes_to_struct_eq split: option.splits)
  show ?thesis
  proof (cases "frame_type pkt = S2C_MESSAGE")
    case True
    from assms have p: "55 \<le> length pkt" "p = decoded S2C_MESSAGE_PACKET (frame_size pkt) S2C_MESSAGE
       (read_fields (body_fmt S2C_MESSAGE_PACKET) (drop 3 pkt) @ [VBytes (take (nat (frame_size pkt - 55)) (drop 55 pkt))])"
      unfolding bytes_to_struct_message [OF len True] by (simp_all split: if_splits)
    have "calcsize (body_fmt S2C_MESSAGE_PACKET) \<le> length (drop 3 pkt)"
      using p(1) message_size registry_split(1) [OF message_class] by simp
    then have "list_all2 code_value (body_codes S2C_MESSAGE S2C_MESSAGE_PACKET)
        (read_fields (body_fmt S2C_MESSAGE_PACKET) (drop 3 pkt) @ [VBytes bs])" for bs
      by (simp add: body_codes_def list_all2_appendI read_fields_codes)
    then show ?thesis unfolding p(2) by (rule decoded_typed [OF message_class message_recv])
  next
    case False
    from assms have p: "length pkt = calcsize (cls_fmt c)" "cls_recv c"
      "p = decoded c (frame_size pkt) (frame_type pkt) (read_fields (body_fmt c) (drop 3 pkt))"
      unfolding bytes_to_struct_plain [OF len c False] by (simp_all split: if_splits)
    have "calcsize (body_fmt c) \<le> length (drop 3 pkt)" using p(1) registry_split(1) [OF c] by simp
    then have "list_all2 code_value (body_codes (frame_type pkt) c) (read_fields (body_fmt c) (drop 3 pkt))"
      using False by (simp add: body_codes_def read_fields_codes)
    then show ?thesis unfolding p(3) by (rule decoded_typed [OF c p(2)])
  qed
qed

text \<open>Error and information packets with a code the client has a message for.\<close>

fun known_code :: "s2c \<Rightarrow> bool" where
  "known_code (P_ERROR code) = (code \<in> fst ` set ERROR_MESSAGES)"
| "known_code (P_INFO kind) = (kind \<in> fst ` set INFO_MESSAGES)"
| "known_code _ = True"

lemma well_typed_packet_fits: "well_typed v \<Longrightarrow> known_code v \<Longrightarrow> packet_fits v"
  by (cases v) (simp_all add: well_typed_def key_ok_def id_ok_def)



end
