(* ===== verification/Signup.thy ===== *)
theory Signup
  imports Settings
begin

text \<open>
  The sign-up server (\<^verbatim>\<open>Signup_server/app.py\<close>, models.py): its five handlers, and the runs
  of the server over any requests. A handler gets the cookie of its client, the signed Flask session, and
  the table of users. Flask serves requests in threads, so registrations may interleave: their checks are
  one step of a run and their commit another. Not under \<^verbatim>\<open>src/\<close>, and so
  parameters: \<open>bcrypt\<close>, the mail server, the clock, the random code, the character classes of
  \<open>re\<close>, and the database's text equality and failures of a commit other than a duplicate. Modelled are requests whose body
  is a JSON object with text fields.
\<close>

subsection \<open>Formats\<close>

record signup_platform =
  re_digit :: "nat \<Rightarrow> bool"
  re_word :: "nat \<Rightarrow> bool"
  hashpw :: "bytes \<Rightarrow> nat \<Rightarrow> pystr py"
  checkpw :: "bytes \<Rightarrow> pystr \<Rightarrow> bool py"
  db_same :: "pystr \<Rightarrow> pystr \<Rightarrow> bool"
  code_ttl :: int

definition ascii_alpha :: "nat \<Rightarrow> bool" where
  "ascii_alpha c \<longleftrightarrow> 65 \<le> c \<and> c \<le> 90 \<or> 97 \<le> c \<and> c \<le> 122"

definition id_char :: "nat \<Rightarrow> bool" where
  "id_char c \<longleftrightarrow> ascii_alpha c \<or> 48 \<le> c \<and> c \<le> 57 \<or> c = 95"

definition nick_char :: "nat \<Rightarrow> bool" where
  "nick_char c \<longleftrightarrow> id_char c \<or> 0xAC00 \<le> c \<and> c \<le> 0xD7A3"

text \<open>\<open>re.match\<close> with the pattern \<open>^[P]+$\<close>, whose end may come before a last newline.\<close>

definition re_plus :: "(nat \<Rightarrow> bool) \<Rightarrow> pystr \<Rightarrow> bool" where
  "re_plus P s \<longleftrightarrow> s \<noteq> [] \<and> (list_all P s \<or> last s = 10 \<and> butlast s \<noteq> [] \<and> list_all P (butlast s))"

definition id_format :: "pystr \<Rightarrow> bool" where
  "id_format s \<longleftrightarrow> 6 \<le> length s \<and> length s \<le> 20 \<and> re_plus id_char s"

definition nick_format :: "pystr \<Rightarrow> bool" where
  "nick_format s \<longleftrightarrow> 2 \<le> length s \<and> length s \<le> 20 \<and> re_plus nick_char s"

text \<open>One at sign, text before it, and after it a full stop between two texts.\<close>

definition email_format :: "pystr \<Rightarrow> bool" where
  "email_format s = (case dropWhile (\<lambda>c. c \<noteq> 64) s of
     [] \<Rightarrow> False
   | _ # d \<Rightarrow> s \<noteq> 64 # d \<and> 64 \<notin> set d \<and> list_ex (\<lambda>k. d ! k = 46) [1..<length d - 1])"

definition validate_password :: "signup_platform \<Rightarrow> pystr \<Rightarrow> bool" where
  "validate_password pf pw =
     (if \<not> (8 \<le> length pw \<and> length pw \<le> 20) then False
      else let has_alpha = list_ex ascii_alpha pw; has_digit = list_ex (re_digit pf) pw;
               has_spec = list_ex (\<lambda>c. \<not> re_word pf c) pw
        in 2 \<le> length (filter (\<lambda>b. b) [has_alpha, has_digit, has_spec]))"

subsection \<open>State\<close>

record user =
  u_login :: pystr
  u_nick :: pystr
  u_hash :: pystr
  u_email :: pystr
  single_score :: int
  u_win :: int
  u_lose :: int

text \<open>The entry \<open>email_verify\<close> of the session.\<close>

record verification =
  v_email :: pystr
  v_hash :: pystr
  v_expire :: int
  v_verified :: bool

text \<open>The world in which a request is handled.\<close>

record moment =
  m_now :: int
  m_code :: nat
  m_salt :: nat
  m_mailed :: bool
  m_failure :: "pystr option"
  m_commits :: bool

record mail =
  mail_to :: pystr
  mail_subject :: pystr
  mail_body :: pystr

record signup =
  users :: "user list"
  mails :: "mail list"

datatype answer = Answer bool nat pystr | Raises py_error | CommitFails

type_synonym body = "(string \<times> pystr) list"

definition body_field :: "body \<Rightarrow> string \<Rightarrow> pystr" where
  "body_field data name = (case map_of data name of None \<Rightarrow> [] | Some v \<Rightarrow> v)"

definition taken :: "signup_platform \<Rightarrow> (user \<Rightarrow> pystr) \<Rightarrow> pystr \<Rightarrow> signup \<Rightarrow> bool" where
  "taken pf f v s = list_ex (\<lambda>u. db_same pf (f u) v) (users s)"

definition code_text :: "nat \<Rightarrow> pystr" where
  "code_text n = map (\<lambda>k. 48 + n div 10 ^ k mod 10) [5, 4, 3, 2, 1, 0]"

text \<open>The mail that \<open>send_email_code\<close> composes; a mail may go out although its sending raised.\<close>

definition code_mail :: "signup_platform \<Rightarrow> pystr \<Rightarrow> pystr \<Rightarrow> mail" where
  "code_mail pf to code = \<lparr>mail_to = to, mail_subject = [91, 84, 101, 116, 114, 105, 115, 93, 32, 0xC774, 0xBA54, 0xC77C, 32, 0xC778, 0xC99D, 0xBC88, 0xD638],
     mail_body = [0xC778, 0xC99D, 0xBC88, 0xD638, 0xB294, 32, 91] @ code @ [93, 32, 0xC785, 0xB2C8, 0xB2E4, 46, 32, 40, 0xC720, 0xD6A8, 0xC2DC, 0xAC04, 32] @ int_str (code_ttl pf div 60) @ [0xBD84, 41]\<rparr>"

definition send_email_code :: "signup_platform \<Rightarrow> moment \<Rightarrow> pystr \<Rightarrow> pystr \<Rightarrow> signup \<Rightarrow> pystr option \<times> signup" where
  "send_email_code pf m to code s =
     (m_failure m, if m_mailed m then s\<lparr>mails := mails s @ [code_mail pf to code]\<rparr> else s)"

subsection \<open>Handlers\<close>

definition api_check_id :: "signup_platform \<Rightarrow> body \<Rightarrow> signup \<Rightarrow> answer" where
  "api_check_id pf data s =
     (let login_id = py_strip (body_field data ''login_id'') in
      if \<not> id_format login_id then Answer False 400 [0xC544, 0xC774, 0xB514, 0xB294, 32, 54, 126, 50, 48, 0xC790, 44, 32, 0xC601, 0xBB38, 47, 0xC22B, 0xC790, 47, 0xC5B8, 0xB354, 0xBC14, 40, 95, 41, 0xB9CC, 32, 0xAC00, 0xB2A5, 0xD569, 0xB2C8, 0xB2E4, 46]
      else if taken pf u_login login_id s then Answer False 200 [0xC774, 0xBBF8, 32, 0xC0AC, 0xC6A9, 32, 0xC911, 0xC778, 32, 0xC544, 0xC774, 0xB514, 0xC785, 0xB2C8, 0xB2E4, 46]
      else Answer True 200 [0xC0AC, 0xC6A9, 32, 0xAC00, 0xB2A5, 0xD55C, 32, 0xC544, 0xC774, 0xB514, 0xC785, 0xB2C8, 0xB2E4, 46])"

definition api_check_nickname :: "signup_platform \<Rightarrow> body \<Rightarrow> signup \<Rightarrow> answer" where
  "api_check_nickname pf data s =
     (let nick = py_strip (body_field data ''nickname'') in
      if \<not> nick_format nick then Answer False 400 [0xB2C9, 0xB124, 0xC784, 0xC740, 32, 50, 126, 50, 48, 0xC790, 44, 32, 0xD55C, 0xAE00, 47, 0xC601, 0xBB38, 47, 0xC22B, 0xC790, 47, 0xC5B8, 0xB354, 0xBC14, 40, 95, 41, 0xB9CC, 32, 0xAC00, 0xB2A5, 0xD569, 0xB2C8, 0xB2E4, 46]
      else if taken pf u_nick nick s then Answer False 200 [0xC774, 0xBBF8, 32, 0xC0AC, 0xC6A9, 32, 0xC911, 0xC778, 32, 0xB2C9, 0xB124, 0xC784, 0xC785, 0xB2C8, 0xB2E4, 46]
      else Answer True 200 [0xC0AC, 0xC6A9, 32, 0xAC00, 0xB2A5, 0xD55C, 32, 0xB2C9, 0xB124, 0xC784, 0xC785, 0xB2C8, 0xB2E4, 46])"

definition api_send_code ::
    "signup_platform \<Rightarrow> moment \<Rightarrow> body \<Rightarrow> verification option \<Rightarrow> signup \<Rightarrow> answer \<times> verification option \<times> signup" where
  "api_send_code pf m data c s =
     (let email = py_strip (body_field data ''email'') in
      if \<not> email_format email then (Answer False 400 [0xC774, 0xBA54, 0xC77C, 32, 0xD615, 0xC2DD, 0xC774, 32, 0xC62C, 0xBC14, 0xB974, 0xC9C0, 32, 0xC54A, 0xC2B5, 0xB2C8, 0xB2E4, 46], c, s)
      else if taken pf u_email email s then (Answer False 200 [0xC774, 0xBBF8, 32, 0xAC00, 0xC785, 0xB41C, 32, 0xC774, 0xBA54, 0xC77C, 0xC785, 0xB2C8, 0xB2E4, 46], c, s)
      else let code = code_text (m_code m) in
        case py_bind (str_encode code) (\<lambda>b. hashpw pf b (m_salt m)) of
          Inl e \<Rightarrow> (Raises e, c, s)
        | Inr h \<Rightarrow>
            let c = Some \<lparr>v_email = email, v_hash = h, v_expire = m_now m + code_ttl pf, v_verified = False\<rparr>;
                (failure, s) = send_email_code pf m email code s in
            case failure of
              Some t \<Rightarrow> (Answer False 500 ([0xC774, 0xBA54, 0xC77C, 32, 0xBC1C, 0xC1A1, 32, 0xC2E4, 0xD328, 58, 32] @ t), c, s)
            | None \<Rightarrow> (Answer True 200 [0xC778, 0xC99D, 0xBC88, 0xD638, 0xB97C, 32, 0xBC1C, 0xC1A1, 0xD588, 0xC2B5, 0xB2C8, 0xB2E4, 46, 32, 0xC774, 0xBA54, 0xC77C, 0xC744, 32, 0xD655, 0xC778, 0xD558, 0xC138, 0xC694, 46], c, s))"

definition api_verify_code ::
    "signup_platform \<Rightarrow> moment \<Rightarrow> body \<Rightarrow> verification option \<Rightarrow> answer \<times> verification option" where
  "api_verify_code pf m data c =
     (let email = py_strip (body_field data ''email''); code = py_strip (body_field data ''code'') in
      case c of
        None \<Rightarrow> (Answer False 400 [0xC778, 0xC99D, 0xBC88, 0xD638, 32, 0xBC1C, 0xC1A1, 0xBD80, 0xD130, 32, 0xC9C4, 0xD589, 0xD558, 0xC138, 0xC694, 46], c)
      | Some st \<Rightarrow>
          if v_email st \<noteq> email then (Answer False 400 [0xC778, 0xC99D, 32, 0xC694, 0xCCAD, 32, 0xC774, 0xBA54, 0xC77C, 0xC774, 32, 0xC77C, 0xCE58, 0xD558, 0xC9C0, 32, 0xC54A, 0xC2B5, 0xB2C8, 0xB2E4, 46], c)
          else if v_expire st < m_now m then (Answer False 400 [0xC778, 0xC99D, 0xBC88, 0xD638, 0xAC00, 32, 0xB9CC, 0xB8CC, 0xB418, 0xC5C8, 0xC2B5, 0xB2C8, 0xB2E4, 46, 32, 0xB2E4, 0xC2DC, 32, 0xBC1C, 0xC1A1, 0xD558, 0xC138, 0xC694, 46], c)
          else case (if v_hash st = [] then Inr False else py_bind (str_encode code) (\<lambda>b. checkpw pf b (v_hash st))) of
            Inl e \<Rightarrow> (Raises e, c)
          | Inr False \<Rightarrow> (Answer False 200 [0xC778, 0xC99D, 0xBC88, 0xD638, 0xAC00, 32, 0xC62C, 0xBC14, 0xB974, 0xC9C0, 32, 0xC54A, 0xC2B5, 0xB2C8, 0xB2E4, 46], c)
          | Inr True \<Rightarrow> (Answer True 200 [0xC774, 0xBA54, 0xC77C, 32, 0xC778, 0xC99D, 0xC774, 32, 0xC644, 0xB8CC, 0xB418, 0xC5C8, 0xC2B5, 0xB2C8, 0xB2E4, 46], Some (st\<lparr>v_verified := True\<rparr>)))"

text \<open>
  \<open>api_register\<close> up to \<open>db.session.add\<close>: the checks, and the row to insert. Then the
  commit, which fails if one of the unique columns of \<open>User\<close> would repeat a value.
\<close>

definition register_checks ::
    "signup_platform \<Rightarrow> moment \<Rightarrow> body \<Rightarrow> verification option \<Rightarrow> signup \<Rightarrow> answer + user" where
  "register_checks pf m data c s =
     (let login_id = py_strip (body_field data ''login_id''); nick = py_strip (body_field data ''nickname'');
          password = body_field data ''password''; password2 = body_field data ''password2'';
          email = py_strip (body_field data ''email'') in
      if \<not> id_format login_id then Inl (Answer False 400 [0xC544, 0xC774, 0xB514, 32, 0xD615, 0xC2DD, 0xC774, 32, 0xC62C, 0xBC14, 0xB974, 0xC9C0, 32, 0xC54A, 0xC2B5, 0xB2C8, 0xB2E4, 46])
      else if password \<noteq> password2 then Inl (Answer False 400 [0xBE44, 0xBC00, 0xBC88, 0xD638, 0xAC00, 32, 0xC77C, 0xCE58, 0xD558, 0xC9C0, 32, 0xC54A, 0xC2B5, 0xB2C8, 0xB2E4, 46])
      else if \<not> validate_password pf password then Inl (Answer False 400 [0xBE44, 0xBC00, 0xBC88, 0xD638, 32, 0xADDC, 0xCE59, 0xC744, 32, 0xB9CC, 0xC871, 0xD558, 0xC9C0, 32, 0xC54A, 0xC2B5, 0xB2C8, 0xB2E4, 46])
      else case c of
        None \<Rightarrow> Inl (Answer False 400 [0xC774, 0xBA54, 0xC77C, 32, 0xC778, 0xC99D, 0xC744, 32, 0xBA3C, 0xC800, 32, 0xC644, 0xB8CC, 0xD558, 0xC138, 0xC694, 46])
      | Some st \<Rightarrow>
          if v_email st \<noteq> email \<or> \<not> v_verified st then Inl (Answer False 400 [0xC774, 0xBA54, 0xC77C, 32, 0xC778, 0xC99D, 0xC744, 32, 0xBA3C, 0xC800, 32, 0xC644, 0xB8CC, 0xD558, 0xC138, 0xC694, 46])
          else if v_expire st < m_now m then Inl (Answer False 400 [0xC774, 0xBA54, 0xC77C, 32, 0xC778, 0xC99D, 0xC774, 32, 0xB9CC, 0xB8CC, 0xB418, 0xC5C8, 0xC2B5, 0xB2C8, 0xB2E4, 46, 32, 0xB2E4, 0xC2DC, 32, 0xC778, 0xC99D, 0xD558, 0xC138, 0xC694, 46])
          else if taken pf u_login login_id s then Inl (Answer False 200 [0xC774, 0xBBF8, 32, 0xC0AC, 0xC6A9, 32, 0xC911, 0xC778, 32, 0xC544, 0xC774, 0xB514, 0xC785, 0xB2C8, 0xB2E4, 46])
          else if taken pf u_nick nick s then Inl (Answer False 200 [0xC774, 0xBBF8, 32, 0xC0AC, 0xC6A9, 32, 0xC911, 0xC778, 32, 0xB2C9, 0xB124, 0xC784, 0xC785, 0xB2C8, 0xB2E4, 46])
          else if taken pf u_email email s then Inl (Answer False 200 [0xC774, 0xBBF8, 32, 0xAC00, 0xC785, 0xB41C, 32, 0xC774, 0xBA54, 0xC77C, 0xC785, 0xB2C8, 0xB2E4, 46])
          else case py_bind (str_encode password) (\<lambda>b. hashpw pf b (m_salt m)) of
            Inl e \<Rightarrow> Inl (Raises e)
          | Inr h \<Rightarrow> Inr \<lparr>u_login = login_id, u_nick = nick, u_hash = h, u_email = email,
              single_score = 0, u_win = 0, u_lose = 0\<rparr>)"

definition row_free :: "signup_platform \<Rightarrow> user \<Rightarrow> signup \<Rightarrow> bool" where
  "row_free pf u s \<longleftrightarrow> \<not> taken pf u_login (u_login u) s \<and> \<not> taken pf u_nick (u_nick u) s \<and> \<not> taken pf u_email (u_email u) s"

definition register_commit ::
    "signup_platform \<Rightarrow> moment \<Rightarrow> user \<Rightarrow> verification option \<Rightarrow> signup \<Rightarrow> answer \<times> verification option \<times> signup" where
  "register_commit pf m u c s =
     (if m_commits m \<and> row_free pf u s
      then (Answer True 200 [0xD68C, 0xC6D0, 0xAC00, 0xC785, 0xC774, 32, 0xC644, 0xB8CC, 0xB418, 0xC5C8, 0xC2B5, 0xB2C8, 0xB2E4, 46], None, s\<lparr>users := users s @ [u]\<rparr>)
      else (CommitFails, c, s))"

definition api_register ::
    "signup_platform \<Rightarrow> moment \<Rightarrow> body \<Rightarrow> verification option \<Rightarrow> signup \<Rightarrow> answer \<times> verification option \<times> signup" where
  "api_register pf m data c s = (case register_checks pf m data c s of
     Inl a \<Rightarrow> (a, c, s)
   | Inr u \<Rightarrow> register_commit pf m u c s)"

datatype signup_request = Check_id | Check_nickname | Send_code | Verify_code | Register

definition handle_request ::
    "signup_platform \<Rightarrow> moment \<Rightarrow> signup_request \<Rightarrow> body \<Rightarrow> verification option \<Rightarrow> signup \<Rightarrow> answer \<times> verification option \<times> signup" where
  "handle_request pf m r data c s = (case r of
     Check_id \<Rightarrow> (api_check_id pf data s, c, s)
   | Check_nickname \<Rightarrow> (api_check_nickname pf data s, c, s)
   | Send_code \<Rightarrow> api_send_code pf m data c s
   | Verify_code \<Rightarrow> (let (a, c) = api_verify_code pf m data c in (a, c, s))
   | Register \<Rightarrow> api_register pf m data c s)"

subsection \<open>Runs\<close>

text \<open>
  The session is kept by the client. A client can present any cookie the server ever signed, also an
  older one, but not make one up. The state of a run has the cookies that were signed, the codes that
  were made (for an address, with their hash), the codes that clients entered for an address, and the
  registrations that passed their checks and are not committed yet, each in a thread of its own.
\<close>

record run = signup +
  issued :: "verification list"
  made :: "(pystr \<times> pystr \<times> pystr) list"
  entered :: "(pystr \<times> pystr) list"
  checked :: "user list"

text \<open>A code was made if the answer is one of the two that follow it.\<close>

definition made_code :: "signup_request \<Rightarrow> answer \<Rightarrow> bool" where
  "made_code r a \<longleftrightarrow> r = Send_code \<and> (case a of Answer ok status msg \<Rightarrow> ok \<or> status = 500 | _ \<Rightarrow> False)"

definition run_step :: "signup_platform \<Rightarrow> moment \<Rightarrow> signup_request \<Rightarrow> body \<Rightarrow> verification option \<Rightarrow> run \<Rightarrow> run" where
  "run_step pf m r data c s =
     (let (a, c', t) = handle_request pf m r data c (signup.truncate s); cookies = (case c' of None \<Rightarrow> [] | Some v \<Rightarrow> [v]) in
      s\<lparr>users := users t, mails := mails t, issued := issued s @ cookies,
        made := made s @ (if made_code r a then map (\<lambda>v. (v_email v, code_text (m_code m), v_hash v)) cookies else []),
        entered := entered s @ (if r = Verify_code then [(py_strip (body_field data ''email''), py_strip (body_field data ''code''))] else [])\<rparr>)"

definition server_start :: run where
  "server_start = \<lparr>users = [], mails = [], issued = [], made = [], entered = [], checked = []\<rparr>"

text \<open>The two steps of a registration among others: a thread that passed the checks, and its commit.\<close>

definition check_step :: "user \<Rightarrow> run \<Rightarrow> run" where
  "check_step u s = s\<lparr>checked := checked s @ [u]\<rparr>"

definition commit_step :: "signup_platform \<Rightarrow> moment \<Rightarrow> nat \<Rightarrow> run \<Rightarrow> run" where
  "commit_step pf m k s = (let (_, _, t) = register_commit pf m (checked s ! k) None (signup.truncate s) in
     s\<lparr>users := users t, checked := take k (checked s) @ drop (Suc k) (checked s)\<rparr>)"

definition presented :: "verification option \<Rightarrow> run \<Rightarrow> bool" where
  "presented c s \<longleftrightarrow> c = None \<or> (\<exists>v \<in> set (issued s). c = Some v)"

inductive signup_run :: "signup_platform \<Rightarrow> run \<Rightarrow> bool" for pf where
  run_start: "signup_run pf server_start"
| run_request: "signup_run pf s \<Longrightarrow> presented c s \<Longrightarrow> signup_run pf (run_step pf m r data c s)"
| run_checks: "signup_run pf s \<Longrightarrow> presented c s \<Longrightarrow> register_checks pf m data c (signup.truncate s) = Inr u \<Longrightarrow>
    signup_run pf (check_step u s)"
| run_commit: "signup_run pf s \<Longrightarrow> k < length (checked s) \<Longrightarrow> signup_run pf (commit_step pf m k s)"

subsection \<open>Lemmas\<close>

lemma send_code_cases:
  "(\<exists>a. api_send_code pf m data c s = (a, c, s) \<and> \<not> made_code Send_code a) \<or>
   (\<exists>a v ms. api_send_code pf m data c s = (a, Some v, s\<lparr>mails := mails s @ ms\<rparr>) \<and> made_code Send_code a \<and>
      set ms \<subseteq> {code_mail pf (v_email v) (code_text (m_code m))} \<and> email_format (v_email v) \<and> \<not> v_verified v \<and>
      py_bind (str_encode (code_text (m_code m))) (\<lambda>b. hashpw pf b (m_salt m)) = Inr (v_hash v))"
proof -
  define email h where "email = py_strip (body_field data ''email'')"
    and "h = py_bind (str_encode (code_text (m_code m))) (\<lambda>b. hashpw pf b (m_salt m))"
  note defs = api_send_code_def send_email_code_def made_code_def Let_def email_def [symmetric] h_def [symmetric]
  show ?thesis
  proof (cases "email_format email \<and> \<not> taken pf u_email email s \<and> (\<exists>x. h = Inr x)")
    case True
    then obtain x where x: "h = Inr x" by blast
    let ?v = "\<lparr>v_email = email, v_hash = x, v_expire = m_now m + code_ttl pf, v_verified = False\<rparr>"
      and ?ms = "if m_mailed m then [code_mail pf email (code_text (m_code m))] else []"
    obtain a where "api_send_code pf m data c s = (a, Some ?v, s\<lparr>mails := mails s @ ?ms\<rparr>)" "made_code Send_code a"
      using True x by (cases "m_failure m") (simp_all add: defs)
    then show ?thesis using True x by (intro disjI2 exI [of _ a] exI [of _ ?v] exI [of _ ?ms]) (auto simp: h_def)
  next
    case False
    then show ?thesis by (cases h) (auto simp: defs)
  qed
qed

lemma verify_code_cases:
  "(\<exists>a. api_verify_code pf m data c = (a, c)) \<or>
   (\<exists>a v b. api_verify_code pf m data c = (a, Some (v\<lparr>v_verified := True\<rparr>)) \<and> c = Some v \<and>
      v_email v = py_strip (body_field data ''email'') \<and>
      str_encode (py_strip (body_field data ''code'')) = Inr b \<and> checkpw pf b (v_hash v) = Inr True)"
proof (cases c)
  case (Some v)
  define code where "code = py_strip (body_field data ''code'')"
  define r where "r = (if v_hash v = [] then Inr False else py_bind (str_encode code) (\<lambda>b. checkpw pf b (v_hash v)))"
  note defs = api_verify_code_def Let_def code_def [symmetric] Some option.case r_def [symmetric]
  show ?thesis
  proof (cases "v_email v = py_strip (body_field data ''email'') \<and> \<not> v_expire v < m_now m \<and> r = Inr True")
    case True
    then obtain b where "str_encode code = Inr b" "checkpw pf b (v_hash v) = Inr True"
      by (cases "str_encode code") (auto simp: r_def split: if_splits)
    moreover have "\<exists>a. api_verify_code pf m data c = (a, Some (v\<lparr>v_verified := True\<rparr>))"
      using True by (simp add: defs)
    ultimately show ?thesis using True Some by (auto simp: code_def)
  next
    case False
    then have "\<exists>a. api_verify_code pf m data c = (a, Some v)"
      by (auto simp: defs split: sum.split bool.split)
    with Some show ?thesis by simp
  qed
qed (simp add: api_verify_code_def)

lemma register_checked:
  assumes "register_checks pf m data c s = Inr u"
  shows "row_free pf u s \<and> id_format (u_login u) \<and> (\<exists>v. c = Some v \<and> v_verified v \<and> v_email v = u_email u)"
  using assms by (auto simp: register_checks_def row_free_def Let_def split: if_splits option.splits sum.splits)

text \<open>One at a time, the unique columns never make a commit fail: the checks saw the table that the row goes into.\<close>

lemma register_alone:
  "api_register pf m data c s = (case register_checks pf m data c s of
     Inl a \<Rightarrow> (a, c, s)
   | Inr u \<Rightarrow> if m_commits m then (Answer True 200 [0xD68C, 0xC6D0, 0xAC00, 0xC785, 0xC774, 32, 0xC644, 0xB8CC, 0xB418, 0xC5C8, 0xC2B5, 0xB2C8, 0xB2E4, 46], None, s\<lparr>users := users s @ [u]\<rparr>)
       else (CommitFails, c, s))"
  by (auto simp: api_register_def register_commit_def dest: register_checked split: sum.split)

lemma register_cases:
  "(\<exists>a. api_register pf m data c s = (a, c, s)) \<or>
   (\<exists>a v u. api_register pf m data c s = (a, None, s\<lparr>users := users s @ [u]\<rparr>) \<and> c = Some v \<and> v_verified v \<and>
      v_email v = u_email u \<and> id_format (u_login u) \<and> row_free pf u s)"
proof (cases "register_checks pf m data c s")
  case (Inr u)
  with register_checked [OF Inr] show ?thesis by (auto simp: register_alone)
qed (simp add: api_register_def)

subsection \<open>What a run keeps\<close>

text \<open>The code with hash \<open>h\<close> was made for the address \<open>e\<close>; a client entered a code that fits it.\<close>

definition made_for :: "signup_platform \<Rightarrow> run \<Rightarrow> pystr \<Rightarrow> pystr \<Rightarrow> bool" where
  "made_for pf s e h \<longleftrightarrow> (\<exists>code salt. (e, code, h) \<in> set (made s) \<and>
     py_bind (str_encode code) (\<lambda>b. hashpw pf b salt) = Inr h)"

definition proven :: "signup_platform \<Rightarrow> run \<Rightarrow> pystr \<Rightarrow> bool" where
  "proven pf s e \<longleftrightarrow> (\<exists>h t b. made_for pf s e h \<and> (e, t) \<in> set (entered s) \<and>
     str_encode t = Inr b \<and> checkpw pf b h = Inr True)"

definition users_distinct :: "signup_platform \<Rightarrow> user list \<Rightarrow> bool" where
  "users_distinct pf us \<longleftrightarrow> sorted_wrt (\<lambda>u v. \<not> db_same pf (u_login u) (u_login v) \<and>
     \<not> db_same pf (u_nick u) (u_nick v) \<and> \<not> db_same pf (u_email u) (u_email v)) us"

definition cookie_ok :: "signup_platform \<Rightarrow> run \<Rightarrow> verification \<Rightarrow> bool" where
  "cookie_ok pf s v \<longleftrightarrow> email_format (v_email v) \<and> made_for pf s (v_email v) (v_hash v) \<and>
     (v_verified v \<longrightarrow> proven pf s (v_email v))"

definition mail_ok :: "signup_platform \<Rightarrow> run \<Rightarrow> mail \<Rightarrow> bool" where
  "mail_ok pf s l \<longleftrightarrow> (\<exists>code h. (mail_to l, code, h) \<in> set (made s) \<and> l = code_mail pf (mail_to l) code)"

definition run_ok :: "signup_platform \<Rightarrow> run \<Rightarrow> bool" where
  "run_ok pf s \<longleftrightarrow> users_distinct pf (users s) \<and>
     (\<forall>u \<in> set (users s). id_format (u_login u) \<and> email_format (u_email u) \<and> proven pf s (u_email u)) \<and>
     (\<forall>u \<in> set (checked s). id_format (u_login u) \<and> email_format (u_email u) \<and> proven pf s (u_email u)) \<and>
     (\<forall>v \<in> set (issued s). cookie_ok pf s v) \<and>
     (\<forall>l \<in> set (mails s). mail_ok pf s l)"

lemma made_for_mono: "made_for pf s e h \<Longrightarrow> set (made s) \<subseteq> set (made s') \<Longrightarrow> made_for pf s' e h"
  unfolding made_for_def by blast

lemma proven_mono:
  "proven pf s e \<Longrightarrow> set (made s) \<subseteq> set (made s') \<Longrightarrow> set (entered s) \<subseteq> set (entered s') \<Longrightarrow> proven pf s' e"
  unfolding proven_def using made_for_mono by blast

lemma cookie_ok_mono:
  "cookie_ok pf s v \<Longrightarrow> set (made s) \<subseteq> set (made s') \<Longrightarrow> set (entered s) \<subseteq> set (entered s') \<Longrightarrow> cookie_ok pf s' v"
  unfolding cookie_ok_def using made_for_mono proven_mono by blast

lemma mail_ok_mono: "mail_ok pf s l \<Longrightarrow> set (made s) \<subseteq> set (made s') \<Longrightarrow> mail_ok pf s' l"
  unfolding mail_ok_def by blast

lemma run_okI:
  assumes "run_ok pf s" "set (made s) \<subseteq> set (made s')" "set (entered s) \<subseteq> set (entered s')"
    and "users_distinct pf (users s')"
    and "\<And>u. u \<in> set (users s') \<union> set (checked s') \<Longrightarrow> u \<notin> set (users s) \<union> set (checked s) \<Longrightarrow>
      id_format (u_login u) \<and> email_format (u_email u) \<and> proven pf s' (u_email u)"
    and "\<And>v. v \<in> set (issued s') \<Longrightarrow> v \<notin> set (issued s) \<Longrightarrow> cookie_ok pf s' v"
    and "\<And>l. l \<in> set (mails s') \<Longrightarrow> l \<notin> set (mails s) \<Longrightarrow> mail_ok pf s' l"
  shows "run_ok pf s'"
proof -
  have "proven pf s' (u_email u)" "id_format (u_login u)" "email_format (u_email u)"
    if "u \<in> set (users s') \<union> set (checked s')" for u
    using that assms(1,5) proven_mono [OF _ assms(2,3)] unfolding run_ok_def by blast+
  moreover have "cookie_ok pf s' v" if "v \<in> set (issued s')" for v
    using that assms(1,6) cookie_ok_mono [OF _ assms(2,3)] unfolding run_ok_def by blast
  moreover have "mail_ok pf s' l" if "l \<in> set (mails s')" for l
    using that assms(1,7) mail_ok_mono [OF _ assms(2)] unfolding run_ok_def by blast
  ultimately show ?thesis using assms(4) unfolding run_ok_def by blast
qed

lemma users_distinct_append:
  assumes "users_distinct pf us" "row_free pf u s" "users s = us"
  shows "users_distinct pf (us @ [u])"
  using assms by (auto simp: users_distinct_def row_free_def sorted_wrt_append taken_def list_ex_iff)

lemma run_ok_step:
  assumes "run_ok pf s" "presented c s"
  shows "run_ok pf (run_step pf m r data c s)"
proof -
  let ?t = "signup.truncate s"
  have t: "users ?t = users s" "mails ?t = mails s" by (simp_all add: signup.defs)
  have dist: "users_distinct pf (users s)" using assms(1) by (simp add: run_ok_def)
  have cookie: "cookie_ok pf s v" "v \<in> set (issued s)" if "c = Some v" for v
    using that assms unfolding run_ok_def presented_def by blast+
  have same: "run_ok pf (run_step pf m r data c s)" if "handle_request pf m r data c ?t = (a, c, ?t)" "\<not> made_code r a" for a
    by (rule run_okI [OF assms(1)])
      (use that t dist cookie(2) in \<open>auto simp: run_step_def split: option.splits\<close>)
  show ?thesis
  proof (cases r)
    case Send_code
    from send_code_cases [of pf m data c ?t] show ?thesis
    proof (elim disjE exE conjE)
      fix a assume "api_send_code pf m data c ?t = (a, c, ?t)" "\<not> made_code Send_code a"
      then show ?thesis using same Send_code by (simp add: handle_request_def)
    next
      fix a v ms
      assume h: "api_send_code pf m data c ?t = (a, Some v, ?t\<lparr>mails := mails ?t @ ms\<rparr>)" "made_code Send_code a"
        "set ms \<subseteq> {code_mail pf (v_email v) (code_text (m_code m))}" "email_format (v_email v)" "\<not> v_verified v"
        "py_bind (str_encode (code_text (m_code m))) (\<lambda>b. hashpw pf b (m_salt m)) = Inr (v_hash v)"
      let ?s = "run_step pf m r data c s"
      have s': "users ?s = users s" "mails ?s = mails s @ ms" "issued ?s = issued s @ [v]"
        "made ?s = made s @ [(v_email v, code_text (m_code m), v_hash v)]" "entered ?s = entered s" "checked ?s = checked s"
        using h(1,2) t Send_code by (simp_all add: run_step_def handle_request_def)
      have "cookie_ok pf ?s v"
        using h(4,5,6) unfolding cookie_ok_def made_for_def s' by auto
      moreover have mail: "mail_ok pf ?s l" if "l \<in> set ms" for l
      proof -
        from h(3) that have "l = code_mail pf (v_email v) (code_text (m_code m))" by blast
        then show ?thesis by (auto simp: mail_ok_def s' code_mail_def)
      qed
      ultimately show ?thesis
        by (intro run_okI [OF assms(1)]) (use s' mail dist in auto)
    qed
  next
    case Verify_code
    let ?e = "(py_strip (body_field data ''email''), py_strip (body_field data ''code''))"
    from verify_code_cases [of pf m data c] show ?thesis
    proof (elim disjE exE conjE)
      fix a assume "api_verify_code pf m data c = (a, c)"
      then show ?thesis using same Verify_code by (simp add: handle_request_def made_code_def)
    next
      fix a v b
      assume h: "api_verify_code pf m data c = (a, Some (v\<lparr>v_verified := True\<rparr>))" "c = Some v"
        "v_email v = py_strip (body_field data ''email'')"
        "str_encode (py_strip (body_field data ''code'')) = Inr b" "checkpw pf b (v_hash v) = Inr True"
      let ?s = "run_step pf m r data c s"
      have s': "users ?s = users s" "mails ?s = mails s" "issued ?s = issued s @ [v\<lparr>v_verified := True\<rparr>]"
        "made ?s = made s" "entered ?s = entered s @ [?e]" "checked ?s = checked s"
        using h(1) t Verify_code by (simp_all add: run_step_def handle_request_def made_code_def)
      from cookie(1) [OF h(2)] have "email_format (v_email v)" and made: "made_for pf s (v_email v) (v_hash v)"
        by (simp_all add: cookie_ok_def)
      moreover have "made_for pf ?s (v_email v) (v_hash v)" using made_for_mono [OF made] s'(4) by simp
      moreover from this have "proven pf ?s (v_email v)" using h(3,4,5) s'(5) unfolding proven_def by auto
      ultimately have "cookie_ok pf ?s (v\<lparr>v_verified := True\<rparr>)" by (simp add: cookie_ok_def)
      then show ?thesis
        by (intro run_okI [OF assms(1)]) (use s' dist in auto)
    qed
  next
    case Register
    from register_cases [of pf m data c ?t] show ?thesis
    proof (elim disjE exE conjE)
      fix a assume "api_register pf m data c ?t = (a, c, ?t)"
      then show ?thesis using same Register by (simp add: handle_request_def made_code_def)
    next
      fix a v u
      assume h: "api_register pf m data c ?t = (a, None, ?t\<lparr>users := users ?t @ [u]\<rparr>)" "c = Some v" "v_verified v"
        "v_email v = u_email u" "id_format (u_login u)" "row_free pf u ?t"
      let ?s = "run_step pf m r data c s"
      have s': "users ?s = users s @ [u]" "mails ?s = mails s" "issued ?s = issued s" "made ?s = made s" "entered ?s = entered s"
        "checked ?s = checked s"
        using h(1) t Register by (simp_all add: run_step_def handle_request_def made_code_def)
      from cookie(1) [OF h(2)] h(3,4) have "email_format (u_email u)" "proven pf s (u_email u)" by (simp_all add: cookie_ok_def)
      moreover from this have "proven pf ?s (u_email u)" using proven_mono [of pf s "u_email u" ?s] s' by simp
      ultimately show ?thesis
        using users_distinct_append [OF dist h(6) t(1)]
        by (intro run_okI [OF assms(1)]) (use s' h(5) in auto)
    qed
  qed (use same in \<open>simp_all add: handle_request_def made_code_def\<close>)
qed

lemma run_ok_checks:
  assumes "run_ok pf s" "presented c s" "register_checks pf m data c (signup.truncate s) = Inr u"
  shows "run_ok pf (check_step u s)"
proof -
  from register_checked [OF assms(3)] obtain v where v: "c = Some v" "v_verified v" "v_email v = u_email u" "id_format (u_login u)"
    by blast
  with assms(1,2) have "cookie_ok pf s v" unfolding run_ok_def presented_def by blast
  with v have "email_format (u_email u)" "proven pf s (u_email u)" by (simp_all add: cookie_ok_def)
  moreover from this have "proven pf (check_step u s) (u_email u)"
    using proven_mono [of pf s "u_email u" "check_step u s"] by (simp add: check_step_def)
  ultimately show ?thesis
    by (intro run_okI [OF assms(1)]) (use assms(1) v(4) in \<open>auto simp: check_step_def run_ok_def\<close>)
qed

lemma run_ok_commit:
  assumes "run_ok pf s" "k < length (checked s)"
  shows "run_ok pf (commit_step pf m k s)"
proof -
  let ?u = "checked s ! k" and ?t = "signup.truncate s" and ?s = "commit_step pf m k s"
  have t: "users ?t = users s" by (simp add: signup.defs)
  have rest: "set (take k (checked s) @ drop (Suc k) (checked s)) \<subseteq> set (checked s)"
    by (auto dest: in_set_takeD in_set_dropD)
  have mem: "?u \<in> set (checked s)" using assms(2) by simp
  have s': "made ?s = made s" "entered ?s = entered s" "issued ?s = issued s" "mails ?s = mails s"
    "checked ?s = take k (checked s) @ drop (Suc k) (checked s)" "users ?s = users s \<or> users ?s = users s @ [?u] \<and> row_free pf ?u ?t"
    by (simp_all add: commit_step_def register_commit_def t)
  have "users_distinct pf (users ?s)"
    using s'(6) users_distinct_append [of pf "users s" ?u ?t] assms(1) t by (auto simp: run_ok_def)
  moreover have "set (users ?s) \<union> set (checked ?s) \<subseteq> set (users s) \<union> set (checked s)"
    using s'(5,6) rest mem by auto
  ultimately show ?thesis
    by (intro run_okI [OF assms(1)]) (use s'(1-4) in auto)
qed

lemma run_ok_reachable: "signup_run pf s \<Longrightarrow> run_ok pf s"
proof (induction rule: signup_run.induct)
  case run_start
  show ?case by (simp add: server_start_def run_ok_def users_distinct_def)
qed (simp_all add: run_ok_step run_ok_checks run_ok_commit)

subsection \<open>Properties\<close>

text \<open>
  C39: no account without a verified address. In every run of the sign-up server, whatever requests
  clients send and whichever of the server's cookies they present, also old ones, and however the
  checks and commits of registrations interleave: the login ids,
  nicknames and addresses of the accounts are pairwise different, login ids and addresses are well
  formed, and for the address of every account the server made a code and a client entered, for that
  address, a text that the hash of the code accepts. A mail goes to the address that the code in
  it was made for.
\<close>

theorem accounts_verified:
  assumes "signup_run pf s"
  shows "users_distinct pf (users s) \<and>
    (\<forall>u \<in> set (users s). id_format (u_login u) \<and> email_format (u_email u) \<and> proven pf s (u_email u)) \<and>
    (\<forall>l \<in> set (mails s). \<exists>code h. (mail_to l, code, h) \<in> set (made s) \<and> l = code_mail pf (mail_to l) code)"
  using run_ok_reachable [OF assms] by (simp add: run_ok_def mail_ok_def)

text \<open>A client gets a code, enters it and registers, twice at once; the nickname is empty.\<close>

definition sample_signup :: signup_platform where
  "sample_signup = \<lparr>re_digit = \<lambda>c. 48 \<le> c \<and> c \<le> 57, re_word = id_char, hashpw = \<lambda>b salt. Inr (map unat b),
     checkpw = \<lambda>b h. Inr (map unat b = h), db_same = (=), code_ttl = 300\<rparr>"

definition sample_moment :: moment where
  "sample_moment = \<lparr>m_now = 1000, m_code = 42, m_salt = 7, m_mailed = True, m_failure = None, m_commits = True\<rparr>"

definition sample_fields :: body where
  "sample_fields = [(''login_id'', [112, 108, 97, 121, 101, 114, 95, 49]), (''nickname'', []), (''password'', [97, 98, 99, 100, 49, 50, 51, 52]), (''password2'', [97, 98, 99, 100, 49, 50, 51, 52]),
     (''email'', [112, 64, 109, 97, 105, 108, 46, 107, 114]), (''code'', [48, 48, 48, 48, 52, 50])]"

definition sample_cookie :: "bool \<Rightarrow> verification" where
  "sample_cookie verified = \<lparr>v_email = [112, 64, 109, 97, 105, 108, 46, 107, 114], v_hash = [48, 48, 48, 48, 52, 50], v_expire = 1300, v_verified = verified\<rparr>"

lemma sample_texts:
  "py_strip (body_field sample_fields ''login_id'') = [112, 108, 97, 121, 101, 114, 95, 49]" "py_strip (body_field sample_fields ''nickname'') = []"
  "body_field sample_fields ''password'' = [97, 98, 99, 100, 49, 50, 51, 52]" "body_field sample_fields ''password2'' = [97, 98, 99, 100, 49, 50, 51, 52]"
  "py_strip (body_field sample_fields ''email'') = [112, 64, 109, 97, 105, 108, 46, 107, 114]" "py_strip (body_field sample_fields ''code'') = [48, 48, 48, 48, 52, 50]"
  by (simp_all add: sample_fields_def body_field_def py_strip_def py_isspace_def)

lemma sample_formats:
  "id_format [112, 108, 97, 121, 101, 114, 95, 49]" "email_format [112, 64, 109, 97, 105, 108, 46, 107, 114]" "validate_password sample_signup [97, 98, 99, 100, 49, 50, 51, 52]" "code_text 42 = [48, 48, 48, 48, 52, 50]"
  by (simp_all add: id_format_def re_plus_def id_char_def ascii_alpha_def email_format_def validate_password_def
      sample_signup_def code_text_def upt_rec)

lemma sample_hash:
  "str_encode [48, 48, 48, 48, 52, 50] = Inr [48, 48, 48, 48, 52, 50]" "\<exists>b. str_encode [97, 98, 99, 100, 49, 50, 51, 52] = Inr b \<and> hashpw sample_signup b salt = Inr (map unat b)"
  "hashpw sample_signup [48, 48, 48, 48, 52, 50] salt = Inr [48, 48, 48, 48, 52, 50]"
  "checkpw sample_signup [48, 48, 48, 48, 52, 50] [48, 48, 48, 48, 52, 50] = Inr True"
  by (simp_all add: str_encode_def scalar_def utf8_char_def sample_signup_def)

lemmas sample_simps = sample_texts sample_formats sample_hash(1,3,4) sample_cookie_def sample_moment_def taken_def server_start_def signup.defs

lemma sample_sent:
  "run_step sample_signup sample_moment Send_code sample_fields None server_start =
     server_start\<lparr>mails := [code_mail sample_signup [112, 64, 109, 97, 105, 108, 46, 107, 114] [48, 48, 48, 48, 52, 50]], issued := [sample_cookie False], made := [([112, 64, 109, 97, 105, 108, 46, 107, 114], [48, 48, 48, 48, 52, 50], [48, 48, 48, 48, 52, 50])]\<rparr>"
  by (simp add: run_step_def handle_request_def api_send_code_def send_email_code_def made_code_def sample_simps) (simp add: sample_signup_def Let_def sample_cookie_def sample_formats(4))

lemma sample_verified:
  "run_step sample_signup sample_moment Verify_code sample_fields (Some (sample_cookie False))
     (server_start\<lparr>mails := ms, issued := [sample_cookie False], made := ks\<rparr>) =
   server_start\<lparr>mails := ms, issued := [sample_cookie False, sample_cookie True], made := ks, entered := [([112, 64, 109, 97, 105, 108, 46, 107, 114], [48, 48, 48, 48, 52, 50])]\<rparr>"
  by (simp add: run_step_def handle_request_def api_verify_code_def made_code_def sample_simps)

lemma sample_checked:
  "\<exists>u. register_checks sample_signup sample_moment sample_fields (Some (sample_cookie True)) \<lparr>users = [], mails = ms\<rparr> = Inr u \<and>
     u_login u = [112, 108, 97, 121, 101, 114, 95, 49] \<and> u_nick u = [] \<and> u_email u = [112, 64, 109, 97, 105, 108, 46, 107, 114]"
  using sample_hash(2) [of 7] by (auto simp: register_checks_def sample_simps Let_def)

text \<open>The client verified its address.\<close>

definition sample_verified_run :: run where
  "sample_verified_run = run_step sample_signup sample_moment Verify_code sample_fields (Some (sample_cookie False))
     (run_step sample_signup sample_moment Send_code sample_fields None server_start)"

lemma sample_verified_state:
  "sample_verified_run = server_start\<lparr>mails := [code_mail sample_signup [112, 64, 109, 97, 105, 108, 46, 107, 114] [48, 48, 48, 48, 52, 50]],
     issued := [sample_cookie False, sample_cookie True], made := [([112, 64, 109, 97, 105, 108, 46, 107, 114], [48, 48, 48, 48, 52, 50], [48, 48, 48, 48, 52, 50])], entered := [([112, 64, 109, 97, 105, 108, 46, 107, 114], [48, 48, 48, 48, 52, 50])]\<rparr>"
  unfolding sample_verified_run_def sample_sent sample_verified ..

lemma sample_verified_reachable: "signup_run sample_signup sample_verified_run"
  unfolding sample_verified_run_def
  by (intro run_request run_start) (simp_all add: presented_def sample_sent)

lemma sample_verified_checks:
  "\<exists>u. register_checks sample_signup sample_moment sample_fields (Some (sample_cookie True)) (signup.truncate sample_verified_run) = Inr u \<and>
     u_login u = [112, 108, 97, 121, 101, 114, 95, 49] \<and> u_nick u = [] \<and> u_email u = [112, 64, 109, 97, 105, 108, 46, 107, 114]"
  using sample_checked by (simp add: sample_verified_state server_start_def signup.defs)

text \<open>
  Two registrations of the client race: both pass the checks, and the database lets one of them
  through. The other is answered with the server error of an exception, not with the message of the
  checks.
\<close>

lemma registration_race:
  "\<exists>s u. signup_run sample_signup s \<and> checked s = [u] \<and> map u_email (users s) = [[112, 64, 109, 97, 105, 108, 46, 107, 114]] \<and>
     (\<forall>m c. fst (register_commit sample_signup m u c (signup.truncate s)) = CommitFails)"
proof -
  obtain u where u: "register_checks sample_signup sample_moment sample_fields (Some (sample_cookie True)) (signup.truncate sample_verified_run) = Inr u"
    "u_email u = [112, 64, 109, 97, 105, 108, 46, 107, 114]" using sample_verified_checks by blast
  let ?c = "Some (sample_cookie True)" and ?s1 = "check_step u sample_verified_run"
  have c: "presented ?c sample_verified_run" "presented ?c ?s1"
    by (simp_all add: presented_def check_step_def sample_verified_state)
  have "signup.truncate ?s1 = signup.truncate sample_verified_run" by (simp add: check_step_def signup.defs)
  with u(1) have "signup_run sample_signup (check_step u ?s1)"
    by (intro run_checks [OF run_checks [OF sample_verified_reachable c(1) u(1)] c(2)]) simp
  then have run: "signup_run sample_signup (commit_step sample_signup sample_moment 0 (check_step u ?s1))"
    by (rule run_commit) (simp add: check_step_def)
  moreover have t: "users sample_verified_run = []" "checked sample_verified_run = []"
    by (simp_all add: sample_verified_state server_start_def)
  ultimately have s: "checked (commit_step sample_signup sample_moment 0 (check_step u ?s1)) = [u]"
    "users (commit_step sample_signup sample_moment 0 (check_step u ?s1)) = [u]"
    by (simp_all add: commit_step_def check_step_def register_commit_def row_free_def taken_def sample_moment_def signup.defs)
  moreover have "\<not> row_free sample_signup u \<lparr>users = [u], mails = l\<rparr>" for l
    by (simp add: row_free_def taken_def sample_signup_def)
  ultimately show ?thesis
    by (intro exI [of _ "commit_step sample_signup sample_moment 0 (check_step u ?s1)"] exI [of _ u] conjI run s(1))
      (simp_all add: u(2) register_commit_def signup.defs)
qed

theorem accounts_verified_witness:
  "\<exists>s. checked s \<noteq> [] \<and> map u_email (users s) = [[112, 64, 109, 97, 105, 108, 46, 107, 114]] \<and> proven sample_signup s [112, 64, 109, 97, 105, 108, 46, 107, 114]"
proof -
  from registration_race obtain s u where s: "signup_run sample_signup s" "checked s = [u]" "map u_email (users s) = [[112, 64, 109, 97, 105, 108, 46, 107, 114]]"
    by (elim exE conjE)
  with accounts_verified [OF s(1)] show ?thesis by (intro exI [of _ s]) auto
qed

text \<open>Registering does not check the nickname: the sample's empty one, which \<open>api_check_nickname\<close> refuses, is accepted.\<close>

theorem register_accepts_any_nickname:
  "fst (api_register sample_signup sample_moment sample_fields (Some (sample_cookie True)) \<lparr>users = [], mails = []\<rparr>) =
     Answer True 200 [0xD68C, 0xC6D0, 0xAC00, 0xC785, 0xC774, 32, 0xC644, 0xB8CC, 0xB418, 0xC5C8, 0xC2B5, 0xB2C8, 0xB2E4, 46] \<and> \<not> nick_format (py_strip (body_field sample_fields ''nickname''))"
proof -
  obtain u where "register_checks sample_signup sample_moment sample_fields (Some (sample_cookie True)) \<lparr>users = [], mails = []\<rparr> = Inr u"
    using sample_checked [of "[]"] by blast
  then show ?thesis by (simp add: register_alone sample_moment_def sample_texts(2) nick_format_def)
qed

end
