(* ===== verification/Animations.thy ===== *)
theory Animations
  imports Resources Login
begin

text \<open>
  Code that the program does not use yet: \<open>ShutterAnimation\<close>
  (\<^verbatim>\<open>client/tetris/animation/shutter_animaion.py\<close>), \<open>LoadingAnimation\<close>
  (loading_animation.py) with its images (\<^verbatim>\<open>resources/define_anim_images.py\<close>),
  \<open>LoadingState\<close> (\<^verbatim>\<open>states/loading_state.py\<close>), and operations of widgets that nothing calls.
  The lemmas show that the shutter works and that the loading scene could not.
\<close>

subsection \<open>Shutter\<close>

record shutter =
  sh_dy :: rat
  sh_dh :: rat
  sh_elapsed :: rat
  sh_active :: bool

definition shutter_ms :: rat where "shutter_ms = 3000"

definition ShutterAnimation :: shutter where
  "ShutterAnimation = \<lparr>sh_dy = 0, sh_dh = 0, sh_elapsed = 0, sh_active = False\<rparr>"

definition start_animation :: "shutter \<Rightarrow> shutter" where
  "start_animation s = s\<lparr>sh_active := True\<rparr>"

definition shutter_update :: "rat \<Rightarrow> shutter \<Rightarrow> shutter" where
  "shutter_update dt_ms s =
     (if \<not> sh_active s then s
      else let e = sh_elapsed s + dt_ms;
               (delta, e, active) = (if shutter_ms < e then (1, shutter_ms, False) else (e / shutter_ms, e, True));
               dy = delta * of_int BASE_SCREEN_HEIGHT
        in s\<lparr>sh_elapsed := e, sh_active := active, sh_dy := dy, sh_dh := dy\<rparr>)"

text \<open>The part of the shutter's image that is shown, from \<open>sh_dy\<close> down.\<close>

definition shutter_draw :: "shutter \<Rightarrow> (rat \<times> rat) option" where
  "shutter_draw s = (if \<not> sh_active s then None else Some (sh_dy s, of_int BASE_SCREEN_HEIGHT - sh_dh s))"

definition wf_shutter :: "shutter \<Rightarrow> bool" where
  "wf_shutter s \<longleftrightarrow> 0 \<le> sh_elapsed s \<and> sh_elapsed s \<le> shutter_ms \<and> sh_dh s = sh_dy s \<and>
     sh_dy s * shutter_ms = sh_elapsed s * of_int BASE_SCREEN_HEIGHT"

lemma wf_shutter_update: "wf_shutter s \<Longrightarrow> 0 \<le> dt \<Longrightarrow> wf_shutter (shutter_update dt s)"
  by (auto simp: wf_shutter_def shutter_update_def shutter_ms_def Let_def)

lemma shutter_update_elapsed:
  "sh_active s \<Longrightarrow> sh_active (shutter_update dt s) = (sh_elapsed s + dt \<le> shutter_ms) \<and>
     (sh_elapsed s + dt \<le> shutter_ms \<longrightarrow> sh_elapsed (shutter_update dt s) = sh_elapsed s + dt)"
  by (auto simp: shutter_update_def Let_def)

text \<open>
  A shutter that was started closes the image evenly and is gone exactly when more than three seconds
  have passed, however they are cut into frames.
\<close>

theorem shutter_closes:
  assumes "list_all (\<lambda>dt. 0 \<le> dt) dts"
  shows "(case shutter_draw (fold shutter_update dts (start_animation ShutterAnimation)) of
      None \<Rightarrow> shutter_ms < sum_list dts
    | Some (y, h) \<Rightarrow> sum_list dts \<le> shutter_ms \<and> y * shutter_ms = sum_list dts * of_int BASE_SCREEN_HEIGHT \<and>
        h = of_int BASE_SCREEN_HEIGHT - y)"
proof -
  have "let t = fold shutter_update dts s in wf_shutter t \<and>
      (sh_active t \<longleftrightarrow> sh_active s \<and> sh_elapsed s + sum_list dts \<le> shutter_ms) \<and>
      (sh_active t \<longrightarrow> sh_elapsed t = sh_elapsed s + sum_list dts)" if "wf_shutter s" for s
    using assms that
  proof (induction dts arbitrary: s)
    case (Cons dt dts)
    then have dt: "0 \<le> dt" "list_all (\<lambda>dt. 0 \<le> dt) dts" by simp_all
    have rest: "0 \<le> sum_list dts" using dt(2) by (intro sum_list_nonneg) (auto simp: list_all_iff)
    note IH = Cons.IH [OF dt(2) wf_shutter_update [OF Cons.prems(2) dt(1)]]
    show ?case
    proof (cases "sh_active s")
      case True
      with IH shutter_update_elapsed [OF True, of dt] rest show ?thesis by (auto simp: Let_def algebra_simps)
    next
      case False
      then have "shutter_update dt s = s" by (simp add: shutter_update_def)
      with IH False show ?thesis by (simp add: Let_def)
    qed
  qed (simp add: wf_shutter_def)
  from this [of "start_animation ShutterAnimation"] show ?thesis
    by (auto simp: start_animation_def ShutterAnimation_def wf_shutter_def shutter_draw_def shutter_ms_def Let_def)
qed

subsection \<open>Loading\<close>

definition LARGE_SIZE :: int where "LARGE_SIZE = 50"
definition MEDIUM_SIZE :: int where "MEDIUM_SIZE = 40"
definition SMALL_SIZE :: int where "SMALL_SIZE = 30"

datatype IMAGE_TYPE = LARGE | MEDIUM | SMALL

fun image_type_code :: "IMAGE_TYPE \<Rightarrow> int" where
  "image_type_code LARGE = 1"
| "image_type_code MEDIUM = 2"
| "image_type_code SMALL = 3"

record anim_image =
  image_type :: IMAGE_TYPE
  large_image :: "image option"
  medium_image :: "image option"
  small_image :: "image option"

definition Base :: anim_image where
  "Base = \<lparr>image_type = LARGE, large_image = None, medium_image = None, small_image = None\<rparr>"

text \<open>\<open>Base.draw\<close>: the large image, moved by half of the space that the size would leave.\<close>

definition base_draw :: "anim_image \<Rightarrow> rat \<Rightarrow> rat \<Rightarrow> image option \<times> rat \<times> rat" where
  "base_draw a x y = (case image_type a of
     LARGE \<Rightarrow> (large_image a, x, y)
   | MEDIUM \<Rightarrow> (let off = of_int LARGE_SIZE - of_int MEDIUM_SIZE / 2 in (large_image a, x + off, y + off))
   | SMALL \<Rightarrow> (let off = of_int LARGE_SIZE - of_int SMALL_SIZE / 2 in (large_image a, x + off, y + off)))"

definition reset_image_type :: "anim_image \<Rightarrow> anim_image" where
  "reset_image_type a = a\<lparr>image_type := SMALL\<rparr>"

text \<open>The attributes of \<open>ResourceManager\<close>; the images are in \<open>rm.images\<close>, not in \<open>rm\<close>.\<close>

definition rm_block_images :: "string list \<Rightarrow> (int \<times> image) list py" where
  "rm_block_images attributes = (if ''block_images'' \<in> set attributes then Inr block_images else Inl AttributeError)"

definition resource_manager_attributes :: "string list" where
  "resource_manager_attributes = [''images'', ''sounds'', ''fonts'']"

text \<open>The seven classes \<open>Red\<close> to \<open>Purple\<close> differ in the key only.\<close>

definition coloured_image :: "int \<Rightarrow> anim_image py" where
  "coloured_image key =
     py_bind (rm_block_images resource_manager_attributes) (\<lambda>d. py_bind (dict_get d key) (\<lambda>im.
       Inr (Base\<lparr>large_image := Some (scale_image im LARGE_SIZE LARGE_SIZE),
         medium_image := Some (scale_image im MEDIUM_SIZE MEDIUM_SIZE),
         small_image := Some (scale_image im SMALL_SIZE SMALL_SIZE)\<rparr>)))"

record loading_animation =
  la_images :: "anim_image list"
  large_image_offset :: int

definition LoadingAnimation :: "loading_animation py" where
  "LoadingAnimation =
     py_bind (py_collect coloured_image [DEFAULT_RED, DEFAULT_ORANGE, DEFAULT_YELLOW, DEFAULT_GREEN, DEFAULT_BLUE,
       DEFAULT_INDIGO, DEFAULT_PURPLE]) (\<lambda>ims. Inr \<lparr>la_images = ims, large_image_offset = -1\<rparr>)"

text \<open>\<open>animation\<close> takes the code of the type \<open>LARGE\<close>, 1, for the width of an image.\<close>

definition animation :: "loading_animation \<Rightarrow> (image option \<times> rat \<times> rat) list" where
  "animation a =
     (let (sw, sh) = screen_size; w = of_int (image_type_code LARGE) :: rat; padding_x = 30; n = of_nat (length (la_images a));
          center_x = of_int sw / 2 - w / 2; draw_y = of_int sh / 2 - w / 2;
          start_x = center_x - (n * w + padding_x * (n - 1)) / 2
      in map (\<lambda>k. base_draw (la_images a ! k) (start_x + of_nat k * (w + padding_x)) draw_y) [0..<length (la_images a)])"

text \<open>\<open>index\<close> is a local variable that the first line reads before anything is assigned to it.\<close>

definition set_next_images :: "int option \<Rightarrow> loading_animation \<Rightarrow> loading_animation py" where
  "set_next_images index a = (case index of
     None \<Rightarrow> Inl NameError
   | Some i \<Rightarrow> let n = length (la_images a); i = (i + 1) mod int n; a = a\<lparr>large_image_offset := i\<rparr>;
         ims = map reset_image_type (la_images a);
         put = (\<lambda>k ty ims. ims[nat k := (ims ! nat k)\<lparr>image_type := ty\<rparr>]);
         ims = (if i = 0 then put (i + 1) MEDIUM (put i LARGE ims)
           else if i = 6 then put (i - 1) MEDIUM (put i LARGE ims)
           else put (i - 1) MEDIUM (put (i + 1) MEDIUM (put i LARGE ims)))
       in Inr (a\<lparr>la_images := ims\<rparr>))"

record loading_state =
  ls_anim :: loading_animation
  ls_elapsed :: rat

definition LoadingState :: "loading_state py" where
  "LoadingState = py_bind LoadingAnimation (\<lambda>a. Inr \<lparr>ls_anim = a, ls_elapsed = 0\<rparr>)"

text \<open>\<open>self.elapsed_time =- 100\<close> assigns minus 100.\<close>

definition loading_update :: "rat \<Rightarrow> loading_state \<Rightarrow> loading_state py" where
  "loading_update dt_ms s =
     (let s = s\<lparr>ls_elapsed := ls_elapsed s + dt_ms * 1000\<rparr> in
      if 100 < ls_elapsed s then
        py_bind (set_next_images None (ls_anim s)) (\<lambda>a. Inr (s\<lparr>ls_elapsed := - 100, ls_anim := a\<rparr>))
      else Inr s)"

text \<open>\<open>Surface.fill\<close> takes a colour, a rectangle and flags; the code passes the four parts of a colour.\<close>

definition surface_fill :: "int list \<Rightarrow> unit py" where
  "surface_fill args = (if length args \<le> 3 then Inr () else Inl TypeError)"

definition loading_draw :: "loading_state \<Rightarrow> (image option \<times> rat \<times> rat) list py" where
  "loading_draw s = py_bind (surface_fill [0, 0, 0, 128]) (\<lambda>_. Inr (animation (ls_anim s)))"

text \<open>
  The loading scene cannot be constructed, and if it could, it would raise at the first frame in which
  its animation is due, and whenever it is drawn.
\<close>

theorem loading_scene_raises:
  "LoadingState = Inl AttributeError \<and>
   (loading_update dt s = Inl NameError \<longleftrightarrow> 100 < ls_elapsed s + dt * 1000) \<and>
   loading_draw s = Inl TypeError"
  by (simp add: LoadingState_def LoadingAnimation_def py_collect_def coloured_image_def rm_block_images_def
      resource_manager_attributes_def loading_update_def set_next_images_def loading_draw_def surface_fill_def Let_def)

subsection \<open>Operations of widgets that nothing calls\<close>

text \<open>
  \<open>_set_rect_scale\<close> of a label: assigning to a field of a rectangle truncates, and the new \<open>y\<close> starts
  from the new \<open>x\<close>.
\<close>

definition set_rect_scale :: "rect \<Rightarrow> rat \<Rightarrow> rat \<Rightarrow> rect py" where
  "set_rect_scale r scale_x scale_y =
     (if scale_x < 1 / 10 \<or> 2 < scale_x then Inl ValueError
      else if scale_y < 1 / 10 \<or> 2 < scale_y then Inl ValueError
      else let x = py_trunc (of_int (rect_x r) + of_int (rect_x r) * (1 - scale_x));
               y = py_trunc (of_int x + of_int (rect_y r) * (1 - scale_y))
        in Inr \<lparr>rect_x = x, rect_y = y, rect_w = py_trunc (of_int (rect_w r) * scale_x), rect_h = py_trunc (of_int (rect_h r) * scale_y)\<rparr>)"

definition shift :: "int \<Rightarrow> int \<Rightarrow> rect \<Rightarrow> rect" where
  "shift dx dy r = r\<lparr>rect_x := rect_x r + dx, rect_y := rect_y r + dy\<rparr>"

definition move_pos :: "int \<Rightarrow> int \<Rightarrow> label_frame \<Rightarrow> label_frame" where
  "move_pos dx dy l = l\<lparr>frame_rect := shift dx dy (frame_rect l),
     lf_input := (lf_input l)\<lparr>ib_rect := shift dx dy (ib_rect (lf_input l))\<rparr>\<rparr>"

text \<open>\<open>Rect.move\<close> returns a new rectangle, which \<open>init_adjust_bar\<close> drops.\<close>

definition init_adjust_bar :: "floats \<Rightarrow> adjust_sound \<Rightarrow> adjust_sound" where
  "init_adjust_bar F a =
     (let moved = shift (part_of F (rect_w (volume_bar_rect a)) (adjusted_volume a)) 0 (adjust_bar_rect a) in a)"

definition clamp :: "int \<Rightarrow> int \<Rightarrow> int \<Rightarrow> int" where
  "clamp value min_value max_value = (if value < min_value then min_value else if max_value < value then max_value else value)"

text \<open>
  \<open>RoomInfo.update_info\<close>: the attributes it sets are overwritten or never read, and the layout is
  made again from the old data, its four captions after the old ones.
\<close>

definition room_update_info :: "room_data \<Rightarrow> room_info \<Rightarrow> room_info" where
  "room_update_info data r =
     (let d = ri_data r in r\<lparr>ri_texts := ri_texts r @ room_texts d, join_rect := room_join_rect (ri_rect r),
        join_button := (if ri_reactable r \<and> \<not> is_play d then Some (Button (room_join_rect (ri_rect r)) True JOIN_TEXT) else None)\<rparr>)"

text \<open>The first is exact for a scale of 1 except for \<open>y\<close>, the update of a room shows nothing new.\<close>

lemma unscaled: "set_rect_scale r 1 1 = Inr (r\<lparr>rect_y := rect_x r\<rparr>)"
  by (cases r) (simp add: set_rect_scale_def Let_def py_trunc_def)

lemma moved_back: "move_pos (- dx) (- dy) (move_pos dx dy l) = l"
  by (cases l; cases "frame_rect l"; cases "lf_input l") (auto simp: move_pos_def shift_def)

lemma clamp_range: "lo \<le> hi \<Longrightarrow> lo \<le> clamp v lo hi \<and> clamp v lo hi \<le> hi \<and> (lo \<le> v \<and> v \<le> hi \<longrightarrow> clamp v lo hi = v)"
  by (simp add: clamp_def)

lemma update_info_shows_nothing: "ri_data (room_update_info d r) = ri_data r \<and> room_update_info d r = room_update_info d' r"
  by (simp add: room_update_info_def Let_def)

end
